theory Spec2Isabelle
  imports Main
begin

section \<open>SQL values and three-valued logic\<close>

text \<open>
  The schema and the row-level security policies of the garage application are SQL.
  A column value is modelled as an \<open>option\<close>: \<open>None\<close> is SQL NULL.  A SQL boolean
  expression evaluates to \<open>Some True\<close>, \<open>Some False\<close> or \<open>None\<close> (unknown); a policy
  lets a row through only when its expression is \<open>Some True\<close>.
\<close>

type_synonym uuid = nat
type_synonym timestamptz = int
type_synonym sql_bool = "bool option"

definition sql_eq :: "'a option \<Rightarrow> 'a option \<Rightarrow> sql_bool" where
  "sql_eq a b = (case a of None \<Rightarrow> None
                 | Some x \<Rightarrow> (case b of None \<Rightarrow> None | Some y \<Rightarrow> Some (x = y)))"

fun sql_and :: "sql_bool \<Rightarrow> sql_bool \<Rightarrow> sql_bool" where
  "sql_and (Some False) _ = Some False"
| "sql_and _ (Some False) = Some False"
| "sql_and (Some True) (Some True) = Some True"
| "sql_and _ _ = None"

fun sql_or :: "sql_bool \<Rightarrow> sql_bool \<Rightarrow> sql_bool" where
  "sql_or (Some True) _ = Some True"
| "sql_or _ (Some True) = Some True"
| "sql_or (Some False) (Some False) = Some False"
| "sql_or _ _ = None"

definition sql_true :: "sql_bool \<Rightarrow> bool" where
  "sql_true b = (b = Some True)"

text \<open>\<open>sql_is a b\<close>: the comparison \<open>a = b\<close> of SQL is true (both sides non-null and equal).\<close>

definition sql_is :: "'a option \<Rightarrow> 'a option \<Rightarrow> bool" where
  "sql_is a b = sql_true (sql_eq a b)"

section \<open>The schema\<close>

text \<open>\<^verbatim>\<open>CREATE TYPE public.app_role AS ENUM ('admin', 'responsable', 'employe')\<close>\<close>

datatype app_role = admin | responsable | employe

text \<open>
  One record per table, one field per column, in the order of the \<^verbatim>\<open>CREATE TABLE\<close>
  statements.  TEXT is \<open>string\<close>, INTEGER is \<open>int\<close>, DECIMAL(10,2) is an \<open>int\<close> counting
  hundredths, TIMESTAMP WITH TIME ZONE is an \<open>int\<close>.  The NOT NULL, CHECK, UNIQUE and
  REFERENCES clauses are constraints, checked when a row is written (below).

  \<open>auth_user\<close> is the row of \<^verbatim>\<open>auth.users\<close>, the identity table of the platform, of which
  the migration reads \<^verbatim>\<open>id\<close>, \<^verbatim>\<open>email\<close> and \<^verbatim>\<open>raw_user_meta_data\<close> (a JSON object, here
  the list of its keys with their text values; \<^verbatim>\<open>->>\<close> looks a key up and gives NULL when
  the key is absent).
\<close>

record auth_user =
  u_id :: uuid
  u_email :: "string option"
  u_raw_user_meta_data :: "(string \<times> string) list"

record garage =
  g_id :: "uuid option"
  g_nom :: "string option"
  g_adresse :: "string option"
  g_telephone :: "string option"
  g_email :: "string option"
  g_created_at :: "timestamptz option"
  g_updated_at :: "timestamptz option"

record profile =
  p_id :: "uuid option"
  p_user_id :: "uuid option"
  p_nom :: "string option"
  p_prenom :: "string option"
  p_email :: "string option"
  p_telephone :: "string option"
  p_garage_id :: "uuid option"
  p_created_at :: "timestamptz option"
  p_updated_at :: "timestamptz option"

record user_role =
  r_id :: "uuid option"
  r_user_id :: "uuid option"
  r_role :: "app_role option"
  r_created_at :: "timestamptz option"

record voiture =
  v_id :: "uuid option"
  v_garage_id :: "uuid option"
  v_marque :: "string option"
  v_modele :: "string option"
  v_annee :: "int option"
  v_prix :: "int option"
  v_kilometrage :: "int option"
  v_carburant :: "string option"
  v_etat :: "string option"
  v_disponible :: "bool option"
  v_couleur :: "string option"
  v_description :: "string option"
  v_image_url :: "string option"
  v_created_at :: "timestamptz option"
  v_updated_at :: "timestamptz option"

record client =
  c_id :: "uuid option"
  c_garage_id :: "uuid option"
  c_nom :: "string option"
  c_prenom :: "string option"
  c_email :: "string option"
  c_telephone :: "string option"
  c_adresse :: "string option"
  c_created_at :: "timestamptz option"
  c_updated_at :: "timestamptz option"

text \<open>The rows of \<^verbatim>\<open>ventes\<close> (sales); the table has no \<^verbatim>\<open>updated_at\<close> column.\<close>

record vente =
  s_id :: "uuid option"
  s_voiture_id :: "uuid option"
  s_client_id :: "uuid option"
  s_employe_id :: "uuid option"
  s_garage_id :: "uuid option"
  s_prix_vente :: "int option"
  s_date_vente :: "timestamptz option"
  s_notes :: "string option"
  s_created_at :: "timestamptz option"

record database =
  users :: "auth_user list"
  garages :: "garage list"
  profiles :: "profile list"
  user_roles :: "user_role list"
  voitures :: "voiture list"
  clients :: "client list"
  ventes :: "vente list"

section \<open>The helper functions of the policies\<close>

text \<open>
  \<^verbatim>\<open>has_role(_user_id, _role)\<close>:
  \<^verbatim>\<open>SELECT EXISTS (SELECT 1 FROM public.user_roles WHERE user_id = _user_id AND role = _role)\<close>
\<close>

definition has_role :: "database \<Rightarrow> uuid \<Rightarrow> app_role \<Rightarrow> bool" where
  "has_role db uid role =
     list_ex (\<lambda>r. sql_true (sql_and (sql_eq (r_user_id r) (Some uid))
                                      (sql_eq (r_role r) (Some role))))
             (user_roles db)"

text \<open>
  \<^verbatim>\<open>get_user_garage(_user_id)\<close>: \<^verbatim>\<open>SELECT garage_id FROM public.profiles WHERE user_id = _user_id\<close>.
  A scalar SQL function returns the value of the first row of its query, and NULL when the
  query has no row: so NULL when the identity has no profile, and NULL when the profile has
  no garage.
\<close>

definition get_user_garage :: "database \<Rightarrow> uuid \<Rightarrow> uuid option" where
  "get_user_garage db uid =
     (case filter (\<lambda>p. sql_is (p_user_id p) (Some uid)) (profiles db) of
        [] \<Rightarrow> None
      | p # _ \<Rightarrow> p_garage_id p)"

section \<open>Row-level security\<close>

text \<open>
  A policy is made for one command or for all of them, and carries a USING expression
  (tested on existing rows), a WITH CHECK expression (tested on new rows), or both.  Every
  policy of the migration is \<^verbatim>\<open>TO authenticated\<close>: the expressions are evaluated for an
  authenticated session, whose identity \<^verbatim>\<open>auth.uid()\<close> is the argument \<open>uid\<close>.
\<close>

datatype policy_cmd = FOR_ALL | FOR_SELECT | FOR_INSERT | FOR_UPDATE | FOR_DELETE

record 'r policy =
  policy_name :: string
  policy_for :: policy_cmd
  policy_using :: "(database \<Rightarrow> uuid \<Rightarrow> 'r \<Rightarrow> sql_bool) option"
  policy_with_check :: "(database \<Rightarrow> uuid \<Rightarrow> 'r \<Rightarrow> sql_bool) option"

definition garages_policies :: "garage policy list" where
  "garages_policies =
    [\<lparr>policy_name = ''Admins can manage all garages'', policy_for = FOR_ALL,
      policy_using = Some (\<lambda>db uid g. Some (has_role db uid admin)),
      policy_with_check = Some (\<lambda>db uid g. Some (has_role db uid admin))\<rparr>,
     \<lparr>policy_name = ''Users can view their garage'', policy_for = FOR_SELECT,
      policy_using = Some (\<lambda>db uid g. sql_eq (g_id g) (get_user_garage db uid)),
      policy_with_check = None\<rparr>]"

definition profiles_policies :: "profile policy list" where
  "profiles_policies =
    [\<lparr>policy_name = ''Users can view their own profile'', policy_for = FOR_SELECT,
      policy_using = Some (\<lambda>db uid p. sql_eq (p_user_id p) (Some uid)),
      policy_with_check = None\<rparr>,
     \<lparr>policy_name = ''Admins can manage all profiles'', policy_for = FOR_ALL,
      policy_using = Some (\<lambda>db uid p. Some (has_role db uid admin)),
      policy_with_check = Some (\<lambda>db uid p. Some (has_role db uid admin))\<rparr>,
     \<lparr>policy_name = ''Users can update their own profile'', policy_for = FOR_UPDATE,
      policy_using = Some (\<lambda>db uid p. sql_eq (p_user_id p) (Some uid)),
      policy_with_check = Some (\<lambda>db uid p. sql_eq (p_user_id p) (Some uid))\<rparr>]"

definition user_roles_policies :: "user_role policy list" where
  "user_roles_policies =
    [\<lparr>policy_name = ''Users can view their own roles'', policy_for = FOR_SELECT,
      policy_using = Some (\<lambda>db uid r. sql_eq (r_user_id r) (Some uid)),
      policy_with_check = None\<rparr>,
     \<lparr>policy_name = ''Admins can manage all roles'', policy_for = FOR_ALL,
      policy_using = Some (\<lambda>db uid r. Some (has_role db uid admin)),
      policy_with_check = Some (\<lambda>db uid r. Some (has_role db uid admin))\<rparr>]"

definition voitures_policies :: "voiture policy list" where
  "voitures_policies =
    [\<lparr>policy_name = ''Authenticated users can view cars from their garage'',
      policy_for = FOR_SELECT,
      policy_using = Some (\<lambda>db uid v.
        sql_or (sql_eq (v_garage_id v) (get_user_garage db uid))
               (Some (has_role db uid admin))),
      policy_with_check = None\<rparr>,
     \<lparr>policy_name = ''Responsables and admins can manage cars'', policy_for = FOR_ALL,
      policy_using = Some (\<lambda>db uid v.
        sql_or (sql_and (sql_eq (v_garage_id v) (get_user_garage db uid))
                        (Some (has_role db uid responsable)))
               (Some (has_role db uid admin))),
      policy_with_check = Some (\<lambda>db uid v.
        sql_or (sql_and (sql_eq (v_garage_id v) (get_user_garage db uid))
                        (Some (has_role db uid responsable)))
               (Some (has_role db uid admin)))\<rparr>]"

definition clients_policies :: "client policy list" where
  "clients_policies =
    [\<lparr>policy_name = ''Users can view clients from their garage'', policy_for = FOR_SELECT,
      policy_using = Some (\<lambda>db uid c.
        sql_or (sql_eq (c_garage_id c) (get_user_garage db uid))
               (Some (has_role db uid admin))),
      policy_with_check = None\<rparr>,
     \<lparr>policy_name = ''Responsables and admins can manage clients'', policy_for = FOR_ALL,
      policy_using = Some (\<lambda>db uid c.
        sql_or (sql_and (sql_eq (c_garage_id c) (get_user_garage db uid))
                        (Some (has_role db uid responsable)))
               (Some (has_role db uid admin))),
      policy_with_check = Some (\<lambda>db uid c.
        sql_or (sql_and (sql_eq (c_garage_id c) (get_user_garage db uid))
                        (Some (has_role db uid responsable)))
               (Some (has_role db uid admin)))\<rparr>]"

definition ventes_policies :: "vente policy list" where
  "ventes_policies =
    [\<lparr>policy_name = ''Users can view sales from their garage'', policy_for = FOR_SELECT,
      policy_using = Some (\<lambda>db uid s.
        sql_or (sql_eq (s_garage_id s) (get_user_garage db uid))
               (Some (has_role db uid admin))),
      policy_with_check = None\<rparr>,
     \<lparr>policy_name = ''Authenticated users can create sales'', policy_for = FOR_INSERT,
      policy_using = None,
      policy_with_check = Some (\<lambda>db uid s.
        sql_eq (s_garage_id s) (get_user_garage db uid))\<rparr>,
     \<lparr>policy_name = ''Responsables and admins can manage sales'', policy_for = FOR_UPDATE,
      policy_using = Some (\<lambda>db uid s.
        sql_or (sql_and (sql_eq (s_garage_id s) (get_user_garage db uid))
                        (Some (has_role db uid responsable)))
               (Some (has_role db uid admin))),
      policy_with_check = Some (\<lambda>db uid s.
        sql_or (sql_and (sql_eq (s_garage_id s) (get_user_garage db uid))
                        (Some (has_role db uid responsable)))
               (Some (has_role db uid admin)))\<rparr>]"

text \<open>
  How the policies of a table decide a command: the policies made for that command or for
  all commands apply, their expressions are joined with OR, and the row passes when the
  result is true.  With no applicable policy the row is refused (default deny), which is
  what ENABLE ROW LEVEL SECURITY gives.  A policy without WITH CHECK is checked with its
  USING expression.
\<close>

definition policies_for :: "policy_cmd \<Rightarrow> 'r policy list \<Rightarrow> 'r policy list" where
  "policies_for c ps = filter (\<lambda>p. policy_for p = FOR_ALL \<or> policy_for p = c) ps"

definition check_expr :: "'r policy \<Rightarrow> (database \<Rightarrow> uuid \<Rightarrow> 'r \<Rightarrow> sql_bool) option" where
  "check_expr p = (case policy_with_check p of Some e \<Rightarrow> Some e | None \<Rightarrow> policy_using p)"

definition rls_using :: "'r policy list \<Rightarrow> policy_cmd \<Rightarrow> database \<Rightarrow> uuid \<Rightarrow> 'r \<Rightarrow> bool" where
  "rls_using ps c db uid r =
     sql_true (foldr sql_or
       (List.map_filter (\<lambda>p. map_option (\<lambda>e. e db uid r) (policy_using p)) (policies_for c ps))
       (Some False))"

definition rls_check :: "'r policy list \<Rightarrow> policy_cmd \<Rightarrow> database \<Rightarrow> uuid \<Rightarrow> 'r \<Rightarrow> bool" where
  "rls_check ps c db uid r =
     sql_true (foldr sql_or
       (List.map_filter (\<lambda>p. map_option (\<lambda>e. e db uid r) (check_expr p)) (policies_for c ps))
       (Some False))"

section \<open>The authorization decision\<close>

datatype row =
  Garage garage | Profile profile | Role user_role | Voiture voiture | Client client
  | Vente vente

datatype operation = Select row | Insert row | Update row row | Delete row

fun row_using :: "database \<Rightarrow> uuid \<Rightarrow> policy_cmd \<Rightarrow> row \<Rightarrow> bool" where
  "row_using db uid c (Garage g) = rls_using garages_policies c db uid g"
| "row_using db uid c (Profile p) = rls_using profiles_policies c db uid p"
| "row_using db uid c (Role r) = rls_using user_roles_policies c db uid r"
| "row_using db uid c (Voiture v) = rls_using voitures_policies c db uid v"
| "row_using db uid c (Client k) = rls_using clients_policies c db uid k"
| "row_using db uid c (Vente s) = rls_using ventes_policies c db uid s"

fun row_check :: "database \<Rightarrow> uuid \<Rightarrow> policy_cmd \<Rightarrow> row \<Rightarrow> bool" where
  "row_check db uid c (Garage g) = rls_check garages_policies c db uid g"
| "row_check db uid c (Profile p) = rls_check profiles_policies c db uid p"
| "row_check db uid c (Role r) = rls_check user_roles_policies c db uid r"
| "row_check db uid c (Voiture v) = rls_check voitures_policies c db uid v"
| "row_check db uid c (Client k) = rls_check clients_policies c db uid k"
| "row_check db uid c (Vente s) = rls_check ventes_policies c db uid s"

fun same_table :: "row \<Rightarrow> row \<Rightarrow> bool" where
  "same_table (Garage _) (Garage _) = True"
| "same_table (Profile _) (Profile _) = True"
| "same_table (Role _) (Role _) = True"
| "same_table (Voiture _) (Voiture _) = True"
| "same_table (Client _) (Client _) = True"
| "same_table (Vente _) (Vente _) = True"
| "same_table _ _ = False"

text \<open>
  The decision for an authenticated identity \<open>uid\<close>.  SELECT and DELETE test the USING
  expressions on the existing row, INSERT tests the WITH CHECK expressions on the new row,
  UPDATE tests USING on the existing row and WITH CHECK on the new one (an update turns a
  row of a table into a row of the same table).
\<close>

fun permitted :: "database \<Rightarrow> uuid \<Rightarrow> operation \<Rightarrow> bool" where
  "permitted db uid (Select r) = row_using db uid FOR_SELECT r"
| "permitted db uid (Insert r) = row_check db uid FOR_INSERT r"
| "permitted db uid (Update old new) =
     (same_table old new \<and> row_using db uid FOR_UPDATE old \<and> row_check db uid FOR_UPDATE new)"
| "permitted db uid (Delete r) = row_using db uid FOR_DELETE r"

fun row_garage :: "row \<Rightarrow> uuid option" where
  "row_garage (Garage g) = g_id g"
| "row_garage (Profile p) = p_garage_id p"
| "row_garage (Role r) = None"
| "row_garage (Voiture v) = v_garage_id v"
| "row_garage (Client k) = c_garage_id k"
| "row_garage (Vente s) = s_garage_id s"

fun is_Vente :: "row \<Rightarrow> bool" where
  "is_Vente (Vente _) = True"
| "is_Vente _ = False"

section \<open>Writing rows: constraints, triggers, referential actions\<close>

datatype error =
  Rls_violation | Not_null_violation | Check_violation | Unique_violation
  | Foreign_key_violation

text \<open>
  A statement is run by an authenticated identity, for whom the policies are tested, or by
  the owner of the tables, who is not subject to row-level security: the SECURITY DEFINER
  trigger function \<^verbatim>\<open>handle_new_user\<close> and the referential actions write as the owner.
\<close>

datatype caller = Owner | Authenticated uuid

fun caller_using :: "database \<Rightarrow> caller \<Rightarrow> policy_cmd \<Rightarrow> row \<Rightarrow> bool" where
  "caller_using db Owner c r = True"
| "caller_using db (Authenticated uid) c r = row_using db uid c r"

fun caller_check :: "database \<Rightarrow> caller \<Rightarrow> policy_cmd \<Rightarrow> row \<Rightarrow> bool" where
  "caller_check db Owner c r = True"
| "caller_check db (Authenticated uid) c r = row_check db uid c r"

subsection \<open>Constraints\<close>

text \<open>A foreign key holds when the column is NULL or equals a key of the referenced table.\<close>

definition references :: "'a option \<Rightarrow> 'a option list \<Rightarrow> bool" where
  "references k keys = (k = None \<or> k \<in> set keys)"

definition garages_not_null :: "garage \<Rightarrow> bool" where
  "garages_not_null g =
     (g_id g \<noteq> None \<and> g_nom g \<noteq> None \<and> g_created_at g \<noteq> None \<and> g_updated_at g \<noteq> None)"

definition garages_unique :: "garage list \<Rightarrow> garage \<Rightarrow> bool" where
  "garages_unique others g = list_all (\<lambda>g'. \<not> sql_is (g_id g') (g_id g)) others"

definition profiles_not_null :: "profile \<Rightarrow> bool" where
  "profiles_not_null p =
     (p_id p \<noteq> None \<and> p_user_id p \<noteq> None \<and> p_nom p \<noteq> None \<and> p_prenom p \<noteq> None
      \<and> p_created_at p \<noteq> None \<and> p_updated_at p \<noteq> None)"

text \<open>PRIMARY KEY (id) and UNIQUE(user_id).\<close>

definition profiles_unique :: "profile list \<Rightarrow> profile \<Rightarrow> bool" where
  "profiles_unique others p =
     list_all (\<lambda>p'. \<not> sql_is (p_id p') (p_id p) \<and> \<not> sql_is (p_user_id p') (p_user_id p)) others"

definition profiles_fk :: "database \<Rightarrow> profile \<Rightarrow> bool" where
  "profiles_fk db p =
     (references (p_user_id p) (map (\<lambda>u. Some (u_id u)) (users db))
      \<and> references (p_garage_id p) (map g_id (garages db)))"

definition user_roles_not_null :: "user_role \<Rightarrow> bool" where
  "user_roles_not_null r =
     (r_id r \<noteq> None \<and> r_user_id r \<noteq> None \<and> r_role r \<noteq> None \<and> r_created_at r \<noteq> None)"

text \<open>PRIMARY KEY (id) and UNIQUE(user_id, role).\<close>

definition user_roles_unique :: "user_role list \<Rightarrow> user_role \<Rightarrow> bool" where
  "user_roles_unique others r =
     list_all (\<lambda>r'. \<not> sql_is (r_id r') (r_id r)
                    \<and> \<not> (sql_is (r_user_id r') (r_user_id r) \<and> sql_is (r_role r') (r_role r)))
              others"

definition user_roles_fk :: "database \<Rightarrow> user_role \<Rightarrow> bool" where
  "user_roles_fk db r = references (r_user_id r) (map (\<lambda>u. Some (u_id u)) (users db))"

definition voitures_not_null :: "voiture \<Rightarrow> bool" where
  "voitures_not_null v =
     (v_id v \<noteq> None \<and> v_garage_id v \<noteq> None \<and> v_marque v \<noteq> None \<and> v_modele v \<noteq> None
      \<and> v_annee v \<noteq> None \<and> v_prix v \<noteq> None \<and> v_carburant v \<noteq> None \<and> v_etat v \<noteq> None
      \<and> v_disponible v \<noteq> None \<and> v_created_at v \<noteq> None \<and> v_updated_at v \<noteq> None)"

text \<open>
  \<^verbatim>\<open>CHECK (carburant IN ('essence', 'diesel', 'electrique', 'hybride', 'gpl'))\<close> and
  \<^verbatim>\<open>CHECK (etat IN ('neuf', 'occasion', 'reconditionne'))\<close>; a CHECK fails only when
  its expression is false, so it passes on NULL.
\<close>

definition voitures_check :: "voiture \<Rightarrow> bool" where
  "voitures_check v =
     ((case v_carburant v of None \<Rightarrow> True
       | Some x \<Rightarrow> x \<in> set [''essence'', ''diesel'', ''electrique'', ''hybride'', ''gpl''])
      \<and> (case v_etat v of None \<Rightarrow> True
         | Some x \<Rightarrow> x \<in> set [''neuf'', ''occasion'', ''reconditionne'']))"

definition voitures_unique :: "voiture list \<Rightarrow> voiture \<Rightarrow> bool" where
  "voitures_unique others v = list_all (\<lambda>v'. \<not> sql_is (v_id v') (v_id v)) others"

definition voitures_fk :: "database \<Rightarrow> voiture \<Rightarrow> bool" where
  "voitures_fk db v = references (v_garage_id v) (map g_id (garages db))"

definition clients_not_null :: "client \<Rightarrow> bool" where
  "clients_not_null k =
     (c_id k \<noteq> None \<and> c_garage_id k \<noteq> None \<and> c_nom k \<noteq> None \<and> c_prenom k \<noteq> None
      \<and> c_created_at k \<noteq> None \<and> c_updated_at k \<noteq> None)"

definition clients_unique :: "client list \<Rightarrow> client \<Rightarrow> bool" where
  "clients_unique others k = list_all (\<lambda>k'. \<not> sql_is (c_id k') (c_id k)) others"

definition clients_fk :: "database \<Rightarrow> client \<Rightarrow> bool" where
  "clients_fk db k = references (c_garage_id k) (map g_id (garages db))"

definition ventes_not_null :: "vente \<Rightarrow> bool" where
  "ventes_not_null s =
     (s_id s \<noteq> None \<and> s_voiture_id s \<noteq> None \<and> s_client_id s \<noteq> None
      \<and> s_employe_id s \<noteq> None \<and> s_garage_id s \<noteq> None \<and> s_prix_vente s \<noteq> None
      \<and> s_date_vente s \<noteq> None \<and> s_created_at s \<noteq> None)"

definition ventes_unique :: "vente list \<Rightarrow> vente \<Rightarrow> bool" where
  "ventes_unique others s = list_all (\<lambda>s'. \<not> sql_is (s_id s') (s_id s)) others"

definition ventes_fk :: "database \<Rightarrow> vente \<Rightarrow> bool" where
  "ventes_fk db s =
     (references (s_voiture_id s) (map v_id (voitures db))
      \<and> references (s_client_id s) (map c_id (clients db))
      \<and> references (s_employe_id s) (map p_id (profiles db))
      \<and> references (s_garage_id s) (map g_id (garages db)))"

text \<open>Rows that refer to a key, for the referential actions and the ON UPDATE checks.\<close>

definition garage_referenced :: "database \<Rightarrow> uuid option \<Rightarrow> bool" where
  "garage_referenced db gid =
     (list_ex (\<lambda>p. sql_is (p_garage_id p) gid) (profiles db)
      \<or> list_ex (\<lambda>v. sql_is (v_garage_id v) gid) (voitures db)
      \<or> list_ex (\<lambda>k. sql_is (c_garage_id k) gid) (clients db)
      \<or> list_ex (\<lambda>s. sql_is (s_garage_id s) gid) (ventes db))"

definition profile_referenced :: "vente list \<Rightarrow> uuid option \<Rightarrow> bool" where
  "profile_referenced ss pid = list_ex (\<lambda>s. sql_is (s_employe_id s) pid) ss"

definition voiture_referenced :: "vente list \<Rightarrow> uuid option \<Rightarrow> bool" where
  "voiture_referenced ss vid = list_ex (\<lambda>s. sql_is (s_voiture_id s) vid) ss"

definition client_referenced :: "vente list \<Rightarrow> uuid option \<Rightarrow> bool" where
  "client_referenced ss cid = list_ex (\<lambda>s. sql_is (s_client_id s) cid) ss"

subsection \<open>The \<^verbatim>\<open>updated_at\<close> triggers\<close>

text \<open>
  \<^verbatim>\<open>update_updated_at_column()\<close> is \<^verbatim>\<open>NEW.updated_at = now(); RETURN NEW;\<close>.  It is
  attached BEFORE UPDATE, FOR EACH ROW, to \<^verbatim>\<open>garages\<close>, \<^verbatim>\<open>profiles\<close>, \<^verbatim>\<open>voitures\<close>
  and \<^verbatim>\<open>clients\<close>.  The function takes the assignment to the \<^verbatim>\<open>updated_at\<close> column of
  the table it is attached to; each trigger, under its own name, is the function at its
  table.  \<open>now\<close> is what \<^verbatim>\<open>now()\<close> returns in the statement.
\<close>

definition update_updated_at_column ::
  "(timestamptz option \<Rightarrow> 'r \<Rightarrow> 'r) \<Rightarrow> timestamptz \<Rightarrow> 'r \<Rightarrow> 'r" where
  "update_updated_at_column set_updated_at now new = set_updated_at (Some now) new"

definition update_garages_updated_at :: "timestamptz \<Rightarrow> garage \<Rightarrow> garage" where
  "update_garages_updated_at now new =
     update_updated_at_column (\<lambda>t r. r\<lparr>g_updated_at := t\<rparr>) now new"

definition update_profiles_updated_at :: "timestamptz \<Rightarrow> profile \<Rightarrow> profile" where
  "update_profiles_updated_at now new =
     update_updated_at_column (\<lambda>t r. r\<lparr>p_updated_at := t\<rparr>) now new"

definition update_voitures_updated_at :: "timestamptz \<Rightarrow> voiture \<Rightarrow> voiture" where
  "update_voitures_updated_at now new =
     update_updated_at_column (\<lambda>t r. r\<lparr>v_updated_at := t\<rparr>) now new"

definition update_clients_updated_at :: "timestamptz \<Rightarrow> client \<Rightarrow> client" where
  "update_clients_updated_at now new =
     update_updated_at_column (\<lambda>t r. r\<lparr>c_updated_at := t\<rparr>) now new"

subsection \<open>INSERT\<close>

text \<open>
  The row given to an insert is the row once the column defaults have been filled in.
  The new row is tested against the WITH CHECK expressions, then against the constraints;
  the first failure is the error of the statement, and the database is unchanged.
\<close>

definition insert_garage :: "database \<Rightarrow> caller \<Rightarrow> garage \<Rightarrow> error + database" where
  "insert_garage db c g =
     (if \<not> caller_check db c FOR_INSERT (Garage g) then Inl Rls_violation
      else if \<not> garages_not_null g then Inl Not_null_violation
      else if \<not> garages_unique (garages db) g then Inl Unique_violation
      else Inr (db\<lparr>garages := garages db @ [g]\<rparr>))"

definition insert_profile :: "database \<Rightarrow> caller \<Rightarrow> profile \<Rightarrow> error + database" where
  "insert_profile db c p =
     (if \<not> caller_check db c FOR_INSERT (Profile p) then Inl Rls_violation
      else if \<not> profiles_not_null p then Inl Not_null_violation
      else if \<not> profiles_unique (profiles db) p then Inl Unique_violation
      else if \<not> profiles_fk db p then Inl Foreign_key_violation
      else Inr (db\<lparr>profiles := profiles db @ [p]\<rparr>))"

definition insert_user_role :: "database \<Rightarrow> caller \<Rightarrow> user_role \<Rightarrow> error + database" where
  "insert_user_role db c r =
     (if \<not> caller_check db c FOR_INSERT (Role r) then Inl Rls_violation
      else if \<not> user_roles_not_null r then Inl Not_null_violation
      else if \<not> user_roles_unique (user_roles db) r then Inl Unique_violation
      else if \<not> user_roles_fk db r then Inl Foreign_key_violation
      else Inr (db\<lparr>user_roles := user_roles db @ [r]\<rparr>))"

definition insert_voiture :: "database \<Rightarrow> caller \<Rightarrow> voiture \<Rightarrow> error + database" where
  "insert_voiture db c v =
     (if \<not> caller_check db c FOR_INSERT (Voiture v) then Inl Rls_violation
      else if \<not> voitures_not_null v then Inl Not_null_violation
      else if \<not> voitures_check v then Inl Check_violation
      else if \<not> voitures_unique (voitures db) v then Inl Unique_violation
      else if \<not> voitures_fk db v then Inl Foreign_key_violation
      else Inr (db\<lparr>voitures := voitures db @ [v]\<rparr>))"

definition insert_client :: "database \<Rightarrow> caller \<Rightarrow> client \<Rightarrow> error + database" where
  "insert_client db c k =
     (if \<not> caller_check db c FOR_INSERT (Client k) then Inl Rls_violation
      else if \<not> clients_not_null k then Inl Not_null_violation
      else if \<not> clients_unique (clients db) k then Inl Unique_violation
      else if \<not> clients_fk db k then Inl Foreign_key_violation
      else Inr (db\<lparr>clients := clients db @ [k]\<rparr>))"

definition insert_vente :: "database \<Rightarrow> caller \<Rightarrow> vente \<Rightarrow> error + database" where
  "insert_vente db c s =
     (if \<not> caller_check db c FOR_INSERT (Vente s) then Inl Rls_violation
      else if \<not> ventes_not_null s then Inl Not_null_violation
      else if \<not> ventes_unique (ventes db) s then Inl Unique_violation
      else if \<not> ventes_fk db s then Inl Foreign_key_violation
      else Inr (db\<lparr>ventes := ventes db @ [s]\<rparr>))"

subsection \<open>UPDATE\<close>

text \<open>
  An update names the stored row \<open>old\<close> it targets and the row \<open>new\<close> it turns it into.
  When \<open>old\<close> is not stored, or fails the USING expressions, no row is updated and the
  statement succeeds without effect.  Otherwise the BEFORE UPDATE trigger of the table, if
  it has one, rewrites the new row; the result is tested against the WITH CHECK expressions
  and the constraints, and replaces \<open>old\<close>.  The foreign keys that refer to the table have
  no ON UPDATE clause (NO ACTION): changing a key that is referred to is an error.
\<close>

definition replace :: "'a \<Rightarrow> 'a \<Rightarrow> 'a list \<Rightarrow> 'a list" where
  "replace old new xs = map (\<lambda>x. if x = old then new else x) xs"

definition update_garage ::
  "database \<Rightarrow> caller \<Rightarrow> timestamptz \<Rightarrow> garage \<Rightarrow> garage \<Rightarrow> error + database" where
  "update_garage db c now old new =
     (if old \<notin> set (garages db) \<or> \<not> caller_using db c FOR_UPDATE (Garage old) then Inr db
      else let new' = update_garages_updated_at now new in
        if \<not> caller_check db c FOR_UPDATE (Garage new') then Inl Rls_violation
        else if \<not> garages_not_null new' then Inl Not_null_violation
        else if \<not> garages_unique (removeAll old (garages db)) new' then Inl Unique_violation
        else if \<not> sql_is (g_id new') (g_id old) \<and> garage_referenced db (g_id old)
          then Inl Foreign_key_violation
        else Inr (db\<lparr>garages := replace old new' (garages db)\<rparr>))"

definition update_profile ::
  "database \<Rightarrow> caller \<Rightarrow> timestamptz \<Rightarrow> profile \<Rightarrow> profile \<Rightarrow> error + database" where
  "update_profile db c now old new =
     (if old \<notin> set (profiles db) \<or> \<not> caller_using db c FOR_UPDATE (Profile old) then Inr db
      else let new' = update_profiles_updated_at now new in
        if \<not> caller_check db c FOR_UPDATE (Profile new') then Inl Rls_violation
        else if \<not> profiles_not_null new' then Inl Not_null_violation
        else if \<not> profiles_unique (removeAll old (profiles db)) new' then Inl Unique_violation
        else if \<not> profiles_fk db new' then Inl Foreign_key_violation
        else if \<not> sql_is (p_id new') (p_id old) \<and> profile_referenced (ventes db) (p_id old)
          then Inl Foreign_key_violation
        else Inr (db\<lparr>profiles := replace old new' (profiles db)\<rparr>))"

definition update_user_role ::
  "database \<Rightarrow> caller \<Rightarrow> timestamptz \<Rightarrow> user_role \<Rightarrow> user_role \<Rightarrow> error + database" where
  "update_user_role db c now old new =
     (if old \<notin> set (user_roles db) \<or> \<not> caller_using db c FOR_UPDATE (Role old) then Inr db
      else if \<not> caller_check db c FOR_UPDATE (Role new) then Inl Rls_violation
      else if \<not> user_roles_not_null new then Inl Not_null_violation
      else if \<not> user_roles_unique (removeAll old (user_roles db)) new then Inl Unique_violation
      else if \<not> user_roles_fk db new then Inl Foreign_key_violation
      else Inr (db\<lparr>user_roles := replace old new (user_roles db)\<rparr>))"

definition update_voiture ::
  "database \<Rightarrow> caller \<Rightarrow> timestamptz \<Rightarrow> voiture \<Rightarrow> voiture \<Rightarrow> error + database" where
  "update_voiture db c now old new =
     (if old \<notin> set (voitures db) \<or> \<not> caller_using db c FOR_UPDATE (Voiture old) then Inr db
      else let new' = update_voitures_updated_at now new in
        if \<not> caller_check db c FOR_UPDATE (Voiture new') then Inl Rls_violation
        else if \<not> voitures_not_null new' then Inl Not_null_violation
        else if \<not> voitures_check new' then Inl Check_violation
        else if \<not> voitures_unique (removeAll old (voitures db)) new' then Inl Unique_violation
        else if \<not> voitures_fk db new' then Inl Foreign_key_violation
        else if \<not> sql_is (v_id new') (v_id old) \<and> voiture_referenced (ventes db) (v_id old)
          then Inl Foreign_key_violation
        else Inr (db\<lparr>voitures := replace old new' (voitures db)\<rparr>))"

definition update_client ::
  "database \<Rightarrow> caller \<Rightarrow> timestamptz \<Rightarrow> client \<Rightarrow> client \<Rightarrow> error + database" where
  "update_client db c now old new =
     (if old \<notin> set (clients db) \<or> \<not> caller_using db c FOR_UPDATE (Client old) then Inr db
      else let new' = update_clients_updated_at now new in
        if \<not> caller_check db c FOR_UPDATE (Client new') then Inl Rls_violation
        else if \<not> clients_not_null new' then Inl Not_null_violation
        else if \<not> clients_unique (removeAll old (clients db)) new' then Inl Unique_violation
        else if \<not> clients_fk db new' then Inl Foreign_key_violation
        else if \<not> sql_is (c_id new') (c_id old) \<and> client_referenced (ventes db) (c_id old)
          then Inl Foreign_key_violation
        else Inr (db\<lparr>clients := replace old new' (clients db)\<rparr>))"

text \<open>\<^verbatim>\<open>ventes\<close> has no trigger: the new row is stored as given.\<close>

definition update_vente ::
  "database \<Rightarrow> caller \<Rightarrow> timestamptz \<Rightarrow> vente \<Rightarrow> vente \<Rightarrow> error + database" where
  "update_vente db c now old new =
     (if old \<notin> set (ventes db) \<or> \<not> caller_using db c FOR_UPDATE (Vente old) then Inr db
      else if \<not> caller_check db c FOR_UPDATE (Vente new) then Inl Rls_violation
      else if \<not> ventes_not_null new then Inl Not_null_violation
      else if \<not> ventes_unique (removeAll old (ventes db)) new then Inl Unique_violation
      else if \<not> ventes_fk db new then Inl Foreign_key_violation
      else Inr (db\<lparr>ventes := replace old new (ventes db)\<rparr>))"

subsection \<open>DELETE\<close>

text \<open>
  A delete names the stored row it targets; when the row is not stored or fails the USING
  expressions, no row is deleted and the statement succeeds without effect.

  Deleting a garage runs the referential actions of the four foreign keys to
  \<^verbatim>\<open>garages(id)\<close>: ON DELETE SET NULL on \<^verbatim>\<open>profiles.garage_id\<close> (an update of those
  profiles, which fires their BEFORE UPDATE trigger), ON DELETE CASCADE on
  \<^verbatim>\<open>voitures\<close>, \<^verbatim>\<open>clients\<close> and \<^verbatim>\<open>ventes\<close>.  The cascaded deletes of vehicles and
  clients are in turn subject to ON DELETE RESTRICT of \<^verbatim>\<open>ventes.voiture_id\<close> and
  \<^verbatim>\<open>ventes.client_id\<close>, checked once the cascades of the statement are done: a sale that
  is left, of another garage, and refers to a deleted vehicle or client fails the
  statement.
\<close>

definition delete_garage ::
  "database \<Rightarrow> caller \<Rightarrow> timestamptz \<Rightarrow> garage \<Rightarrow> error + database" where
  "delete_garage db c now g =
     (if g \<notin> set (garages db) \<or> \<not> caller_using db c FOR_DELETE (Garage g) then Inr db
      else let
          ps = map (\<lambda>p. if sql_is (p_garage_id p) (g_id g)
                         then update_profiles_updated_at now (p\<lparr>p_garage_id := None\<rparr>)
                         else p) (profiles db);
          vs_del = filter (\<lambda>v. sql_is (v_garage_id v) (g_id g)) (voitures db);
          ks_del = filter (\<lambda>k. sql_is (c_garage_id k) (g_id g)) (clients db);
          ss = filter (\<lambda>s. \<not> sql_is (s_garage_id s) (g_id g)) (ventes db)
        in
          if list_ex (\<lambda>v. voiture_referenced ss (v_id v)) vs_del
             \<or> list_ex (\<lambda>k. client_referenced ss (c_id k)) ks_del
          then Inl Foreign_key_violation
          else Inr (db\<lparr>garages := removeAll g (garages db),
                       profiles := ps,
                       voitures := filter (\<lambda>v. \<not> sql_is (v_garage_id v) (g_id g)) (voitures db),
                       clients := filter (\<lambda>k. \<not> sql_is (c_garage_id k) (g_id g)) (clients db),
                       ventes := ss\<rparr>))"

text \<open>\<^verbatim>\<open>ventes.employe_id ... REFERENCES public.profiles(id) ON DELETE RESTRICT\<close>\<close>

definition delete_profile :: "database \<Rightarrow> caller \<Rightarrow> profile \<Rightarrow> error + database" where
  "delete_profile db c p =
     (if p \<notin> set (profiles db) \<or> \<not> caller_using db c FOR_DELETE (Profile p) then Inr db
      else if profile_referenced (ventes db) (p_id p) then Inl Foreign_key_violation
      else Inr (db\<lparr>profiles := removeAll p (profiles db)\<rparr>))"

definition delete_user_role :: "database \<Rightarrow> caller \<Rightarrow> user_role \<Rightarrow> error + database" where
  "delete_user_role db c r =
     (if r \<notin> set (user_roles db) \<or> \<not> caller_using db c FOR_DELETE (Role r) then Inr db
      else Inr (db\<lparr>user_roles := removeAll r (user_roles db)\<rparr>))"

text \<open>\<^verbatim>\<open>ventes.voiture_id ... REFERENCES public.voitures(id) ON DELETE RESTRICT\<close>\<close>

definition delete_voiture :: "database \<Rightarrow> caller \<Rightarrow> voiture \<Rightarrow> error + database" where
  "delete_voiture db c v =
     (if v \<notin> set (voitures db) \<or> \<not> caller_using db c FOR_DELETE (Voiture v) then Inr db
      else if voiture_referenced (ventes db) (v_id v) then Inl Foreign_key_violation
      else Inr (db\<lparr>voitures := removeAll v (voitures db)\<rparr>))"

text \<open>\<^verbatim>\<open>ventes.client_id ... REFERENCES public.clients(id) ON DELETE RESTRICT\<close>\<close>

definition delete_client :: "database \<Rightarrow> caller \<Rightarrow> client \<Rightarrow> error + database" where
  "delete_client db c k =
     (if k \<notin> set (clients db) \<or> \<not> caller_using db c FOR_DELETE (Client k) then Inr db
      else if client_referenced (ventes db) (c_id k) then Inl Foreign_key_violation
      else Inr (db\<lparr>clients := removeAll k (clients db)\<rparr>))"

definition delete_vente :: "database \<Rightarrow> caller \<Rightarrow> vente \<Rightarrow> error + database" where
  "delete_vente db c s =
     (if s \<notin> set (ventes db) \<or> \<not> caller_using db c FOR_DELETE (Vente s) then Inr db
      else Inr (db\<lparr>ventes := removeAll s (ventes db)\<rparr>))"

subsection \<open>Statements\<close>

fun exec :: "database \<Rightarrow> caller \<Rightarrow> timestamptz \<Rightarrow> operation \<Rightarrow> error + database" where
  "exec db c now (Select r) = Inr db"
| "exec db c now (Insert (Garage g)) = insert_garage db c g"
| "exec db c now (Insert (Profile p)) = insert_profile db c p"
| "exec db c now (Insert (Role r)) = insert_user_role db c r"
| "exec db c now (Insert (Voiture v)) = insert_voiture db c v"
| "exec db c now (Insert (Client k)) = insert_client db c k"
| "exec db c now (Insert (Vente s)) = insert_vente db c s"
| "exec db c now (Update (Garage old) (Garage new)) = update_garage db c now old new"
| "exec db c now (Update (Profile old) (Profile new)) = update_profile db c now old new"
| "exec db c now (Update (Role old) (Role new)) = update_user_role db c now old new"
| "exec db c now (Update (Voiture old) (Voiture new)) = update_voiture db c now old new"
| "exec db c now (Update (Client old) (Client new)) = update_client db c now old new"
| "exec db c now (Update (Vente old) (Vente new)) = update_vente db c now old new"
| "exec db c now (Update _ _) = Inr db"
| "exec db c now (Delete (Garage g)) = delete_garage db c now g"
| "exec db c now (Delete (Profile p)) = delete_profile db c p"
| "exec db c now (Delete (Role r)) = delete_user_role db c r"
| "exec db c now (Delete (Voiture v)) = delete_voiture db c v"
| "exec db c now (Delete (Client k)) = delete_client db c k"
| "exec db c now (Delete (Vente s)) = delete_vente db c s"

subsection \<open>New identities\<close>

text \<open>
  \<^verbatim>\<open>handle_new_user()\<close>, the AFTER INSERT trigger of \<^verbatim>\<open>auth.users\<close>:
  \<^verbatim>\<open>
  INSERT INTO public.profiles (user_id, nom, prenom, email)
  VALUES (new.id,
          COALESCE(new.raw_user_meta_data ->> 'nom', 'Nouveau'),
          COALESCE(new.raw_user_meta_data ->> 'prenom', 'Utilisateur'),
          new.email);
  INSERT INTO public.user_roles (user_id, role) VALUES (new.id, 'employe');
  \<close>
  The columns left out take their defaults: \<open>pid\<close> and \<open>rid\<close> are what
  \<^verbatim>\<open>gen_random_uuid()\<close> returns for the two \<^verbatim>\<open>id\<close> columns, the timestamps are
  \<^verbatim>\<open>now()\<close>, \<^verbatim>\<open>telephone\<close> and \<^verbatim>\<open>garage_id\<close> are NULL.  The function is SECURITY DEFINER:
  both inserts are the owner's.
\<close>

definition coalesce :: "'a option \<Rightarrow> 'a option \<Rightarrow> 'a option" where
  "coalesce a b = (case a of Some x \<Rightarrow> Some x | None \<Rightarrow> b)"

definition new_user_profile :: "timestamptz \<Rightarrow> auth_user \<Rightarrow> uuid \<Rightarrow> profile" where
  "new_user_profile now new pid =
     \<lparr>p_id = Some pid, p_user_id = Some (u_id new),
      p_nom = coalesce (map_of (u_raw_user_meta_data new) ''nom'') (Some ''Nouveau''),
      p_prenom = coalesce (map_of (u_raw_user_meta_data new) ''prenom'') (Some ''Utilisateur''),
      p_email = u_email new, p_telephone = None, p_garage_id = None,
      p_created_at = Some now, p_updated_at = Some now\<rparr>"

definition new_user_role :: "timestamptz \<Rightarrow> auth_user \<Rightarrow> uuid \<Rightarrow> user_role" where
  "new_user_role now new rid =
     \<lparr>r_id = Some rid, r_user_id = Some (u_id new), r_role = Some employe,
      r_created_at = Some now\<rparr>"

definition handle_new_user ::
  "database \<Rightarrow> timestamptz \<Rightarrow> auth_user \<Rightarrow> uuid \<Rightarrow> uuid \<Rightarrow> error + database" where
  "handle_new_user db now new pid rid =
     (case insert_profile db Owner (new_user_profile now new pid) of
        Inl e \<Rightarrow> Inl e
      | Inr db1 \<Rightarrow> insert_user_role db1 Owner (new_user_role now new rid))"

text \<open>
  Creating an identity is the insert into \<^verbatim>\<open>auth.users\<close> (whose primary key is
  \<^verbatim>\<open>id\<close>) followed, in the same statement, by the trigger: an error of the trigger is
  the error of the statement, and nothing is stored.
\<close>

definition create_user ::
  "database \<Rightarrow> timestamptz \<Rightarrow> auth_user \<Rightarrow> uuid \<Rightarrow> uuid \<Rightarrow> error + database" where
  "create_user db now new pid rid =
     (if u_id new \<in> set (map u_id (users db)) then Inl Unique_violation
      else handle_new_user (db\<lparr>users := users db @ [new]\<rparr>) now new pid rid)"

text \<open>
  Deleting an identity: \<^verbatim>\<open>profiles.user_id\<close> and \<^verbatim>\<open>user_roles.user_id\<close> are
  ON DELETE CASCADE; the cascaded delete of a profile is subject to ON DELETE RESTRICT of
  \<^verbatim>\<open>ventes.employe_id\<close>.
\<close>

definition delete_user :: "database \<Rightarrow> uuid \<Rightarrow> error + database" where
  "delete_user db uid =
     (if uid \<notin> set (map u_id (users db)) then Inr db
      else if list_ex (\<lambda>p. profile_referenced (ventes db) (p_id p))
                (filter (\<lambda>p. sql_is (p_user_id p) (Some uid)) (profiles db))
        then Inl Foreign_key_violation
      else Inr (db\<lparr>users := filter (\<lambda>u. u_id u \<noteq> uid) (users db),
                   profiles := filter (\<lambda>p. \<not> sql_is (p_user_id p) (Some uid)) (profiles db),
                   user_roles := filter (\<lambda>r. \<not> sql_is (r_user_id r) (Some uid)) (user_roles db)\<rparr>))"

subsection \<open>Histories\<close>

text \<open>
  What happens to the database, one event at a time: a statement of a caller, the creation
  of an identity, the deletion of an identity.  An event that fails changes nothing.  The
  migration creates the tables empty.
\<close>

datatype event =
  Statement caller timestamptz operation
  | Create_user timestamptz auth_user uuid uuid
  | Delete_user uuid

fun step :: "database \<Rightarrow> event \<Rightarrow> error + database" where
  "step db (Statement c now op) = exec db c now op"
| "step db (Create_user now new pid rid) = create_user db now new pid rid"
| "step db (Delete_user uid) = delete_user db uid"

fun run :: "database \<Rightarrow> event list \<Rightarrow> database" where
  "run db [] = db"
| "run db (e # es) = run (case step db e of Inl _ \<Rightarrow> db | Inr db' \<Rightarrow> db') es"

definition empty_database :: database where
  "empty_database =
     \<lparr>users = [], garages = [], profiles = [], user_roles = [], voitures = [], clients = [],
      ventes = []\<rparr>"

section \<open>Vocabulary of the properties\<close>


fun garage_scoped :: "row \<Rightarrow> bool" where
  "garage_scoped (Voiture _) = True"
| "garage_scoped (Client _) = True"
| "garage_scoped (Vente _) = True"
| "garage_scoped _ = False"

fun is_Garage :: "row \<Rightarrow> bool" where
  "is_Garage (Garage _) = True"
| "is_Garage _ = False"

text \<open>
  What the constraints on \<^verbatim>\<open>profiles\<close> keep true of the stored rows: the NOT NULL
  columns are filled, no two rows share an \<^verbatim>\<open>id\<close>, no two rows share a \<^verbatim>\<open>user_id\<close>.
\<close>

definition profiles_wf :: "database \<Rightarrow> bool" where
  "profiles_wf db =
     (list_all profiles_not_null (profiles db) \<and> distinct (map p_id (profiles db))
      \<and> distinct (map p_user_id (profiles db)))"

text \<open>
  What the foreign keys keep true of the stored rows: every profile and every role
  assignment refers to a stored identity; every vehicle, client and sale refers to a stored
  garage (so its \<^verbatim>\<open>garage_id\<close> is not NULL).
\<close>

definition user_refs_ok :: "database \<Rightarrow> bool" where
  "user_refs_ok db =
     (list_all (\<lambda>p. list_ex (\<lambda>u. sql_is (p_user_id p) (Some (u_id u))) (users db)) (profiles db)
      \<and> list_all (\<lambda>r. list_ex (\<lambda>u. sql_is (r_user_id r) (Some (u_id u))) (users db))
          (user_roles db))"

definition garage_refs_ok :: "database \<Rightarrow> bool" where
  "garage_refs_ok db =
     (list_all (\<lambda>v. list_ex (\<lambda>g. sql_is (v_garage_id v) (g_id g)) (garages db)) (voitures db)
      \<and> list_all (\<lambda>k. list_ex (\<lambda>g. sql_is (c_garage_id k) (g_id g)) (garages db)) (clients db)
      \<and> list_all (\<lambda>s. list_ex (\<lambda>g. sql_is (s_garage_id s) (g_id g)) (garages db)) (ventes db))"

text \<open>
  The events after which a given sale may be gone from \<^verbatim>\<open>ventes\<close> or be another row:
  the deletion of its garage, an update that targets it, and a delete of it by the owner of
  the tables.  The events that can make \<^verbatim>\<open>ventes\<close> shorter: the deletion of a garage and
  a delete of a sale by the owner.
\<close>

fun may_remove :: "vente \<Rightarrow> event \<Rightarrow> bool" where
  "may_remove s (Statement c now (Delete (Garage g))) = sql_is (s_garage_id s) (g_id g)"
| "may_remove s (Statement c now (Update (Vente old) new)) = (old = s)"
| "may_remove s (Statement Owner now (Delete (Vente s'))) = (s' = s)"
| "may_remove s _ = False"

fun deletes_sales :: "event \<Rightarrow> bool" where
  "deletes_sales (Statement c now (Delete (Garage g))) = True"
| "deletes_sales (Statement Owner now (Delete (Vente s))) = True"
| "deletes_sales _ = False"

text \<open>
  A sale of another garage that refers to a vehicle or to a client of the garage \<open>g\<close>: it
  is what the ON DELETE RESTRICT keys of \<^verbatim>\<open>ventes\<close> find when \<open>g\<close> is deleted.
\<close>

definition cross_garage_sale :: "database \<Rightarrow> garage \<Rightarrow> bool" where
  "cross_garage_sale db g =
     list_ex (\<lambda>s. \<not> sql_is (s_garage_id s) (g_id g)
                 \<and> (list_ex (\<lambda>v. sql_is (v_garage_id v) (g_id g)
                                  \<and> sql_is (s_voiture_id s) (v_id v)) (voitures db)
                    \<or> list_ex (\<lambda>k. sql_is (c_garage_id k) (g_id g)
                                  \<and> sql_is (s_client_id s) (c_id k)) (clients db)))
             (ventes db)"

section \<open>A database with two garages\<close>

text \<open>
  Garages 1 and 2; identity 10 is an admin, 11 a manager and 12 an employee, all three of
  garage 1; identity 13 is an employee without a garage; identity 14 has no profile.  The
  history below builds this database from the empty one.
\<close>

definition garage_a :: garage where
  "garage_a = \<lparr>g_id = Some 1, g_nom = Some ''Garage A'', g_adresse = None, g_telephone = None,
     g_email = None, g_created_at = Some 100, g_updated_at = Some 100\<rparr>"

definition garage_b :: garage where
  "garage_b = \<lparr>g_id = Some 2, g_nom = Some ''Garage B'', g_adresse = None, g_telephone = None,
     g_email = None, g_created_at = Some 100, g_updated_at = Some 900\<rparr>"

definition mk_user :: "uuid \<Rightarrow> auth_user" where
  "mk_user i = \<lparr>u_id = i, u_email = None, u_raw_user_meta_data = []\<rparr>"

definition mk_profile :: "uuid \<Rightarrow> uuid \<Rightarrow> uuid option \<Rightarrow> profile" where
  "mk_profile i u g = \<lparr>p_id = Some i, p_user_id = Some u, p_nom = Some ''Nouveau'',
     p_prenom = Some ''Utilisateur'', p_email = None, p_telephone = None, p_garage_id = g,
     p_created_at = Some 100, p_updated_at = Some 100\<rparr>"

definition mk_role :: "uuid \<Rightarrow> uuid \<Rightarrow> app_role \<Rightarrow> user_role" where
  "mk_role i u r = \<lparr>r_id = Some i, r_user_id = Some u, r_role = Some r, r_created_at = Some 100\<rparr>"

definition mk_voiture :: "uuid \<Rightarrow> uuid option \<Rightarrow> voiture" where
  "mk_voiture i g = \<lparr>v_id = Some i, v_garage_id = g, v_marque = Some ''Renault'',
     v_modele = Some ''Clio'', v_annee = Some 2020, v_prix = Some 1500000,
     v_kilometrage = Some 0, v_carburant = Some ''essence'', v_etat = Some ''occasion'',
     v_disponible = Some True, v_couleur = None, v_description = None, v_image_url = None,
     v_created_at = Some 100, v_updated_at = Some 100\<rparr>"

definition mk_client :: "uuid \<Rightarrow> uuid option \<Rightarrow> client" where
  "mk_client i g = \<lparr>c_id = Some i, c_garage_id = g, c_nom = Some ''Martin'',
     c_prenom = Some ''Paul'', c_email = None, c_telephone = None, c_adresse = None,
     c_created_at = Some 100, c_updated_at = Some 100\<rparr>"

definition mk_vente :: "uuid \<Rightarrow> uuid \<Rightarrow> uuid \<Rightarrow> uuid \<Rightarrow> uuid option \<Rightarrow> vente" where
  "mk_vente i v k e g = \<lparr>s_id = Some i, s_voiture_id = Some v, s_client_id = Some k,
     s_employe_id = Some e, s_garage_id = g, s_prix_vente = Some 1400000,
     s_date_vente = Some 100, s_notes = None, s_created_at = Some 100\<rparr>"

definition demo_db :: database where
  "demo_db =
     \<lparr>users = [mk_user 10, mk_user 11, mk_user 12, mk_user 13],
      garages = [garage_a, garage_b],
      profiles = [mk_profile 20 10 (Some 1), mk_profile 21 11 (Some 1),
                  mk_profile 22 12 (Some 1), mk_profile 23 13 None],
      user_roles = [mk_role 30 10 employe, mk_role 31 10 admin, mk_role 32 11 employe,
                    mk_role 33 11 responsable, mk_role 34 12 employe, mk_role 35 13 employe],
      voitures = [mk_voiture 40 (Some 1), mk_voiture 41 (Some 2)],
      clients = [mk_client 50 (Some 1), mk_client 51 (Some 2)],
      ventes = [mk_vente 60 40 50 22 (Some 1)]\<rparr>"

definition demo_history :: "event list" where
  "demo_history =
     [Create_user 100 (mk_user 10) 20 30,
      Statement Owner 100 (Insert (Role (mk_role 31 10 admin))),
      Create_user 100 (mk_user 11) 21 32,
      Statement (Authenticated 10) 100 (Insert (Role (mk_role 33 11 responsable))),
      Create_user 100 (mk_user 12) 22 34,
      Create_user 100 (mk_user 13) 23 35,
      Statement (Authenticated 10) 100 (Insert (Garage garage_a)),
      Statement (Authenticated 10) 100 (Insert (Garage garage_b)),
      Statement (Authenticated 10) 100
        (Update (Profile (mk_profile 20 10 None)) (Profile (mk_profile 20 10 (Some 1)))),
      Statement (Authenticated 10) 100
        (Update (Profile (mk_profile 21 11 None)) (Profile (mk_profile 21 11 (Some 1)))),
      Statement (Authenticated 10) 100
        (Update (Profile (mk_profile 22 12 None)) (Profile (mk_profile 22 12 (Some 1)))),
      Statement (Authenticated 11) 100 (Insert (Voiture (mk_voiture 40 (Some 1)))),
      Statement (Authenticated 10) 100 (Insert (Voiture (mk_voiture 41 (Some 2)))),
      Statement (Authenticated 11) 100 (Insert (Client (mk_client 50 (Some 1)))),
      Statement (Authenticated 10) 100 (Insert (Client (mk_client 51 (Some 2)))),
      Statement (Authenticated 12) 100 (Insert (Vente (mk_vente 60 40 50 22 (Some 1))))]"

text \<open>
  The sale of the example database; events that try to remove it; a new identity with a
  name in its metadata, and the database once it is created; the example database with a
  sale of garage 1 on a vehicle of garage 2; the example database once garage 1 is deleted;
  the history of the example database followed by the admin deleting a profile.
\<close>

definition sale_60 :: vente where
  "sale_60 = mk_vente 60 40 50 22 (Some 1)"

definition later_events :: "event list" where
  "later_events =
     [Statement (Authenticated 10) 300 (Delete (Vente sale_60)),
      Statement (Authenticated 12) 300 (Delete (Vente sale_60)),
      Statement (Authenticated 10) 300 (Delete (Voiture (mk_voiture 40 (Some 1)))),
      Statement (Authenticated 10) 300 (Delete (Profile (mk_profile 22 12 (Some 1)))),
      Delete_user 12,
      Statement (Authenticated 10) 300 (Delete (Garage garage_b))]"

definition lea :: auth_user where
  "lea = \<lparr>u_id = 15, u_email = Some ''lea@example.org'',
          u_raw_user_meta_data = [(''nom'', ''Durand'')]\<rparr>"

definition lea_db :: database where
  "lea_db = demo_db\<lparr>users := users demo_db @ [lea],
        profiles := profiles demo_db @
          [\<lparr>p_id = Some 24, p_user_id = Some 15, p_nom = Some ''Durand'',
            p_prenom = Some ''Utilisateur'', p_email = Some ''lea@example.org'',
            p_telephone = None, p_garage_id = None, p_created_at = Some 400,
            p_updated_at = Some 400\<rparr>],
        user_roles := user_roles demo_db @ [mk_role 36 15 employe\<lparr>r_created_at := Some 400\<rparr>]\<rparr>"

definition cross_db :: database where
  "cross_db = demo_db\<lparr>ventes := ventes demo_db @ [mk_vente 61 41 50 22 (Some 1)]\<rparr>"

definition without_garage_a :: database where
  "without_garage_a =
     demo_db\<lparr>garages := [garage_b],
       profiles := [(mk_profile 20 10 None)\<lparr>p_updated_at := Some 300\<rparr>,
                    (mk_profile 21 11 None)\<lparr>p_updated_at := Some 300\<rparr>,
                    (mk_profile 22 12 None)\<lparr>p_updated_at := Some 300\<rparr>,
                    mk_profile 23 13 None],
       voitures := [mk_voiture 41 (Some 2)],
       clients := [mk_client 51 (Some 2)],
       ventes := []\<rparr>"

definition orphan_history :: "event list" where
  "orphan_history =
     demo_history @ [Statement (Authenticated 10) 300 (Delete (Profile (mk_profile 23 13 None)))]"

text \<open>
  The history of the example database followed by the employee 12, of garage 1, recording
  a sale of garage 1 on the vehicle 41 of garage 2.
\<close>

definition cross_history :: "event list" where
  "cross_history =
     demo_history @
     [Statement (Authenticated 12) 300 (Insert (Vente (mk_vente 61 41 50 22 (Some 1))))]"

section \<open>Three-valued logic and what each table's policies amount to\<close>

lemma sql_true_or [simp]: "sql_true (sql_or a b) \<longleftrightarrow> sql_true a \<or> sql_true b"
  by (cases "(a, b)" rule: sql_or.cases) (simp_all add: sql_true_def)

lemma sql_true_and [simp]: "sql_true (sql_and a b) \<longleftrightarrow> sql_true a \<and> sql_true b"
  by (cases "(a, b)" rule: sql_and.cases) (simp_all add: sql_true_def)

lemma sql_true_Some [simp]: "sql_true (Some b) \<longleftrightarrow> b"
  by (simp add: sql_true_def)

lemma sql_true_None [simp]: "\<not> sql_true None"
  by (simp add: sql_true_def)

lemma sql_is_iff: "sql_is a b \<longleftrightarrow> (\<exists>x. a = Some x \<and> b = Some x)"
  by (auto simp: sql_is_def sql_eq_def split: option.splits)

lemma sql_true_eq [simp]: "sql_true (sql_eq a b) \<longleftrightarrow> sql_is a b"
  by (simp add: sql_is_def)

lemma update_garages_updated_at_eq:
  "update_garages_updated_at now new = new\<lparr>g_updated_at := Some now\<rparr>"
  by (simp add: update_garages_updated_at_def update_updated_at_column_def)

lemma update_profiles_updated_at_eq:
  "update_profiles_updated_at now new = new\<lparr>p_updated_at := Some now\<rparr>"
  by (simp add: update_profiles_updated_at_def update_updated_at_column_def)

lemma update_voitures_updated_at_eq:
  "update_voitures_updated_at now new = new\<lparr>v_updated_at := Some now\<rparr>"
  by (simp add: update_voitures_updated_at_def update_updated_at_column_def)

lemma update_clients_updated_at_eq:
  "update_clients_updated_at now new = new\<lparr>c_updated_at := Some now\<rparr>"
  by (simp add: update_clients_updated_at_def update_updated_at_column_def)

lemmas rls_defs =
  rls_using_def rls_check_def policies_for_def check_expr_def List.map_filter_def

lemma garages_using: "rls_using garages_policies c db uid g \<longleftrightarrow>
    has_role db uid admin \<or> (c = FOR_SELECT \<and> sql_is (g_id g) (get_user_garage db uid))"
  by (cases c) (auto simp add: rls_defs garages_policies_def)

lemma garages_check: "rls_check garages_policies c db uid g \<longleftrightarrow>
    has_role db uid admin \<or> (c = FOR_SELECT \<and> sql_is (g_id g) (get_user_garage db uid))"
  by (cases c) (auto simp add: rls_defs garages_policies_def)

lemma profiles_using: "rls_using profiles_policies c db uid p \<longleftrightarrow>
    has_role db uid admin \<or> ((c = FOR_SELECT \<or> c = FOR_UPDATE) \<and> sql_is (p_user_id p) (Some uid))"
  by (cases c) (auto simp add: rls_defs profiles_policies_def)

lemma profiles_check: "rls_check profiles_policies c db uid p \<longleftrightarrow>
    has_role db uid admin \<or> ((c = FOR_SELECT \<or> c = FOR_UPDATE) \<and> sql_is (p_user_id p) (Some uid))"
  by (cases c) (auto simp add: rls_defs profiles_policies_def)

lemma user_roles_using: "rls_using user_roles_policies c db uid r \<longleftrightarrow>
    has_role db uid admin \<or> (c = FOR_SELECT \<and> sql_is (r_user_id r) (Some uid))"
  by (cases c) (auto simp add: rls_defs user_roles_policies_def)

lemma user_roles_check: "rls_check user_roles_policies c db uid r \<longleftrightarrow>
    has_role db uid admin \<or> (c = FOR_SELECT \<and> sql_is (r_user_id r) (Some uid))"
  by (cases c) (auto simp add: rls_defs user_roles_policies_def)

lemma voitures_using: "rls_using voitures_policies c db uid v \<longleftrightarrow>
    has_role db uid admin
    \<or> (sql_is (v_garage_id v) (get_user_garage db uid) \<and> (c = FOR_SELECT \<or> has_role db uid responsable))"
  by (cases c) (auto simp add: rls_defs voitures_policies_def)

lemma voitures_check: "rls_check voitures_policies c db uid v \<longleftrightarrow>
    has_role db uid admin
    \<or> (sql_is (v_garage_id v) (get_user_garage db uid) \<and> (c = FOR_SELECT \<or> has_role db uid responsable))"
  by (cases c) (auto simp add: rls_defs voitures_policies_def)

lemma clients_using: "rls_using clients_policies c db uid k \<longleftrightarrow>
    has_role db uid admin
    \<or> (sql_is (c_garage_id k) (get_user_garage db uid) \<and> (c = FOR_SELECT \<or> has_role db uid responsable))"
  by (cases c) (auto simp add: rls_defs clients_policies_def)

lemma clients_check: "rls_check clients_policies c db uid k \<longleftrightarrow>
    has_role db uid admin
    \<or> (sql_is (c_garage_id k) (get_user_garage db uid) \<and> (c = FOR_SELECT \<or> has_role db uid responsable))"
  by (cases c) (auto simp add: rls_defs clients_policies_def)

lemma ventes_using: "rls_using ventes_policies c db uid s \<longleftrightarrow>
    (c = FOR_SELECT \<and> (has_role db uid admin \<or> sql_is (s_garage_id s) (get_user_garage db uid)))
    \<or> (c = FOR_UPDATE \<and> (has_role db uid admin
          \<or> (sql_is (s_garage_id s) (get_user_garage db uid) \<and> has_role db uid responsable)))"
  by (cases c) (auto simp add: rls_defs ventes_policies_def)

lemma ventes_check: "rls_check ventes_policies c db uid s \<longleftrightarrow>
    (c = FOR_SELECT \<and> (has_role db uid admin \<or> sql_is (s_garage_id s) (get_user_garage db uid)))
    \<or> (c = FOR_INSERT \<and> sql_is (s_garage_id s) (get_user_garage db uid))
    \<or> (c = FOR_UPDATE \<and> (has_role db uid admin
          \<or> (sql_is (s_garage_id s) (get_user_garage db uid) \<and> has_role db uid responsable)))"
  by (cases c) (auto simp add: rls_defs ventes_policies_def)

lemmas rls_iff = garages_using garages_check profiles_using profiles_check user_roles_using user_roles_check
  voitures_using voitures_check clients_using clients_check ventes_using ventes_check

text \<open>
  A statement that reads the rows it writes (a WHERE clause) needs the SELECT policies to
  pass on them as well.  With these policies that adds nothing: what may be updated or
  deleted may be read, and so may the row an update is allowed to store.
\<close>

lemma select_is_implied:
  "row_using db uid FOR_UPDATE r \<Longrightarrow> row_using db uid FOR_SELECT r"
  "row_using db uid FOR_DELETE r \<Longrightarrow> row_using db uid FOR_SELECT r"
  "row_check db uid FOR_UPDATE r \<Longrightarrow> row_using db uid FOR_SELECT r"
  by (cases r; auto simp add: rls_iff)+

lemma get_user_garage_None:
  "list_all (\<lambda>p. sql_is (p_user_id p) (Some uid) \<longrightarrow> p_garage_id p = None) (profiles db)
   \<Longrightarrow> get_user_garage db uid = None"
  unfolding get_user_garage_def
  by (induction "profiles db" arbitrary: db) (auto simp: list_all_iff split: list.splits dest!: filter_eq_ConsD)

section \<open>The example database\<close>

lemma demo_get_user_garage:
  "get_user_garage demo_db 10 = Some 1" "get_user_garage demo_db 11 = Some 1"
  "get_user_garage demo_db 12 = Some 1" "get_user_garage demo_db 13 = None"
  "get_user_garage demo_db 14 = None"
  by (simp_all add: get_user_garage_def demo_db_def mk_profile_def sql_is_iff)

lemma demo_has_role:
  "has_role demo_db 10 r \<longleftrightarrow> r = employe \<or> r = admin"
  "has_role demo_db 11 r \<longleftrightarrow> r = employe \<or> r = responsable"
  "has_role demo_db 12 r \<longleftrightarrow> r = employe"
  "has_role demo_db 13 r \<longleftrightarrow> r = employe"
  "\<not> has_role demo_db 14 r"
  by (auto simp add: has_role_def demo_db_def mk_role_def sql_is_iff)

lemma demo_history_run: "run empty_database demo_history = demo_db"
  by code_simp

lemma demo_profiles_13:
  "list_all (\<lambda>p. sql_is (p_user_id p) (Some 13) \<longrightarrow> p_garage_id p = None) (profiles demo_db)"
  by (simp add: demo_db_def mk_profile_def sql_is_iff)

lemma demo_profiles_14:
  "list_all (\<lambda>p. sql_is (p_user_id p) (Some 14) \<longrightarrow> p_garage_id p = None) (profiles demo_db)"
  by (simp add: demo_db_def mk_profile_def sql_is_iff)

section \<open>The authorization decision: who may do what\<close>

text \<open>
  Claim C1, as the policies have it.  An identity with the admin role is permitted every
  select on every table and every update that turns a row into a row of the same table;
  it is permitted every insert and every delete on garages, profiles, role assignments,
  vehicles and clients, whatever its own garage.  On sales its role adds nothing to the
  insert rule, which asks that the row's garage be the garage of the caller's own profile,
  and no policy lets anybody delete a sale.
\<close>

theorem admin_permitted:
  assumes "has_role db uid admin"
  shows "permitted db uid (Select r)
    \<and> (\<not> is_Vente r \<longrightarrow> permitted db uid (Insert r) \<and> permitted db uid (Delete r))
    \<and> (same_table r r' \<longrightarrow> permitted db uid (Update r r'))
    \<and> (is_Vente r \<longrightarrow>
         (permitted db uid (Insert r) \<longleftrightarrow> sql_is (row_garage r) (get_user_garage db uid))
         \<and> \<not> permitted db uid (Delete r))"
  using assms by (cases r; cases r') (simp_all add: rls_iff)

theorem admin_permitted_witness:
  "has_role demo_db 10 admin
   \<and> permitted demo_db 10 (Select (Vente (mk_vente 61 41 51 20 (Some 2))))
   \<and> permitted demo_db 10 (Insert (Voiture (mk_voiture 42 (Some 2))))
   \<and> permitted demo_db 10 (Delete (Client (mk_client 51 (Some 2))))
   \<and> permitted demo_db 10 (Update (Garage garage_b) (Garage garage_a))
   \<and> permitted demo_db 10 (Insert (Vente (mk_vente 61 40 50 20 (Some 1))))"
  using admin_permitted [of demo_db 10 "Vente (mk_vente 61 41 51 20 (Some 2))"]
    admin_permitted [of demo_db 10 "Voiture (mk_voiture 42 (Some 2))"]
    admin_permitted [of demo_db 10 "Client (mk_client 51 (Some 2))"]
    admin_permitted [of demo_db 10 "Garage garage_b" "Garage garage_a"]
    admin_permitted [of demo_db 10 "Vente (mk_vente 61 40 50 20 (Some 1))"]
  by (simp add: demo_has_role demo_get_user_garage mk_vente_def sql_is_iff)

text \<open>
  The claim C1 as it is written fails: the admin 10, of garage 1, may neither insert a sale
  of garage 2 nor delete a sale.
\<close>

theorem admin_sale_counterexample:
  "has_role demo_db 10 admin
   \<and> \<not> permitted demo_db 10 (Insert (Vente (mk_vente 61 41 51 20 (Some 2))))
   \<and> \<not> permitted demo_db 10 (Delete (Vente (mk_vente 60 40 50 22 (Some 1))))"
  by (simp add: rls_iff demo_has_role demo_get_user_garage mk_vente_def sql_is_iff)

text \<open>
  Claim C2.  A sale insert is permitted if and only if the row's \<^verbatim>\<open>garage_id\<close> is the
  garage of the caller's own profile.  It is refused to a caller whose profile has no
  garage (or who has no profile), and to an admin who gives a garage other than its own;
  the statement of a refused caller ends with the row-level security error.
\<close>

theorem sale_insert:
  "(permitted db uid (Insert (Vente s)) \<longleftrightarrow>
      (\<exists>g. s_garage_id s = Some g \<and> get_user_garage db uid = Some g))
   \<and> (get_user_garage db uid = None \<longrightarrow> \<not> permitted db uid (Insert (Vente s)))
   \<and> (has_role db uid admin \<and> s_garage_id s \<noteq> get_user_garage db uid \<longrightarrow>
        \<not> permitted db uid (Insert (Vente s)))
   \<and> (\<not> permitted db uid (Insert (Vente s)) \<longrightarrow>
        exec db (Authenticated uid) now (Insert (Vente s)) = Inl Rls_violation)"
  by (auto simp add: rls_iff sql_is_iff insert_vente_def)

theorem sale_insert_witness:
  "permitted demo_db 12 (Insert (Vente (mk_vente 61 40 50 22 (Some 1))))
   \<and> \<not> permitted demo_db 12 (Insert (Vente (mk_vente 61 41 51 22 (Some 2))))
   \<and> \<not> permitted demo_db 13 (Insert (Vente (mk_vente 61 40 50 23 (Some 1))))
   \<and> \<not> permitted demo_db 10 (Insert (Vente (mk_vente 61 41 51 20 (Some 2))))
   \<and> exec demo_db (Authenticated 10) 200 (Insert (Vente (mk_vente 61 41 51 20 (Some 2))))
       = Inl Rls_violation"
  using sale_insert [of demo_db 12 "mk_vente 61 40 50 22 (Some 1)"]
    sale_insert [of demo_db 12 "mk_vente 61 41 51 22 (Some 2)"]
    sale_insert [of demo_db 13 "mk_vente 61 40 50 23 (Some 1)"]
    sale_insert [of demo_db 10 "mk_vente 61 41 51 20 (Some 2)" 200]
  by (simp add: demo_has_role demo_get_user_garage mk_vente_def)





text \<open>
  Claim C8.  A caller without the admin role, none of whose profiles has a garage (it has
  no profile, or its profile's \<^verbatim>\<open>garage_id\<close> is NULL): its garage resolves to NULL, every
  select, insert, update and delete on a vehicle, client or sale is refused, and so is the
  select of any garage.
\<close>

theorem unassigned_denied:
  "\<not> has_role db uid admin
   \<and> list_all (\<lambda>p. sql_is (p_user_id p) (Some uid) \<longrightarrow> p_garage_id p = None) (profiles db)
   \<longrightarrow> get_user_garage db uid = None
     \<and> (garage_scoped r \<longrightarrow>
          \<not> permitted db uid (Select r) \<and> \<not> permitted db uid (Insert r)
          \<and> \<not> permitted db uid (Update r r') \<and> \<not> permitted db uid (Update r' r)
          \<and> \<not> permitted db uid (Delete r))
     \<and> (is_Garage r \<longrightarrow> \<not> permitted db uid (Select r))"
proof (intro impI, elim conjE)
  assume na: "\<not> has_role db uid admin"
    and "list_all (\<lambda>p. sql_is (p_user_id p) (Some uid) \<longrightarrow> p_garage_id p = None) (profiles db)"
  then have g: "get_user_garage db uid = None"
    by (rule_tac get_user_garage_None)
  show "get_user_garage db uid = None
     \<and> (garage_scoped r \<longrightarrow>
          \<not> permitted db uid (Select r) \<and> \<not> permitted db uid (Insert r)
          \<and> \<not> permitted db uid (Update r r') \<and> \<not> permitted db uid (Update r' r)
          \<and> \<not> permitted db uid (Delete r))
     \<and> (is_Garage r \<longrightarrow> \<not> permitted db uid (Select r))"
    using na g by (cases r; cases r') (simp_all add: rls_iff sql_is_iff)
qed

theorem unassigned_denied_witness:
  "\<not> has_role demo_db 13 admin \<and> get_user_garage demo_db 13 = None
   \<and> \<not> permitted demo_db 13 (Select (Voiture (mk_voiture 40 (Some 1))))
   \<and> \<not> permitted demo_db 13 (Insert (Vente (mk_vente 61 40 50 23 (Some 1))))
   \<and> \<not> permitted demo_db 13 (Update (Client (mk_client 50 (Some 1))) (Client (mk_client 50 (Some 1))))
   \<and> \<not> permitted demo_db 13 (Delete (Vente (mk_vente 60 40 50 22 (Some 1))))
   \<and> \<not> permitted demo_db 13 (Select (Garage garage_a))
   \<and> \<not> has_role demo_db 14 admin \<and> get_user_garage demo_db 14 = None
   \<and> \<not> permitted demo_db 14 (Select (Vente (mk_vente 60 40 50 22 (Some 1))))
   \<and> \<not> permitted demo_db 14 (Select (Garage garage_b))"
  using unassigned_denied [of demo_db 13 "Voiture (mk_voiture 40 (Some 1))" "Voiture (mk_voiture 40 (Some 1))"]
    unassigned_denied [of demo_db 13 "Vente (mk_vente 61 40 50 23 (Some 1))" "Vente (mk_vente 61 40 50 23 (Some 1))"]
    unassigned_denied [of demo_db 13 "Client (mk_client 50 (Some 1))" "Client (mk_client 50 (Some 1))"]
    unassigned_denied [of demo_db 13 "Vente (mk_vente 60 40 50 22 (Some 1))" "Vente (mk_vente 60 40 50 22 (Some 1))"]
    unassigned_denied [of demo_db 13 "Garage garage_a" "Garage garage_a"]
    unassigned_denied [of demo_db 14 "Vente (mk_vente 60 40 50 22 (Some 1))" "Vente (mk_vente 60 40 50 22 (Some 1))"]
    unassigned_denied [of demo_db 14 "Garage garage_b" "Garage garage_b"]
  by (simp add: demo_has_role demo_profiles_13 demo_profiles_14)

section \<open>Lists\<close>

lemma replace_same [simp]: "replace x x xs = xs"
  by (simp add: replace_def)

lemma replace_absent: "old \<notin> set xs \<Longrightarrow> replace old new xs = xs"
  by (induction xs) (auto simp: replace_def)

lemma length_replace [simp]: "length (replace old new xs) = length xs"
  by (simp add: replace_def)

lemma set_replace: "old \<in> set xs \<Longrightarrow> set (replace old new xs) = insert new (set (removeAll old xs))"
  by (induction xs) (auto simp: replace_def)

lemma set_replace_subset: "set (replace old new xs) \<subseteq> insert new (set (removeAll old xs))"
  by (induction xs) (auto simp: replace_def)

lemma distinct_map_replace:
  "distinct (map f xs) \<Longrightarrow> list_all (\<lambda>y. f y \<noteq> f new) (removeAll old xs)
   \<Longrightarrow> distinct (map f (replace old new xs))"
proof (induction xs)
  case Nil
  then show ?case by (simp add: replace_def)
next
  case (Cons x xs)
  show ?case
  proof (cases "x = old")
    case True
    with Cons.prems have "old \<notin> set xs" by auto
    then have "replace old new xs = xs" "removeAll old xs = xs"
      by (simp_all add: replace_absent)
    with Cons.prems True show ?thesis
      by (auto simp: replace_def list_all_iff)
  next
    case False
    with Cons.prems have d: "distinct (map f (replace old new xs))"
      by (intro Cons.IH) auto
    have "f x \<notin> f ` set (replace old new xs)"
      using set_replace_subset [of old new xs] Cons.prems False
      by (auto simp: list_all_iff)
    with d False show ?thesis by (auto simp add: replace_def)
  qed
qed

lemma in_set_replace: "x \<in> set xs \<Longrightarrow> x \<noteq> old \<Longrightarrow> x \<in> set (replace old new xs)"
  by (induction xs) (auto simp: replace_def)

lemma new_in_set_replace: "old \<in> set xs \<Longrightarrow> new \<in> set (replace old new xs)"
  by (induction xs) (auto simp: replace_def)

lemma in_replaceD: "x \<in> set (replace old new xs) \<Longrightarrow> x = new \<or> x \<in> set xs"
  by (induction xs) (auto simp: replace_def split: if_splits)

lemma notin_imageD: "a \<notin> f ` A \<Longrightarrow> y \<in> A \<Longrightarrow> f y \<noteq> a"
  by blast

lemma length_filter_distinct:
  "distinct (map f xs) \<Longrightarrow> length (filter (\<lambda>x. f x = k) xs) \<le> 1"
proof (induction xs)
  case Nil
  then show ?case by simp
next
  case (Cons x xs)
  show ?case
  proof (cases "f x = k")
    case True
    from Cons.prems have "f x \<notin> f ` set xs" by simp
    with True have "\<forall>y\<in>set xs. f y \<noteq> k"
      by (blast dest: notin_imageD)
    then have "filter (\<lambda>x. f x = k) xs = []"
      by (simp add: filter_empty_conv)
    with True show ?thesis by simp
  next
    case False
    with Cons show ?thesis by simp
  qed
qed

lemma filter_replace_unique:
  "distinct (map f xs) \<Longrightarrow> old \<in> set xs \<Longrightarrow> f old = k \<Longrightarrow> f new = k
   \<Longrightarrow> filter (\<lambda>x. f x = k) (replace old new xs) = [new]"
proof (induction xs)
  case Nil
  then show ?case by simp
next
  case (Cons x xs)
  show ?case
  proof (cases "x = old")
    case True
    with Cons.prems have "f old \<notin> f ` set xs"
      by simp
    with Cons.prems(3) have "old \<notin> set xs" "\<forall>y\<in>set xs. f y \<noteq> k"
      by (auto simp: image_iff)
    then have "replace old new xs = xs" "filter (\<lambda>x. f x = k) xs = []"
      by (simp_all add: replace_absent filter_empty_conv)
    with True Cons.prems(4) show ?thesis
      by (simp add: replace_def)
  next
    case False
    with Cons.prems have "old \<in> set xs" "f x \<noteq> k"
      by auto
    with Cons False show ?thesis
      by (simp add: replace_def)
  qed
qed

section \<open>What a successful statement stores\<close>

lemma insert_garage_Inr:
  "insert_garage db c g = Inr db' \<Longrightarrow>
     db' = db\<lparr>garages := garages db @ [g]\<rparr> \<and> garages_not_null g"
  by (simp add: insert_garage_def split: if_splits)

lemma insert_profile_Inr:
  "insert_profile db c p = Inr db' \<Longrightarrow>
     db' = db\<lparr>profiles := profiles db @ [p]\<rparr> \<and> profiles_not_null p
     \<and> profiles_unique (profiles db) p \<and> profiles_fk db p"
  by (simp add: insert_profile_def split: if_splits)

lemma insert_user_role_Inr:
  "insert_user_role db c r = Inr db' \<Longrightarrow>
     db' = db\<lparr>user_roles := user_roles db @ [r]\<rparr> \<and> user_roles_not_null r
     \<and> user_roles_unique (user_roles db) r \<and> user_roles_fk db r"
  by (simp add: insert_user_role_def split: if_splits)

lemma insert_voiture_Inr:
  "insert_voiture db c v = Inr db' \<Longrightarrow>
     db' = db\<lparr>voitures := voitures db @ [v]\<rparr> \<and> voitures_not_null v \<and> voitures_fk db v"
  by (simp add: insert_voiture_def split: if_splits)

lemma insert_client_Inr:
  "insert_client db c k = Inr db' \<Longrightarrow>
     db' = db\<lparr>clients := clients db @ [k]\<rparr> \<and> clients_not_null k \<and> clients_fk db k"
  by (simp add: insert_client_def split: if_splits)

lemma insert_vente_Inr:
  "insert_vente db c s = Inr db' \<Longrightarrow>
     db' = db\<lparr>ventes := ventes db @ [s]\<rparr> \<and> ventes_not_null s \<and> ventes_fk db s"
  by (simp add: insert_vente_def split: if_splits)

lemma update_garage_Inr:
  "update_garage db c now old new = Inr db' \<Longrightarrow>
     db' = db \<or>
     (old \<in> set (garages db)
      \<and> db' = db\<lparr>garages := replace old (update_garages_updated_at now new) (garages db)\<rparr>
      \<and> garages_not_null (update_garages_updated_at now new)
      \<and> (sql_is (g_id new) (g_id old) \<or> \<not> garage_referenced db (g_id old)))"
  by (auto simp add: update_garage_def Let_def update_garages_updated_at_eq split: if_splits)

lemma update_profile_Inr:
  "update_profile db c now old new = Inr db' \<Longrightarrow>
     db' = db \<or>
     (old \<in> set (profiles db)
      \<and> db' = db\<lparr>profiles := replace old (update_profiles_updated_at now new) (profiles db)\<rparr>
      \<and> profiles_not_null (update_profiles_updated_at now new)
      \<and> profiles_unique (removeAll old (profiles db)) (update_profiles_updated_at now new)
      \<and> profiles_fk db (update_profiles_updated_at now new))"
  by (auto simp add: update_profile_def Let_def split: if_splits)

lemma update_user_role_Inr:
  "update_user_role db c now old new = Inr db' \<Longrightarrow>
     db' = db \<or>
     (db' = db\<lparr>user_roles := replace old new (user_roles db)\<rparr>
      \<and> user_roles_not_null new \<and> user_roles_fk db new)"
  by (auto simp add: update_user_role_def split: if_splits)

lemma update_voiture_Inr:
  "update_voiture db c now old new = Inr db' \<Longrightarrow>
     db' = db \<or>
     (old \<in> set (voitures db)
      \<and> db' = db\<lparr>voitures := replace old (update_voitures_updated_at now new) (voitures db)\<rparr>
      \<and> voitures_not_null (update_voitures_updated_at now new)
      \<and> voitures_fk db (update_voitures_updated_at now new))"
  by (auto simp add: update_voiture_def Let_def split: if_splits)

lemma update_client_Inr:
  "update_client db c now old new = Inr db' \<Longrightarrow>
     db' = db \<or>
     (old \<in> set (clients db)
      \<and> db' = db\<lparr>clients := replace old (update_clients_updated_at now new) (clients db)\<rparr>
      \<and> clients_not_null (update_clients_updated_at now new)
      \<and> clients_fk db (update_clients_updated_at now new))"
  by (auto simp add: update_client_def Let_def split: if_splits)

lemma update_vente_Inr:
  "update_vente db c now old new = Inr db' \<Longrightarrow>
     db' = db \<or>
     (old \<in> set (ventes db) \<and> db' = db\<lparr>ventes := replace old new (ventes db)\<rparr>
      \<and> ventes_not_null new \<and> ventes_fk db new)"
  by (auto simp add: update_vente_def split: if_splits)

lemma delete_garage_Inr:
  "delete_garage db c now g = Inr db' \<Longrightarrow>
     db' = db \<or>
     (g \<in> set (garages db) \<and>
      db' = db\<lparr>garages := removeAll g (garages db),
               profiles := map (\<lambda>p. if sql_is (p_garage_id p) (g_id g)
                         then update_profiles_updated_at now (p\<lparr>p_garage_id := None\<rparr>)
                         else p) (profiles db),
               voitures := filter (\<lambda>v. \<not> sql_is (v_garage_id v) (g_id g)) (voitures db),
               clients := filter (\<lambda>k. \<not> sql_is (c_garage_id k) (g_id g)) (clients db),
               ventes := filter (\<lambda>s. \<not> sql_is (s_garage_id s) (g_id g)) (ventes db)\<rparr>)"
  by (auto simp add: delete_garage_def Let_def split: if_splits)

lemma delete_profile_Inr:
  "delete_profile db c p = Inr db' \<Longrightarrow>
     db' = db \<or> db' = db\<lparr>profiles := removeAll p (profiles db)\<rparr>"
  by (auto simp add: delete_profile_def split: if_splits)

lemma delete_user_role_Inr:
  "delete_user_role db c r = Inr db' \<Longrightarrow>
     db' = db \<or> db' = db\<lparr>user_roles := removeAll r (user_roles db)\<rparr>"
  by (auto simp add: delete_user_role_def split: if_splits)

lemma delete_voiture_Inr:
  "delete_voiture db c v = Inr db' \<Longrightarrow>
     db' = db \<or> db' = db\<lparr>voitures := removeAll v (voitures db)\<rparr>"
  by (auto simp add: delete_voiture_def split: if_splits)

lemma delete_client_Inr:
  "delete_client db c k = Inr db' \<Longrightarrow>
     db' = db \<or> db' = db\<lparr>clients := removeAll k (clients db)\<rparr>"
  by (auto simp add: delete_client_def split: if_splits)

lemma delete_vente_Inr:
  "delete_vente db c s = Inr db' \<Longrightarrow>
     db' = db \<or> (caller_using db c FOR_DELETE (Vente s) \<and> db' = db\<lparr>ventes := removeAll s (ventes db)\<rparr>)"
  by (auto simp add: delete_vente_def split: if_splits)

lemma create_user_Inr:
  "create_user db now new pid rid = Inr db' \<Longrightarrow>
     u_id new \<notin> set (map u_id (users db))
     \<and> db' = db\<lparr>users := users db @ [new],
                profiles := profiles db @ [new_user_profile now new pid],
                user_roles := user_roles db @ [new_user_role now new rid]\<rparr>
     \<and> profiles_not_null (new_user_profile now new pid)
     \<and> profiles_unique (profiles db) (new_user_profile now new pid)
     \<and> user_roles_unique (user_roles db) (new_user_role now new rid)"
  by (auto simp add: create_user_def handle_new_user_def insert_profile_def insert_user_role_def
      split: if_splits sum.splits)

lemma delete_user_Inr:
  "delete_user db uid = Inr db' \<Longrightarrow>
     db' = db \<or>
     db' = db\<lparr>users := filter (\<lambda>u. u_id u \<noteq> uid) (users db),
              profiles := filter (\<lambda>p. \<not> sql_is (p_user_id p) (Some uid)) (profiles db),
              user_roles := filter (\<lambda>r. \<not> sql_is (r_user_id r) (Some uid)) (user_roles db)\<rparr>"
  by (auto simp add: delete_user_def split: if_splits)

lemmas exec_Inr =
  insert_garage_Inr insert_profile_Inr insert_user_role_Inr insert_voiture_Inr
  insert_client_Inr insert_vente_Inr update_garage_Inr update_profile_Inr
  update_user_role_Inr update_voiture_Inr update_client_Inr update_vente_Inr
  delete_garage_Inr delete_profile_Inr delete_user_role_Inr delete_voiture_Inr
  delete_client_Inr delete_vente_Inr

lemma run_invariant:
  assumes "P db" and "\<And>db e db'. P db \<Longrightarrow> step db e = Inr db' \<Longrightarrow> P db'"
  shows "P (run db es)"
  using assms(1)
proof (induction es arbitrary: db)
  case Nil
  then show ?case by simp
next
  case (Cons e es)
  show ?case
  proof (cases "step db e")
    case (Inl err)
    with Cons show ?thesis by simp
  next
    case (Inr db')
    with Cons.prems have "P db'" by (rule_tac assms(2))
    with Cons.IH Inr show ?thesis by simp
  qed
qed

section \<open>The constraints on profiles hold in every state\<close>

lemma profiles_wf_append:
  "profiles_wf db \<Longrightarrow> profiles_not_null p \<Longrightarrow> profiles_unique (profiles db) p
   \<Longrightarrow> profiles_wf (db\<lparr>profiles := profiles db @ [p]\<rparr>)"
  by (auto simp: profiles_wf_def profiles_unique_def profiles_not_null_def list_all_iff sql_is_iff)

lemma profiles_unique_distinct:
  assumes "profiles_not_null p" "profiles_unique others p"
  shows "list_all (\<lambda>y. p_id y \<noteq> p_id p) others" "list_all (\<lambda>y. p_user_id y \<noteq> p_user_id p) others"
proof -
  obtain i u where "p_id p = Some i" "p_user_id p = Some u"
    using assms(1) by (auto simp: profiles_not_null_def)
  with assms(2) show "list_all (\<lambda>y. p_id y \<noteq> p_id p) others"
    "list_all (\<lambda>y. p_user_id y \<noteq> p_user_id p) others"
    by (simp_all add: profiles_unique_def list_all_iff sql_is_iff)
qed

lemma profiles_wf_replace:
  assumes "profiles_wf db" "profiles_not_null p" "profiles_unique (removeAll old (profiles db)) p"
  shows "profiles_wf (db\<lparr>profiles := replace old p (profiles db)\<rparr>)"
proof -
  have nn: "list_all profiles_not_null (replace old p (profiles db))"
    using assms(1,2) set_replace_subset [of old p "profiles db"]
    by (auto simp: profiles_wf_def list_all_iff)
  from assms(1) profiles_unique_distinct [OF assms(2,3)] nn show ?thesis
    by (simp add: profiles_wf_def distinct_map_replace)
qed

lemma profiles_wf_filter:
  "profiles_wf db \<Longrightarrow> profiles_wf (db\<lparr>profiles := filter P (profiles db)\<rparr>)"
  by (auto simp: profiles_wf_def list_all_iff distinct_map_filter)

lemma profiles_wf_removeAll:
  "profiles_wf db \<Longrightarrow> profiles_wf (db\<lparr>profiles := removeAll p (profiles db)\<rparr>)"
  by (simp add: removeAll_filter_not_eq profiles_wf_filter)

lemma unassign_keys:
  "p_id (if sql_is (p_garage_id p) gid
         then update_profiles_updated_at now (p\<lparr>p_garage_id := None\<rparr>) else p) = p_id p"
  "p_user_id (if sql_is (p_garage_id p) gid
         then update_profiles_updated_at now (p\<lparr>p_garage_id := None\<rparr>) else p) = p_user_id p"
  "profiles_not_null (if sql_is (p_garage_id p) gid
         then update_profiles_updated_at now (p\<lparr>p_garage_id := None\<rparr>) else p)
   \<longleftrightarrow> profiles_not_null p \<or> (sql_is (p_garage_id p) gid \<and> profiles_not_null (p\<lparr>p_updated_at := Some now\<rparr>))"
  by (auto simp: update_profiles_updated_at_eq profiles_not_null_def)

lemma profiles_wf_unassign:
  "profiles_wf db \<Longrightarrow>
   profiles_wf (db\<lparr>profiles := map (\<lambda>p. if sql_is (p_garage_id p) gid
                         then update_profiles_updated_at now (p\<lparr>p_garage_id := None\<rparr>)
                         else p) (profiles db)\<rparr>)"
proof -
  let ?f = "\<lambda>p. if sql_is (p_garage_id p) gid
                         then update_profiles_updated_at now (p\<lparr>p_garage_id := None\<rparr>)
                         else p"
  assume wf: "profiles_wf db"
  have "list_all profiles_not_null (map ?f (profiles db))"
    using wf by (auto simp: profiles_wf_def list_all_iff update_profiles_updated_at_eq profiles_not_null_def)
  with wf show ?thesis
    by (simp add: profiles_wf_def comp_def unassign_keys(1,2))
qed

lemma insert_profiles_wf:
  "profiles_wf db \<Longrightarrow> insert_garage db c g = Inr db' \<Longrightarrow> profiles_wf db'"
  "profiles_wf db \<Longrightarrow> insert_profile db c p = Inr db' \<Longrightarrow> profiles_wf db'"
  "profiles_wf db \<Longrightarrow> insert_user_role db c r = Inr db' \<Longrightarrow> profiles_wf db'"
  "profiles_wf db \<Longrightarrow> insert_voiture db c v = Inr db' \<Longrightarrow> profiles_wf db'"
  "profiles_wf db \<Longrightarrow> insert_client db c k = Inr db' \<Longrightarrow> profiles_wf db'"
  "profiles_wf db \<Longrightarrow> insert_vente db c s = Inr db' \<Longrightarrow> profiles_wf db'"
       apply (drule insert_garage_Inr, simp add: profiles_wf_def)
      apply (drule insert_profile_Inr, simp add: profiles_wf_append)
     apply (drule insert_user_role_Inr, simp add: profiles_wf_def)
    apply (drule insert_voiture_Inr, simp add: profiles_wf_def)
   apply (drule insert_client_Inr, simp add: profiles_wf_def)
  apply (drule insert_vente_Inr, simp add: profiles_wf_def)
  done

lemma update_profiles_wf:
  "profiles_wf db \<Longrightarrow> update_garage db c now g g' = Inr db' \<Longrightarrow> profiles_wf db'"
  "profiles_wf db \<Longrightarrow> update_profile db c now p p' = Inr db' \<Longrightarrow> profiles_wf db'"
  "profiles_wf db \<Longrightarrow> update_user_role db c now r r' = Inr db' \<Longrightarrow> profiles_wf db'"
  "profiles_wf db \<Longrightarrow> update_voiture db c now v v' = Inr db' \<Longrightarrow> profiles_wf db'"
  "profiles_wf db \<Longrightarrow> update_client db c now k k' = Inr db' \<Longrightarrow> profiles_wf db'"
  "profiles_wf db \<Longrightarrow> update_vente db c now s s' = Inr db' \<Longrightarrow> profiles_wf db'"
       apply (drule update_garage_Inr, erule disjE, simp, simp add: profiles_wf_def)
      apply (drule update_profile_Inr, erule disjE, simp, simp add: profiles_wf_replace)
     apply (drule update_user_role_Inr, erule disjE, simp, simp add: profiles_wf_def)
    apply (drule update_voiture_Inr, erule disjE, simp, simp add: profiles_wf_def)
   apply (drule update_client_Inr, erule disjE, simp, simp add: profiles_wf_def)
  apply (drule update_vente_Inr, erule disjE, simp, simp add: profiles_wf_def)
  done

lemma delete_profiles_wf:
  "profiles_wf db \<Longrightarrow> delete_garage db c now g = Inr db' \<Longrightarrow> profiles_wf db'"
  "profiles_wf db \<Longrightarrow> delete_profile db c p = Inr db' \<Longrightarrow> profiles_wf db'"
  "profiles_wf db \<Longrightarrow> delete_user_role db c r = Inr db' \<Longrightarrow> profiles_wf db'"
  "profiles_wf db \<Longrightarrow> delete_voiture db c v = Inr db' \<Longrightarrow> profiles_wf db'"
  "profiles_wf db \<Longrightarrow> delete_client db c k = Inr db' \<Longrightarrow> profiles_wf db'"
  "profiles_wf db \<Longrightarrow> delete_vente db c s = Inr db' \<Longrightarrow> profiles_wf db'"
       apply (drule delete_garage_Inr, erule disjE, simp)
       apply (drule profiles_wf_unassign [where gid = "g_id g" and now = now])
       apply (simp add: profiles_wf_def)
      apply (drule delete_profile_Inr, erule disjE, simp, simp add: profiles_wf_removeAll)
     apply (drule delete_user_role_Inr, erule disjE, simp, simp add: profiles_wf_def)
    apply (drule delete_voiture_Inr, erule disjE, simp, simp add: profiles_wf_def)
   apply (drule delete_client_Inr, erule disjE, simp, simp add: profiles_wf_def)
  apply (drule delete_vente_Inr, erule disjE, simp, simp add: profiles_wf_def)
  done

lemma exec_profiles_wf:
  "profiles_wf db \<Longrightarrow> exec db c now op = Inr db' \<Longrightarrow> profiles_wf db'"
  by (induction db c now op rule: exec.induct)
    (simp_all, (erule (1) insert_profiles_wf update_profiles_wf delete_profiles_wf)+)

lemma create_user_profiles_wf:
  "profiles_wf db \<Longrightarrow> create_user db now new pid rid = Inr db' \<Longrightarrow> profiles_wf db'"
  apply (drule create_user_Inr, elim conjE)
  apply (drule (2) profiles_wf_append)
  apply (simp add: profiles_wf_def)
  done

lemma delete_user_profiles_wf:
  "profiles_wf db \<Longrightarrow> delete_user db uid = Inr db' \<Longrightarrow> profiles_wf db'"
  apply (drule delete_user_Inr, erule disjE, simp)
  apply (drule profiles_wf_filter [where P = "\<lambda>p. \<not> sql_is (p_user_id p) (Some uid)"])
  apply (simp add: profiles_wf_def)
  done

lemma step_profiles_wf:
  "profiles_wf db \<Longrightarrow> step db e = Inr db' \<Longrightarrow> profiles_wf db'"
  by (cases e)
    (simp_all, (erule (1) exec_profiles_wf create_user_profiles_wf delete_user_profiles_wf)+)

lemma profiles_wf_empty: "profiles_wf empty_database"
  by (simp add: profiles_wf_def empty_database_def)

lemma profiles_wf_run: "profiles_wf (run empty_database es)"
  by (rule run_invariant [where P = profiles_wf, OF profiles_wf_empty step_profiles_wf])

section \<open>Sales are kept\<close>

lemma exec_ventes:
  "exec db c now op = Inr db' \<Longrightarrow>
     ventes db' = ventes db
     \<or> (\<exists>s. op = Insert (Vente s) \<and> ventes db' = ventes db @ [s])
     \<or> (\<exists>old new. op = Update (Vente old) (Vente new) \<and> ventes db' = replace old new (ventes db))
     \<or> (\<exists>g. op = Delete (Garage g)
           \<and> ventes db' = filter (\<lambda>s. \<not> sql_is (s_garage_id s) (g_id g)) (ventes db))
     \<or> (\<exists>s. op = Delete (Vente s) \<and> c = Owner \<and> ventes db' = removeAll s (ventes db))"
proof (induction db c now op rule: exec.induct)
  case (20 db c now s)
  then have "db' = db \<or> (caller_using db c FOR_DELETE (Vente s) \<and> db' = db\<lparr>ventes := removeAll s (ventes db)\<rparr>)"
    by (simp add: delete_vente_Inr)
  then show ?case
    by (cases c) (auto simp: ventes_using)
qed (auto dest!: exec_Inr)

lemma step_ventes:
  "step db e = Inr db' \<Longrightarrow>
     ventes db' = ventes db
     \<or> (\<exists>c now s. e = Statement c now (Insert (Vente s)) \<and> ventes db' = ventes db @ [s])
     \<or> (\<exists>c now old new. e = Statement c now (Update (Vente old) (Vente new))
           \<and> ventes db' = replace old new (ventes db))
     \<or> (\<exists>c now g. e = Statement c now (Delete (Garage g))
           \<and> ventes db' = filter (\<lambda>s. \<not> sql_is (s_garage_id s) (g_id g)) (ventes db))
     \<or> (\<exists>now s. e = Statement Owner now (Delete (Vente s))
           \<and> ventes db' = removeAll s (ventes db))"
proof (cases e)
  case (Statement c now op)
  assume "step db e = Inr db'"
  with Statement have "exec db c now op = Inr db'" by simp
  from exec_ventes [OF this] Statement show ?thesis by blast
next
  case (Create_user now new pid rid)
  assume "step db e = Inr db'"
  with Create_user show ?thesis by (auto dest!: create_user_Inr)
next
  case (Delete_user uid)
  assume "step db e = Inr db'"
  with Delete_user show ?thesis by (auto dest!: delete_user_Inr)
qed

lemma step_keeps_sale:
  assumes "step db e = Inr db'" "\<not> may_remove s e" "s \<in> set (ventes db)"
  shows "s \<in> set (ventes db')"
  using step_ventes [OF assms(1)] assms(2,3)
  by (auto simp: in_set_replace)

lemma step_keeps_count:
  assumes "step db e = Inr db'" "\<not> deletes_sales e"
  shows "length (ventes db) \<le> length (ventes db')"
  using step_ventes [OF assms(1)] assms(2)
  by auto

lemma run_keeps_sale:
  "list_all (\<lambda>e. \<not> may_remove s e) es \<Longrightarrow> s \<in> set (ventes db) \<Longrightarrow> s \<in> set (ventes (run db es))"
proof (induction es arbitrary: db)
  case Nil
  then show ?case by simp
next
  case (Cons e es)
  show ?case
  proof (cases "step db e")
    case (Inl err)
    with Cons show ?thesis by simp
  next
    case (Inr db')
    with Cons.prems have "s \<in> set (ventes db')"
      by (auto intro: step_keeps_sale)
    with Cons Inr show ?thesis by simp
  qed
qed

lemma run_keeps_count:
  "list_all (\<lambda>e. \<not> deletes_sales e) es \<Longrightarrow> length (ventes db) \<le> length (ventes (run db es))"
proof (induction es arbitrary: db)
  case Nil
  then show ?case by simp
next
  case (Cons e es)
  show ?case
  proof (cases "step db e")
    case (Inl err)
    with Cons show ?thesis by simp
  next
    case (Inr db')
    with Cons.prems have "length (ventes db) \<le> length (ventes db')"
      by (auto intro: step_keeps_count)
    moreover from Cons Inr have "length (ventes db') \<le> length (ventes (run db (e # es)))"
      by simp
    ultimately show ?thesis by simp
  qed
qed

text \<open>
  Claim C6.  No policy of \<^verbatim>\<open>ventes\<close> applies to DELETE: for every identity, admins
  included, the delete of a sale is refused, and the statement deletes nothing.  Along any
  history, a sale that is stored stays stored unless its garage is deleted, it is the target
  of an update (which rewrites the row in place), or the owner of the tables, who is not
  subject to the policies, deletes it; and the number of sales never decreases unless a
  garage is deleted or the owner deletes a sale.
\<close>

theorem sale_never_deleted:
  "\<not> permitted db uid (Delete (Vente s))
   \<and> exec db (Authenticated uid) now (Delete (Vente s)) = Inr db
   \<and> (s \<in> set (ventes db) \<and> list_all (\<lambda>e. \<not> may_remove s e) es \<longrightarrow>
        s \<in> set (ventes (run db es)))
   \<and> (list_all (\<lambda>e. \<not> deletes_sales e) es \<longrightarrow>
        length (ventes db) \<le> length (ventes (run db es)))"
  by (simp add: ventes_using delete_vente_def run_keeps_sale run_keeps_count)

theorem sale_never_deleted_witness:
  "sale_60 \<in> set (ventes demo_db)
   \<and> list_all (\<lambda>e. \<not> may_remove sale_60 e) later_events
   \<and> list_all (\<lambda>e. \<not> deletes_sales e) (butlast later_events)
   \<and> \<not> permitted demo_db 10 (Delete (Vente sale_60))
   \<and> exec demo_db (Authenticated 10) 300 (Delete (Vente sale_60)) = Inr demo_db
   \<and> sale_60 \<in> set (ventes (run demo_db later_events))
   \<and> length (ventes demo_db) \<le> length (ventes (run demo_db (butlast later_events)))"
proof -
  have a: "sale_60 \<in> set (ventes demo_db)"
    by (simp add: demo_db_def sale_60_def)
  have b: "list_all (\<lambda>e. \<not> may_remove sale_60 e) later_events"
    by (simp add: later_events_def sale_60_def mk_vente_def garage_b_def sql_is_iff)
  have c: "list_all (\<lambda>e. \<not> deletes_sales e) (butlast later_events)"
    by (simp add: later_events_def)
  from a b c sale_never_deleted [of demo_db 10 sale_60 300 later_events]
    sale_never_deleted [of demo_db 10 sale_60 300 "butlast later_events"]
  show ?thesis by simp
qed

section \<open>The update timestamp\<close>

text \<open>
  Claim C7, as the triggers have it.  An update that is carried out on a garage, a profile,
  a vehicle or a client stores the new row with \<^verbatim>\<open>updated_at\<close> set to \<^verbatim>\<open>now()\<close>,
  whatever the update gave for that column and whichever other columns change, also when
  none does.  A sale has no \<^verbatim>\<open>updated_at\<close> column and \<^verbatim>\<open>ventes\<close> has no trigger: the new
  row is stored as given, and an update that changes no column leaves the database as it
  was.
\<close>

theorem update_sets_updated_at:
  "(exec db c now (Update (Garage g) (Garage g')) = Inr db' \<and> g \<in> set (garages db)
      \<and> caller_using db c FOR_UPDATE (Garage g) \<longrightarrow>
        g'\<lparr>g_updated_at := Some now\<rparr> \<in> set (garages db'))
   \<and> (exec db c now (Update (Profile p) (Profile p')) = Inr db' \<and> p \<in> set (profiles db)
      \<and> caller_using db c FOR_UPDATE (Profile p) \<longrightarrow>
        p'\<lparr>p_updated_at := Some now\<rparr> \<in> set (profiles db'))
   \<and> (exec db c now (Update (Voiture v) (Voiture v')) = Inr db' \<and> v \<in> set (voitures db)
      \<and> caller_using db c FOR_UPDATE (Voiture v) \<longrightarrow>
        v'\<lparr>v_updated_at := Some now\<rparr> \<in> set (voitures db'))
   \<and> (exec db c now (Update (Client k) (Client k')) = Inr db' \<and> k \<in> set (clients db)
      \<and> caller_using db c FOR_UPDATE (Client k) \<longrightarrow>
        k'\<lparr>c_updated_at := Some now\<rparr> \<in> set (clients db'))
   \<and> (exec db c now (Update (Vente s) (Vente s')) = Inr db' \<and> s \<in> set (ventes db)
      \<and> caller_using db c FOR_UPDATE (Vente s) \<longrightarrow>
        s' \<in> set (ventes db') \<and> (s' = s \<longrightarrow> db' = db))"
proof (intro conjI, goal_cases)
  case 1
  show ?case
    by (auto simp: update_garage_def Let_def update_garages_updated_at_eq new_in_set_replace
        split: if_splits)
next
  case 2
  show ?case
    by (auto simp: update_profile_def Let_def update_profiles_updated_at_eq new_in_set_replace
        split: if_splits)
next
  case 3
  show ?case
    by (auto simp: update_voiture_def Let_def update_voitures_updated_at_eq new_in_set_replace
        split: if_splits)
next
  case 4
  show ?case
    by (auto simp: update_client_def Let_def update_clients_updated_at_eq new_in_set_replace
        split: if_splits)
next
  case 5
  show ?case
    by (auto simp: update_vente_def new_in_set_replace split: if_splits)
qed

lemma demo_update_garage_a:
  "exec demo_db (Authenticated 10) 500 (Update (Garage garage_a) (Garage garage_a))
   = Inr (demo_db\<lparr>garages := [garage_a\<lparr>g_updated_at := Some 500\<rparr>, garage_b]\<rparr>)"
  by code_simp

lemma demo_update_profile:
  "exec demo_db (Authenticated 12) 500
     (Update (Profile (mk_profile 22 12 (Some 1))) (Profile (mk_profile 22 12 (Some 1))))
   = Inr (demo_db\<lparr>profiles := [mk_profile 20 10 (Some 1), mk_profile 21 11 (Some 1),
        (mk_profile 22 12 (Some 1))\<lparr>p_updated_at := Some 500\<rparr>, mk_profile 23 13 None]\<rparr>)"
  by code_simp

lemma demo_update_voiture:
  "exec demo_db (Authenticated 11) 500
     (Update (Voiture (mk_voiture 40 (Some 1)))
             (Voiture ((mk_voiture 40 (Some 1))\<lparr>v_disponible := Some False\<rparr>)))
   = Inr (demo_db\<lparr>voitures :=
        [(mk_voiture 40 (Some 1))\<lparr>v_disponible := Some False, v_updated_at := Some 500\<rparr>,
         mk_voiture 41 (Some 2)]\<rparr>)"
  by code_simp

lemma demo_update_client:
  "exec demo_db (Authenticated 11) 500
     (Update (Client (mk_client 50 (Some 1))) (Client (mk_client 50 (Some 1))))
   = Inr (demo_db\<lparr>clients :=
        [(mk_client 50 (Some 1))\<lparr>c_updated_at := Some 500\<rparr>, mk_client 51 (Some 2)]\<rparr>)"
  by code_simp

lemma demo_update_vente:
  "exec demo_db (Authenticated 10) 500 (Update (Vente sale_60) (Vente sale_60)) = Inr demo_db"
  by code_simp

theorem update_sets_updated_at_witness:
  "exec demo_db (Authenticated 10) 500 (Update (Garage garage_a) (Garage garage_a))
     = Inr (demo_db\<lparr>garages := [garage_a\<lparr>g_updated_at := Some 500\<rparr>, garage_b]\<rparr>)
   \<and> garage_a\<lparr>g_updated_at := Some 500\<rparr>
     \<in> set (garages (demo_db\<lparr>garages := [garage_a\<lparr>g_updated_at := Some 500\<rparr>, garage_b]\<rparr>))
   \<and> exec demo_db (Authenticated 12) 500
       (Update (Profile (mk_profile 22 12 (Some 1))) (Profile (mk_profile 22 12 (Some 1))))
     = Inr (demo_db\<lparr>profiles := [mk_profile 20 10 (Some 1), mk_profile 21 11 (Some 1),
        (mk_profile 22 12 (Some 1))\<lparr>p_updated_at := Some 500\<rparr>, mk_profile 23 13 None]\<rparr>)
   \<and> (mk_profile 22 12 (Some 1))\<lparr>p_updated_at := Some 500\<rparr>
     \<in> set (profiles (demo_db\<lparr>profiles := [mk_profile 20 10 (Some 1), mk_profile 21 11 (Some 1),
        (mk_profile 22 12 (Some 1))\<lparr>p_updated_at := Some 500\<rparr>, mk_profile 23 13 None]\<rparr>))
   \<and> exec demo_db (Authenticated 11) 500
       (Update (Voiture (mk_voiture 40 (Some 1)))
               (Voiture ((mk_voiture 40 (Some 1))\<lparr>v_disponible := Some False\<rparr>)))
     = Inr (demo_db\<lparr>voitures :=
        [(mk_voiture 40 (Some 1))\<lparr>v_disponible := Some False, v_updated_at := Some 500\<rparr>,
         mk_voiture 41 (Some 2)]\<rparr>)
   \<and> (mk_voiture 40 (Some 1))\<lparr>v_disponible := Some False, v_updated_at := Some 500\<rparr>
     \<in> set (voitures (demo_db\<lparr>voitures :=
        [(mk_voiture 40 (Some 1))\<lparr>v_disponible := Some False, v_updated_at := Some 500\<rparr>,
         mk_voiture 41 (Some 2)]\<rparr>))
   \<and> exec demo_db (Authenticated 11) 500
       (Update (Client (mk_client 50 (Some 1))) (Client (mk_client 50 (Some 1))))
     = Inr (demo_db\<lparr>clients :=
        [(mk_client 50 (Some 1))\<lparr>c_updated_at := Some 500\<rparr>, mk_client 51 (Some 2)]\<rparr>)
   \<and> (mk_client 50 (Some 1))\<lparr>c_updated_at := Some 500\<rparr>
     \<in> set (clients (demo_db\<lparr>clients :=
        [(mk_client 50 (Some 1))\<lparr>c_updated_at := Some 500\<rparr>, mk_client 51 (Some 2)]\<rparr>))
   \<and> exec demo_db (Authenticated 10) 500 (Update (Vente sale_60) (Vente sale_60)) = Inr demo_db
   \<and> sale_60 \<in> set (ventes demo_db)"
proof -
  have mem: "garage_a \<in> set (garages demo_db)"
    "mk_profile 22 12 (Some 1) \<in> set (profiles demo_db)"
    "mk_voiture 40 (Some 1) \<in> set (voitures demo_db)"
    "mk_client 50 (Some 1) \<in> set (clients demo_db)"
    "sale_60 \<in> set (ventes demo_db)"
    by (simp_all add: demo_db_def sale_60_def)
  have may: "caller_using demo_db (Authenticated 10) FOR_UPDATE (Garage garage_a)"
    "caller_using demo_db (Authenticated 12) FOR_UPDATE (Profile (mk_profile 22 12 (Some 1)))"
    "caller_using demo_db (Authenticated 11) FOR_UPDATE (Voiture (mk_voiture 40 (Some 1)))"
    "caller_using demo_db (Authenticated 11) FOR_UPDATE (Client (mk_client 50 (Some 1)))"
    "caller_using demo_db (Authenticated 10) FOR_UPDATE (Vente sale_60)"
    by (simp_all add: rls_iff demo_has_role demo_get_user_garage sale_60_def
        mk_profile_def mk_voiture_def mk_client_def mk_vente_def sql_is_iff)
  note inst = update_sets_updated_at [where db = demo_db and now = 500]
  from mem(1) may(1) demo_update_garage_a inst [where c = "Authenticated 10" and g = garage_a]
  have 1: "garage_a\<lparr>g_updated_at := Some 500\<rparr>
     \<in> set (garages (demo_db\<lparr>garages := [garage_a\<lparr>g_updated_at := Some 500\<rparr>, garage_b]\<rparr>))"
    by blast
  from mem(2) may(2) demo_update_profile
    inst [where c = "Authenticated 12" and p = "mk_profile 22 12 (Some 1)"]
  have 2: "(mk_profile 22 12 (Some 1))\<lparr>p_updated_at := Some 500\<rparr>
     \<in> set (profiles (demo_db\<lparr>profiles := [mk_profile 20 10 (Some 1), mk_profile 21 11 (Some 1),
        (mk_profile 22 12 (Some 1))\<lparr>p_updated_at := Some 500\<rparr>, mk_profile 23 13 None]\<rparr>))"
    by blast
  from mem(3) may(3) demo_update_voiture
    inst [where c = "Authenticated 11" and v = "mk_voiture 40 (Some 1)"]
  have 3: "(mk_voiture 40 (Some 1))\<lparr>v_disponible := Some False, v_updated_at := Some 500\<rparr>
     \<in> set (voitures (demo_db\<lparr>voitures :=
        [(mk_voiture 40 (Some 1))\<lparr>v_disponible := Some False, v_updated_at := Some 500\<rparr>,
         mk_voiture 41 (Some 2)]\<rparr>))"
    by blast
  from mem(4) may(4) demo_update_client
    inst [where c = "Authenticated 11" and k = "mk_client 50 (Some 1)"]
  have 4: "(mk_client 50 (Some 1))\<lparr>c_updated_at := Some 500\<rparr>
     \<in> set (clients (demo_db\<lparr>clients :=
        [(mk_client 50 (Some 1))\<lparr>c_updated_at := Some 500\<rparr>, mk_client 51 (Some 2)]\<rparr>))"
    by blast
  from mem(5) may(5) demo_update_vente
    inst [where c = "Authenticated 10" and s = sale_60]
  have 5: "sale_60 \<in> set (ventes demo_db)"
    by blast
  from demo_update_garage_a 1 demo_update_profile 2 demo_update_voiture 3 demo_update_client 4
    demo_update_vente 5
  show ?thesis by (intro conjI)
qed

text \<open>
  The claim C7 as it is written fails.  The timestamp is set to \<^verbatim>\<open>now()\<close>, which need not
  be later than the stored one: garage 2 was stored with \<^verbatim>\<open>updated_at\<close> 900 and an update
  at time 500 moves it back to 500; garage 1 is updated at the time 100 it already carries
  (\<^verbatim>\<open>now()\<close> is the same throughout a transaction) and keeps it.  And an update of a sale
  changes no timestamp at all.
\<close>

theorem update_timestamp_counterexample:
  "exec demo_db (Authenticated 10) 500 (Update (Garage garage_b) (Garage garage_b))
     = Inr (demo_db\<lparr>garages := [garage_a, garage_b\<lparr>g_updated_at := Some 500\<rparr>]\<rparr>)
   \<and> g_updated_at garage_b = Some 900
   \<and> exec demo_db (Authenticated 10) 100 (Update (Garage garage_a) (Garage garage_a))
     = Inr demo_db
   \<and> g_updated_at garage_a = Some 100
   \<and> exec demo_db (Authenticated 10) 500 (Update (Vente sale_60) (Vente sale_60)) = Inr demo_db"
  by code_simp

section \<open>Every vehicle, client and sale refers to a stored garage\<close>

lemma garage_refs_ok_other [simp]:
  "garage_refs_ok (db\<lparr>users := us\<rparr>) = garage_refs_ok db"
  "garage_refs_ok (db\<lparr>profiles := ps\<rparr>) = garage_refs_ok db"
  "garage_refs_ok (db\<lparr>user_roles := rs\<rparr>) = garage_refs_ok db"
  by (simp_all add: garage_refs_ok_def)

lemma garage_refs_ok_iff:
  "garage_refs_ok db \<longleftrightarrow>
     (\<forall>v\<in>set (voitures db). \<exists>g\<in>set (garages db). sql_is (v_garage_id v) (g_id g))
     \<and> (\<forall>k\<in>set (clients db). \<exists>g\<in>set (garages db). sql_is (c_garage_id k) (g_id g))
     \<and> (\<forall>s\<in>set (ventes db). \<exists>g\<in>set (garages db). sql_is (s_garage_id s) (g_id g))"
  by (simp add: garage_refs_ok_def list_all_iff list_ex_iff)

lemma sql_is_trans: "sql_is a b \<Longrightarrow> sql_is c b \<Longrightarrow> sql_is a c"
  by (auto simp: sql_is_iff)

lemma garage_key_replace:
  assumes "\<exists>g0\<in>set gs. sql_is k (g_id g0)"
    and "sql_is (g_id new) (g_id old) \<or> \<not> sql_is k (g_id old)"
  shows "\<exists>g0\<in>set (replace old new gs). sql_is k (g_id g0)"
proof -
  from assms(1) obtain g0 where g0: "g0 \<in> set gs" "sql_is k (g_id g0)" by auto
  show ?thesis
  proof (cases "g0 = old")
    case True
    with g0 assms(2) have "sql_is k (g_id new)"
      by (blast intro: sql_is_trans)
    moreover from g0 True have "new \<in> set (replace old new gs)"
      by (simp add: new_in_set_replace)
    ultimately show ?thesis by blast
  next
    case False
    with g0 have "g0 \<in> set (replace old new gs)"
      by (simp add: in_set_replace)
    with g0 show ?thesis by blast
  qed
qed

lemma garage_key_removeAll:
  assumes "\<exists>g0\<in>set gs. sql_is k (g_id g0)" "\<not> sql_is k (g_id g)"
  shows "\<exists>g0\<in>set (removeAll g gs). sql_is k (g_id g0)"
proof -
  from assms(1) obtain g0 where g0: "g0 \<in> set gs" "sql_is k (g_id g0)" by auto
  with assms(2) have "g0 \<noteq> g" by auto
  with g0 have "g0 \<in> set (removeAll g gs)" by simp
  with g0 show ?thesis by blast
qed

lemma insert_garage_refs:
  "garage_refs_ok db \<Longrightarrow> insert_garage db c g = Inr db' \<Longrightarrow> garage_refs_ok db'"
proof -
  assume ok: "garage_refs_ok db" and "insert_garage db c g = Inr db'"
  then have db': "voitures db' = voitures db" "clients db' = clients db"
    "ventes db' = ventes db" "garages db' = garages db @ [g]"
    by (auto dest!: insert_garage_Inr)
  from ok show ?thesis
    unfolding garage_refs_ok_iff db' by auto
qed

lemma update_garage_refs:
  assumes "garage_refs_ok db" "update_garage db c now old new = Inr db'"
  shows "garage_refs_ok db'"
proof -
  let ?new = "update_garages_updated_at now new"
  from update_garage_Inr [OF assms(2)] show ?thesis
  proof
    assume "db' = db"
    with assms(1) show ?thesis by simp
  next
    assume a: "old \<in> set (garages db) \<and>
      db' = db\<lparr>garages := replace old ?new (garages db)\<rparr> \<and>
      garages_not_null ?new \<and>
      (sql_is (g_id new) (g_id old) \<or> \<not> garage_referenced db (g_id old))"
    then have key: "sql_is (g_id ?new) (g_id old) \<or> \<not> garage_referenced db (g_id old)"
      by (simp add: update_garages_updated_at_eq)
    have v: "garage_referenced db (g_id old) \<or> \<not> sql_is (v_garage_id v) (g_id old)"
      if "v \<in> set (voitures db)" for v
      using that by (auto simp: garage_referenced_def list_ex_iff)
    have k: "garage_referenced db (g_id old) \<or> \<not> sql_is (c_garage_id k) (g_id old)"
      if "k \<in> set (clients db)" for k
      using that by (auto simp: garage_referenced_def list_ex_iff)
    have s: "garage_referenced db (g_id old) \<or> \<not> sql_is (s_garage_id s) (g_id old)"
      if "s \<in> set (ventes db)" for s
      using that by (auto simp: garage_referenced_def list_ex_iff)
    from a have db': "voitures db' = voitures db" "clients db' = clients db"
      "ventes db' = ventes db" "garages db' = replace old ?new (garages db)"
      by simp_all
    show ?thesis
      unfolding garage_refs_ok_iff db'
    proof (intro conjI ballI)
      fix x assume x: "x \<in> set (voitures db)"
      with assms(1) have "\<exists>g\<in>set (garages db). sql_is (v_garage_id x) (g_id g)"
        unfolding garage_refs_ok_iff by blast
      moreover from v [OF x] key
      have "sql_is (g_id ?new) (g_id old) \<or> \<not> sql_is (v_garage_id x) (g_id old)" by blast
      ultimately show "\<exists>g\<in>set (replace old ?new (garages db)). sql_is (v_garage_id x) (g_id g)"
        by (rule garage_key_replace)
    next
      fix x assume x: "x \<in> set (clients db)"
      with assms(1) have "\<exists>g\<in>set (garages db). sql_is (c_garage_id x) (g_id g)"
        unfolding garage_refs_ok_iff by blast
      moreover from k [OF x] key
      have "sql_is (g_id ?new) (g_id old) \<or> \<not> sql_is (c_garage_id x) (g_id old)" by blast
      ultimately show "\<exists>g\<in>set (replace old ?new (garages db)). sql_is (c_garage_id x) (g_id g)"
        by (rule garage_key_replace)
    next
      fix x assume x: "x \<in> set (ventes db)"
      with assms(1) have "\<exists>g\<in>set (garages db). sql_is (s_garage_id x) (g_id g)"
        unfolding garage_refs_ok_iff by blast
      moreover from s [OF x] key
      have "sql_is (g_id ?new) (g_id old) \<or> \<not> sql_is (s_garage_id x) (g_id old)" by blast
      ultimately show "\<exists>g\<in>set (replace old ?new (garages db)). sql_is (s_garage_id x) (g_id g)"
        by (rule garage_key_replace)
    qed
  qed
qed

lemma delete_garage_refs:
  assumes "garage_refs_ok db" "delete_garage db c now g = Inr db'"
  shows "garage_refs_ok db'"
proof -
  from delete_garage_Inr [OF assms(2)] show ?thesis
  proof
    assume "db' = db"
    with assms(1) show ?thesis by simp
  next
    assume a: "g \<in> set (garages db) \<and>
      db' = db\<lparr>garages := removeAll g (garages db),
               profiles := map (\<lambda>p. if sql_is (p_garage_id p) (g_id g)
                         then update_profiles_updated_at now (p\<lparr>p_garage_id := None\<rparr>)
                         else p) (profiles db),
               voitures := filter (\<lambda>v. \<not> sql_is (v_garage_id v) (g_id g)) (voitures db),
               clients := filter (\<lambda>k. \<not> sql_is (c_garage_id k) (g_id g)) (clients db),
               ventes := filter (\<lambda>s. \<not> sql_is (s_garage_id s) (g_id g)) (ventes db)\<rparr>"
    then have db': "garages db' = removeAll g (garages db)"
      "voitures db' = filter (\<lambda>v. \<not> sql_is (v_garage_id v) (g_id g)) (voitures db)"
      "clients db' = filter (\<lambda>k. \<not> sql_is (c_garage_id k) (g_id g)) (clients db)"
      "ventes db' = filter (\<lambda>s. \<not> sql_is (s_garage_id s) (g_id g)) (ventes db)"
      by simp_all
    show ?thesis
      unfolding garage_refs_ok_iff db'
    proof (intro conjI ballI)
      fix x assume "x \<in> set (filter (\<lambda>v. \<not> sql_is (v_garage_id v) (g_id g)) (voitures db))"
      then have x: "x \<in> set (voitures db)" "\<not> sql_is (v_garage_id x) (g_id g)" by simp_all
      with assms(1) have "\<exists>g\<in>set (garages db). sql_is (v_garage_id x) (g_id g)"
        unfolding garage_refs_ok_iff by blast
      then show "\<exists>g0\<in>set (removeAll g (garages db)). sql_is (v_garage_id x) (g_id g0)"
        using x(2) by (rule garage_key_removeAll)
    next
      fix x assume "x \<in> set (filter (\<lambda>k. \<not> sql_is (c_garage_id k) (g_id g)) (clients db))"
      then have x: "x \<in> set (clients db)" "\<not> sql_is (c_garage_id x) (g_id g)" by simp_all
      with assms(1) have "\<exists>g\<in>set (garages db). sql_is (c_garage_id x) (g_id g)"
        unfolding garage_refs_ok_iff by blast
      then show "\<exists>g0\<in>set (removeAll g (garages db)). sql_is (c_garage_id x) (g_id g0)"
        using x(2) by (rule garage_key_removeAll)
    next
      fix x assume "x \<in> set (filter (\<lambda>s. \<not> sql_is (s_garage_id s) (g_id g)) (ventes db))"
      then have x: "x \<in> set (ventes db)" "\<not> sql_is (s_garage_id x) (g_id g)" by simp_all
      with assms(1) have "\<exists>g\<in>set (garages db). sql_is (s_garage_id x) (g_id g)"
        unfolding garage_refs_ok_iff by blast
      then show "\<exists>g0\<in>set (removeAll g (garages db)). sql_is (s_garage_id x) (g_id g0)"
        using x(2) by (rule garage_key_removeAll)
    qed
  qed
qed

lemma references_sql_is:
  "k \<noteq> None \<Longrightarrow> references k (map g_id gs) \<Longrightarrow> \<exists>g\<in>set gs. sql_is k (g_id g)"
proof -
  assume "k \<noteq> None" "references k (map g_id gs)"
  then have "k \<in> g_id ` set gs"
    by (auto simp: references_def)
  then obtain g where "g \<in> set gs" "g_id g = k"
    by (auto simp: image_iff)
  with \<open>k \<noteq> None\<close> show ?thesis
    by (auto simp: sql_is_iff)
qed

lemma voiture_ref:
  "voitures_not_null v \<Longrightarrow> voitures_fk db v
   \<Longrightarrow> \<exists>g\<in>set (garages db). sql_is (v_garage_id v) (g_id g)"
  by (rule references_sql_is) (simp_all add: voitures_not_null_def voitures_fk_def)

lemma client_ref:
  "clients_not_null k \<Longrightarrow> clients_fk db k
   \<Longrightarrow> \<exists>g\<in>set (garages db). sql_is (c_garage_id k) (g_id g)"
  by (rule references_sql_is) (simp_all add: clients_not_null_def clients_fk_def)

lemma vente_ref:
  "ventes_not_null s \<Longrightarrow> ventes_fk db s
   \<Longrightarrow> \<exists>g\<in>set (garages db). sql_is (s_garage_id s) (g_id g)"
  by (rule references_sql_is) (simp_all add: ventes_not_null_def ventes_fk_def)

lemma insert_rows_refs:
  "garage_refs_ok db \<Longrightarrow> insert_profile db c p = Inr db' \<Longrightarrow> garage_refs_ok db'"
  "garage_refs_ok db \<Longrightarrow> insert_user_role db c r = Inr db' \<Longrightarrow> garage_refs_ok db'"
  "garage_refs_ok db \<Longrightarrow> insert_voiture db c v = Inr db' \<Longrightarrow> garage_refs_ok db'"
  "garage_refs_ok db \<Longrightarrow> insert_client db c k = Inr db' \<Longrightarrow> garage_refs_ok db'"
  "garage_refs_ok db \<Longrightarrow> insert_vente db c s = Inr db' \<Longrightarrow> garage_refs_ok db'"
      apply (drule insert_profile_Inr, simp)
     apply (drule insert_user_role_Inr, simp)
    apply (drule insert_voiture_Inr, elim conjE, drule (1) voiture_ref)
    apply (simp add: garage_refs_ok_iff)
   apply (drule insert_client_Inr, elim conjE, drule (1) client_ref)
   apply (simp add: garage_refs_ok_iff)
  apply (drule insert_vente_Inr, elim conjE, drule (1) vente_ref)
  apply (simp add: garage_refs_ok_iff)
  done

lemma update_voiture_refs:
  assumes "garage_refs_ok db" "update_voiture db c now v v' = Inr db'"
  shows "garage_refs_ok db'"
proof -
  let ?new = "update_voitures_updated_at now v'"
  from update_voiture_Inr [OF assms(2)] show ?thesis
  proof
    assume "db' = db"
    with assms(1) show ?thesis by simp
  next
    assume a: "v \<in> set (voitures db)
      \<and> db' = db\<lparr>voitures := replace v ?new (voitures db)\<rparr>
      \<and> voitures_not_null ?new \<and> voitures_fk db ?new"
    then have r: "\<exists>g\<in>set (garages db). sql_is (v_garage_id ?new) (g_id g)"
      by (intro voiture_ref) simp_all
    from a have db': "voitures db' = replace v ?new (voitures db)" "clients db' = clients db"
      "ventes db' = ventes db" "garages db' = garages db"
      by simp_all
    from assms(1) r show ?thesis
      unfolding garage_refs_ok_iff db' by (blast dest: in_replaceD)
  qed
qed

lemma update_client_refs:
  assumes "garage_refs_ok db" "update_client db c now k k' = Inr db'"
  shows "garage_refs_ok db'"
proof -
  let ?new = "update_clients_updated_at now k'"
  from update_client_Inr [OF assms(2)] show ?thesis
  proof
    assume "db' = db"
    with assms(1) show ?thesis by simp
  next
    assume a: "k \<in> set (clients db)
      \<and> db' = db\<lparr>clients := replace k ?new (clients db)\<rparr>
      \<and> clients_not_null ?new \<and> clients_fk db ?new"
    then have r: "\<exists>g\<in>set (garages db). sql_is (c_garage_id ?new) (g_id g)"
      by (intro client_ref) simp_all
    from a have db': "voitures db' = voitures db"
      "clients db' = replace k ?new (clients db)"
      "ventes db' = ventes db" "garages db' = garages db"
      by simp_all
    from assms(1) r show ?thesis
      unfolding garage_refs_ok_iff db' by (blast dest: in_replaceD)
  qed
qed

lemma update_vente_refs:
  assumes "garage_refs_ok db" "update_vente db c now s s' = Inr db'"
  shows "garage_refs_ok db'"
proof -
  from update_vente_Inr [OF assms(2)] show ?thesis
  proof
    assume "db' = db"
    with assms(1) show ?thesis by simp
  next
    assume a: "s \<in> set (ventes db) \<and> db' = db\<lparr>ventes := replace s s' (ventes db)\<rparr>
      \<and> ventes_not_null s' \<and> ventes_fk db s'"
    then have r: "\<exists>g\<in>set (garages db). sql_is (s_garage_id s') (g_id g)"
      by (intro vente_ref) simp_all
    from a have db': "voitures db' = voitures db" "clients db' = clients db"
      "ventes db' = replace s s' (ventes db)" "garages db' = garages db"
      by simp_all
    from assms(1) r show ?thesis
      unfolding garage_refs_ok_iff db' by (blast dest: in_replaceD)
  qed
qed

lemma update_rows_refs:
  "garage_refs_ok db \<Longrightarrow> update_profile db c now p p' = Inr db' \<Longrightarrow> garage_refs_ok db'"
  "garage_refs_ok db \<Longrightarrow> update_user_role db c now r r' = Inr db' \<Longrightarrow> garage_refs_ok db'"
   apply (drule update_profile_Inr, erule disjE, simp, simp)
  apply (drule update_user_role_Inr, erule disjE, simp, simp)
  done

lemma delete_rows_refs:
  "garage_refs_ok db \<Longrightarrow> delete_profile db c p = Inr db' \<Longrightarrow> garage_refs_ok db'"
  "garage_refs_ok db \<Longrightarrow> delete_user_role db c r = Inr db' \<Longrightarrow> garage_refs_ok db'"
  "garage_refs_ok db \<Longrightarrow> delete_voiture db c v = Inr db' \<Longrightarrow> garage_refs_ok db'"
  "garage_refs_ok db \<Longrightarrow> delete_client db c k = Inr db' \<Longrightarrow> garage_refs_ok db'"
  "garage_refs_ok db \<Longrightarrow> delete_vente db c s = Inr db' \<Longrightarrow> garage_refs_ok db'"
      apply (drule delete_profile_Inr, erule disjE, simp, simp)
     apply (drule delete_user_role_Inr, erule disjE, simp, simp)
    apply (drule delete_voiture_Inr, erule disjE, simp)
    apply (simp add: garage_refs_ok_iff)
   apply (drule delete_client_Inr, erule disjE, simp)
   apply (simp add: garage_refs_ok_iff)
  apply (drule delete_vente_Inr, erule disjE, simp)
  apply (simp add: garage_refs_ok_iff)
  done

lemma exec_garage_refs:
  "garage_refs_ok db \<Longrightarrow> exec db c now op = Inr db' \<Longrightarrow> garage_refs_ok db'"
  by (induction db c now op rule: exec.induct)
    (simp_all, (erule (1) insert_garage_refs update_garage_refs delete_garage_refs
       insert_rows_refs update_rows_refs update_voiture_refs update_client_refs
       update_vente_refs delete_rows_refs)+)

lemma step_garage_refs:
  "garage_refs_ok db \<Longrightarrow> step db e = Inr db' \<Longrightarrow> garage_refs_ok db'"
proof (cases e)
  case (Statement c now op)
  assume "garage_refs_ok db" "step db e = Inr db'"
  with Statement show ?thesis by (simp add: exec_garage_refs)
next
  case (Create_user now new pid rid)
  assume "garage_refs_ok db" "step db e = Inr db'"
  with Create_user show ?thesis by (auto dest!: create_user_Inr simp: garage_refs_ok_iff)
next
  case (Delete_user uid)
  assume "garage_refs_ok db" "step db e = Inr db'"
  with Delete_user show ?thesis by (auto dest!: delete_user_Inr simp: garage_refs_ok_iff)
qed

lemma garage_refs_run: "garage_refs_ok (run empty_database es)"
proof (rule run_invariant [where P = garage_refs_ok])
  show "garage_refs_ok empty_database"
    by (simp add: garage_refs_ok_def empty_database_def)
qed (rule step_garage_refs)

section \<open>Deleting a garage; deleting what a sale refers to\<close>

lemma delete_garage_blocked_iff:
  "list_ex (\<lambda>v. voiture_referenced (filter (\<lambda>s. \<not> sql_is (s_garage_id s) (g_id g)) (ventes db))
                   (v_id v))
      (filter (\<lambda>v. sql_is (v_garage_id v) (g_id g)) (voitures db))
   \<or> list_ex (\<lambda>k. client_referenced (filter (\<lambda>s. \<not> sql_is (s_garage_id s) (g_id g)) (ventes db))
                   (c_id k))
      (filter (\<lambda>k. sql_is (c_garage_id k) (g_id g)) (clients db))
   \<longleftrightarrow> cross_garage_sale db g"
  unfolding cross_garage_sale_def voiture_referenced_def client_referenced_def list_ex_iff
  by auto

lemma delete_garage_result:
  assumes "g \<in> set (garages db)" "caller_using db c FOR_DELETE (Garage g)"
  shows "delete_garage db c now g =
     (if cross_garage_sale db g then Inl Foreign_key_violation
      else Inr (db\<lparr>garages := removeAll g (garages db),
               profiles := map (\<lambda>p. if sql_is (p_garage_id p) (g_id g)
                         then update_profiles_updated_at now (p\<lparr>p_garage_id := None\<rparr>)
                         else p) (profiles db),
               voitures := filter (\<lambda>v. \<not> sql_is (v_garage_id v) (g_id g)) (voitures db),
               clients := filter (\<lambda>k. \<not> sql_is (c_garage_id k) (g_id g)) (clients db),
               ventes := filter (\<lambda>s. \<not> sql_is (s_garage_id s) (g_id g)) (ventes db)\<rparr>))"
  using assms delete_garage_blocked_iff [of g db]
  by (simp add: delete_garage_def Let_def)

lemma unassigned_profiles:
  fixes ps :: "profile list"
  defines "f \<equiv> (\<lambda>gid now p. if sql_is (p_garage_id p) gid
                         then update_profiles_updated_at now (p\<lparr>p_garage_id := None\<rparr>)
                         else p)"
  shows "map p_id (map (f gid now) ps) = map p_id ps"
    and "map p_user_id (map (f gid now) ps) = map p_user_id ps"
    and "\<forall>p\<in>set (map (f gid now) ps). \<not> sql_is (p_garage_id p) gid"
    and "\<forall>p\<in>set ps. \<not> sql_is (p_garage_id p) gid \<longrightarrow> p \<in> set (map (f gid now) ps)"
    and "\<forall>p\<in>set ps. sql_is (p_garage_id p) gid \<longrightarrow>
           p\<lparr>p_garage_id := None, p_updated_at := Some now\<rparr> \<in> set (map (f gid now) ps)"
proof -
  have keys: "p_id (f gid now p) = p_id p" "p_user_id (f gid now p) = p_user_id p" for p
    by (simp_all add: f_def update_profiles_updated_at_eq)
  show "map p_id (map (f gid now) ps) = map p_id ps"
    by (simp add: keys)
  show "map p_user_id (map (f gid now) ps) = map p_user_id ps"
    by (simp add: keys)
  have "\<not> sql_is (p_garage_id (f gid now p)) gid" for p
    by (simp add: f_def update_profiles_updated_at_eq sql_is_iff)
  then show "\<forall>p\<in>set (map (f gid now) ps). \<not> sql_is (p_garage_id p) gid"
    by (simp add: image_iff)
  show "\<forall>p\<in>set ps. \<not> sql_is (p_garage_id p) gid \<longrightarrow> p \<in> set (map (f gid now) ps)"
  proof (intro ballI impI)
    fix p assume p: "p \<in> set ps" "\<not> sql_is (p_garage_id p) gid"
    then have "f gid now p = p" by (simp add: f_def)
    moreover from p(1) have "f gid now p \<in> f gid now ` set ps" by (rule imageI)
    ultimately show "p \<in> set (map (f gid now) ps)" by simp
  qed
  show "\<forall>p\<in>set ps. sql_is (p_garage_id p) gid \<longrightarrow>
           p\<lparr>p_garage_id := None, p_updated_at := Some now\<rparr> \<in> set (map (f gid now) ps)"
  proof (intro ballI impI)
    fix p assume p: "p \<in> set ps" "sql_is (p_garage_id p) gid"
    then have "f gid now p = p\<lparr>p_garage_id := None, p_updated_at := Some now\<rparr>"
      by (simp add: f_def update_profiles_updated_at_eq)
    moreover from p(1) have "f gid now p \<in> f gid now ` set ps" by (rule imageI)
    ultimately show "p\<lparr>p_garage_id := None, p_updated_at := Some now\<rparr> \<in> set (map (f gid now) ps)"
      by simp
  qed
qed

lemma delete_garage_cascade:
  assumes "g \<in> set (garages db)" "caller_using db c FOR_DELETE (Garage g)"
  shows "if cross_garage_sale db g
     then exec db c now (Delete (Garage g)) = Inl Foreign_key_violation
     else \<exists>db'. exec db c now (Delete (Garage g)) = Inr db'
        \<and> g \<notin> set (garages db')
        \<and> (\<forall>v. v \<in> set (voitures db') \<longleftrightarrow>
                v \<in> set (voitures db) \<and> \<not> sql_is (v_garage_id v) (g_id g))
        \<and> (\<forall>k. k \<in> set (clients db') \<longleftrightarrow>
                k \<in> set (clients db) \<and> \<not> sql_is (c_garage_id k) (g_id g))
        \<and> (\<forall>s. s \<in> set (ventes db') \<longleftrightarrow>
                s \<in> set (ventes db) \<and> \<not> sql_is (s_garage_id s) (g_id g))
        \<and> map p_id (profiles db') = map p_id (profiles db)
        \<and> map p_user_id (profiles db') = map p_user_id (profiles db)
        \<and> (\<forall>p\<in>set (profiles db'). \<not> sql_is (p_garage_id p) (g_id g))
        \<and> (\<forall>p\<in>set (profiles db). \<not> sql_is (p_garage_id p) (g_id g) \<longrightarrow>
              p \<in> set (profiles db'))
        \<and> (\<forall>p\<in>set (profiles db). sql_is (p_garage_id p) (g_id g) \<longrightarrow>
              p\<lparr>p_garage_id := None, p_updated_at := Some now\<rparr> \<in> set (profiles db'))"
proof (cases "cross_garage_sale db g")
  case True
  with delete_garage_result [OF assms] show ?thesis by simp
next
  case False
  let ?db' = "db\<lparr>garages := removeAll g (garages db),
               profiles := map (\<lambda>p. if sql_is (p_garage_id p) (g_id g)
                         then update_profiles_updated_at now (p\<lparr>p_garage_id := None\<rparr>)
                         else p) (profiles db),
               voitures := filter (\<lambda>v. \<not> sql_is (v_garage_id v) (g_id g)) (voitures db),
               clients := filter (\<lambda>k. \<not> sql_is (c_garage_id k) (g_id g)) (clients db),
               ventes := filter (\<lambda>s. \<not> sql_is (s_garage_id s) (g_id g)) (ventes db)\<rparr>"
  from False delete_garage_result [OF assms, of now]
  have ex: "exec db c now (Delete (Garage g)) = Inr ?db'" by simp
  have p: "profiles ?db' = map (\<lambda>p. if sql_is (p_garage_id p) (g_id g)
                         then update_profiles_updated_at now (p\<lparr>p_garage_id := None\<rparr>)
                         else p) (profiles db)"
    by simp
  have r: "g \<notin> set (garages ?db')"
    "\<forall>v. v \<in> set (voitures ?db') \<longleftrightarrow> v \<in> set (voitures db) \<and> \<not> sql_is (v_garage_id v) (g_id g)"
    "\<forall>k. k \<in> set (clients ?db') \<longleftrightarrow> k \<in> set (clients db) \<and> \<not> sql_is (c_garage_id k) (g_id g)"
    "\<forall>s. s \<in> set (ventes ?db') \<longleftrightarrow> s \<in> set (ventes db) \<and> \<not> sql_is (s_garage_id s) (g_id g)"
    by simp_all
  have q1: "map p_id (profiles ?db') = map p_id (profiles db)"
    unfolding p by (rule unassigned_profiles(1))
  have q2: "map p_user_id (profiles ?db') = map p_user_id (profiles db)"
    unfolding p by (rule unassigned_profiles(2))
  have q3: "\<forall>p\<in>set (profiles ?db'). \<not> sql_is (p_garage_id p) (g_id g)"
    unfolding p by (rule unassigned_profiles(3))
  have q4: "\<forall>p\<in>set (profiles db). \<not> sql_is (p_garage_id p) (g_id g) \<longrightarrow>
              p \<in> set (profiles ?db')"
    unfolding p by (rule unassigned_profiles(4))
  have q5: "\<forall>p\<in>set (profiles db). sql_is (p_garage_id p) (g_id g) \<longrightarrow>
              p\<lparr>p_garage_id := None, p_updated_at := Some now\<rparr> \<in> set (profiles ?db')"
    unfolding p by (rule unassigned_profiles(5))
  from ex r q1 q2 q3 q4 q5 have "\<exists>db'. exec db c now (Delete (Garage g)) = Inr db'
        \<and> g \<notin> set (garages db')
        \<and> (\<forall>v. v \<in> set (voitures db') \<longleftrightarrow>
                v \<in> set (voitures db) \<and> \<not> sql_is (v_garage_id v) (g_id g))
        \<and> (\<forall>k. k \<in> set (clients db') \<longleftrightarrow>
                k \<in> set (clients db) \<and> \<not> sql_is (c_garage_id k) (g_id g))
        \<and> (\<forall>s. s \<in> set (ventes db') \<longleftrightarrow>
                s \<in> set (ventes db) \<and> \<not> sql_is (s_garage_id s) (g_id g))
        \<and> map p_id (profiles db') = map p_id (profiles db)
        \<and> map p_user_id (profiles db') = map p_user_id (profiles db)
        \<and> (\<forall>p\<in>set (profiles db'). \<not> sql_is (p_garage_id p) (g_id g))
        \<and> (\<forall>p\<in>set (profiles db). \<not> sql_is (p_garage_id p) (g_id g) \<longrightarrow>
              p \<in> set (profiles db'))
        \<and> (\<forall>p\<in>set (profiles db). sql_is (p_garage_id p) (g_id g) \<longrightarrow>
              p\<lparr>p_garage_id := None, p_updated_at := Some now\<rparr> \<in> set (profiles db'))"
    by (intro exI [of _ ?db'] conjI)
  with False show ?thesis by (simp only: if_False)
qed

lemma restrict_deletes:
  assumes "s \<in> set (ventes db)"
  shows "v \<in> set (voitures db) \<Longrightarrow> sql_is (s_voiture_id s) (v_id v) \<Longrightarrow>
      exec db c now (Delete (Voiture v)) =
        (if caller_using db c FOR_DELETE (Voiture v) then Inl Foreign_key_violation else Inr db)"
    and "k \<in> set (clients db) \<Longrightarrow> sql_is (s_client_id s) (c_id k) \<Longrightarrow>
      exec db c now (Delete (Client k)) =
        (if caller_using db c FOR_DELETE (Client k) then Inl Foreign_key_violation else Inr db)"
    and "p \<in> set (profiles db) \<Longrightarrow> sql_is (s_employe_id s) (p_id p) \<Longrightarrow>
      exec db c now (Delete (Profile p)) =
        (if caller_using db c FOR_DELETE (Profile p) then Inl Foreign_key_violation else Inr db)"
  using assms
  by (auto simp: delete_voiture_def delete_client_def delete_profile_def voiture_referenced_def
      client_referenced_def profile_referenced_def list_ex_iff)

section \<open>Every profile and role assignment refers to a stored identity\<close>

lemma sql_is_Some [simp]: "sql_is a (Some x) \<longleftrightarrow> a = Some x"
  by (auto simp: sql_is_iff)

lemma user_refs_ok_iff:
  "user_refs_ok db \<longleftrightarrow>
     (\<forall>p\<in>set (profiles db). \<exists>u\<in>set (users db). p_user_id p = Some (u_id u))
     \<and> (\<forall>r\<in>set (user_roles db). \<exists>u\<in>set (users db). r_user_id r = Some (u_id u))"
  by (simp add: user_refs_ok_def list_all_iff list_ex_iff)

lemma user_refs_ok_other [simp]:
  "user_refs_ok (db\<lparr>garages := gs\<rparr>) = user_refs_ok db"
  "user_refs_ok (db\<lparr>voitures := vs\<rparr>) = user_refs_ok db"
  "user_refs_ok (db\<lparr>clients := ks\<rparr>) = user_refs_ok db"
  "user_refs_ok (db\<lparr>ventes := ss\<rparr>) = user_refs_ok db"
  by (simp_all add: user_refs_ok_def)

lemma user_reference:
  assumes "k \<noteq> None" "references k (map (\<lambda>u. Some (u_id u)) us)"
  shows "\<exists>u\<in>set us. k = Some (u_id u)"
proof -
  from assms have "k \<in> (\<lambda>u. Some (u_id u)) ` set us"
    by (auto simp: references_def)
  then show ?thesis by (auto simp: image_iff)
qed

lemma profile_user_ref:
  "profiles_not_null p \<Longrightarrow> profiles_fk db p \<Longrightarrow> \<exists>u\<in>set (users db). p_user_id p = Some (u_id u)"
  by (rule user_reference) (simp_all add: profiles_not_null_def profiles_fk_def)

lemma user_role_user_ref:
  "user_roles_not_null r \<Longrightarrow> user_roles_fk db r
   \<Longrightarrow> \<exists>u\<in>set (users db). r_user_id r = Some (u_id u)"
  by (rule user_reference) (simp_all add: user_roles_not_null_def user_roles_fk_def)

lemma insert_profile_user_refs:
  assumes "user_refs_ok db" "insert_profile db c p = Inr db'"
  shows "user_refs_ok db'"
proof -
  from insert_profile_Inr [OF assms(2)]
  have db': "users db' = users db" "user_roles db' = user_roles db"
    "profiles db' = profiles db @ [p]"
    and r: "\<exists>u\<in>set (users db). p_user_id p = Some (u_id u)"
    by (simp_all add: profile_user_ref)
  from assms(1) r show ?thesis
    unfolding user_refs_ok_iff db' by auto
qed

lemma update_profile_user_refs:
  assumes "user_refs_ok db" "update_profile db c now p p' = Inr db'"
  shows "user_refs_ok db'"
proof -
  let ?new = "update_profiles_updated_at now p'"
  from update_profile_Inr [OF assms(2)] show ?thesis
  proof
    assume "db' = db"
    with assms(1) show ?thesis by simp
  next
    assume a: "p \<in> set (profiles db)
      \<and> db' = db\<lparr>profiles := replace p ?new (profiles db)\<rparr>
      \<and> profiles_not_null ?new
      \<and> profiles_unique (removeAll p (profiles db)) ?new
      \<and> profiles_fk db ?new"
    then have r: "\<exists>u\<in>set (users db). p_user_id ?new = Some (u_id u)"
      by (intro profile_user_ref) simp_all
    from a have db': "users db' = users db" "user_roles db' = user_roles db"
      "profiles db' = replace p ?new (profiles db)"
      by simp_all
    from assms(1) r show ?thesis
      unfolding user_refs_ok_iff db' by (blast dest: in_replaceD)
  qed
qed

lemma insert_user_role_user_refs:
  assumes "user_refs_ok db" "insert_user_role db c r = Inr db'"
  shows "user_refs_ok db'"
proof -
  from insert_user_role_Inr [OF assms(2)]
  have db': "users db' = users db" "user_roles db' = user_roles db @ [r]"
    "profiles db' = profiles db"
    and r: "\<exists>u\<in>set (users db). r_user_id r = Some (u_id u)"
    by (simp_all add: user_role_user_ref)
  from assms(1) r show ?thesis
    unfolding user_refs_ok_iff db' by auto
qed

lemma update_user_role_user_refs:
  assumes "user_refs_ok db" "update_user_role db c now r r' = Inr db'"
  shows "user_refs_ok db'"
proof -
  from update_user_role_Inr [OF assms(2)] show ?thesis
  proof
    assume "db' = db"
    with assms(1) show ?thesis by simp
  next
    assume a: "db' = db\<lparr>user_roles := replace r r' (user_roles db)\<rparr>
      \<and> user_roles_not_null r' \<and> user_roles_fk db r'"
    then have r: "\<exists>u\<in>set (users db). r_user_id r' = Some (u_id u)"
      by (intro user_role_user_ref) simp_all
    from a have db': "users db' = users db" "user_roles db' = replace r r' (user_roles db)"
      "profiles db' = profiles db"
      by simp_all
    from assms(1) r show ?thesis
      unfolding user_refs_ok_iff db' by (blast dest: in_replaceD)
  qed
qed

lemma delete_garage_user_refs:
  assumes "user_refs_ok db" "delete_garage db c now g = Inr db'"
  shows "user_refs_ok db'"
proof -
  let ?f = "\<lambda>p. if sql_is (p_garage_id p) (g_id g)
                 then update_profiles_updated_at now (p\<lparr>p_garage_id := None\<rparr>) else p"
  from delete_garage_Inr [OF assms(2)] show ?thesis
  proof
    assume "db' = db"
    with assms(1) show ?thesis by simp
  next
    assume "g \<in> set (garages db) \<and>
      db' = db\<lparr>garages := removeAll g (garages db),
               profiles := map ?f (profiles db),
               voitures := filter (\<lambda>v. \<not> sql_is (v_garage_id v) (g_id g)) (voitures db),
               clients := filter (\<lambda>k. \<not> sql_is (c_garage_id k) (g_id g)) (clients db),
               ventes := filter (\<lambda>s. \<not> sql_is (s_garage_id s) (g_id g)) (ventes db)\<rparr>"
    then have db': "users db' = users db" "user_roles db' = user_roles db"
      "profiles db' = map ?f (profiles db)"
      by simp_all
    have key: "p_user_id (?f p) = p_user_id p" for p
      by (simp add: update_profiles_updated_at_eq)
    show ?thesis
      unfolding user_refs_ok_iff db'
    proof (intro conjI ballI)
      fix x assume "x \<in> set (map ?f (profiles db))"
      then obtain p where p: "p \<in> set (profiles db)" "x = ?f p"
        by auto
      from p(2) key [of p] have "p_user_id x = p_user_id p"
        by simp
      with p(1) assms(1) show "\<exists>u\<in>set (users db). p_user_id x = Some (u_id u)"
        unfolding user_refs_ok_iff by simp
    next
      fix r assume "r \<in> set (user_roles db)"
      with assms(1) show "\<exists>u\<in>set (users db). r_user_id r = Some (u_id u)"
        unfolding user_refs_ok_iff by blast
    qed
  qed
qed

lemma other_user_refs:
  "user_refs_ok db \<Longrightarrow> insert_garage db c g = Inr db' \<Longrightarrow> user_refs_ok db'"
  "user_refs_ok db \<Longrightarrow> insert_voiture db c v = Inr db' \<Longrightarrow> user_refs_ok db'"
  "user_refs_ok db \<Longrightarrow> insert_client db c k = Inr db' \<Longrightarrow> user_refs_ok db'"
  "user_refs_ok db \<Longrightarrow> insert_vente db c s = Inr db' \<Longrightarrow> user_refs_ok db'"
  "user_refs_ok db \<Longrightarrow> update_garage db c now g g' = Inr db' \<Longrightarrow> user_refs_ok db'"
  "user_refs_ok db \<Longrightarrow> update_voiture db c now v v' = Inr db' \<Longrightarrow> user_refs_ok db'"
  "user_refs_ok db \<Longrightarrow> update_client db c now k k' = Inr db' \<Longrightarrow> user_refs_ok db'"
  "user_refs_ok db \<Longrightarrow> update_vente db c now s s' = Inr db' \<Longrightarrow> user_refs_ok db'"
  "user_refs_ok db \<Longrightarrow> delete_voiture db c v = Inr db' \<Longrightarrow> user_refs_ok db'"
  "user_refs_ok db \<Longrightarrow> delete_client db c k = Inr db' \<Longrightarrow> user_refs_ok db'"
  "user_refs_ok db \<Longrightarrow> delete_vente db c s = Inr db' \<Longrightarrow> user_refs_ok db'"
            apply (drule insert_garage_Inr, simp)
           apply (drule insert_voiture_Inr, simp)
          apply (drule insert_client_Inr, simp)
         apply (drule insert_vente_Inr, simp)
        apply (drule update_garage_Inr, erule disjE, simp, simp)
       apply (drule update_voiture_Inr, erule disjE, simp, simp)
      apply (drule update_client_Inr, erule disjE, simp, simp)
     apply (drule update_vente_Inr, erule disjE, simp, simp)
    apply (drule delete_voiture_Inr, erule disjE, simp, simp)
   apply (drule delete_client_Inr, erule disjE, simp, simp)
  apply (drule delete_vente_Inr, erule disjE, simp, simp)
  done

lemma delete_rows_user_refs:
  "user_refs_ok db \<Longrightarrow> delete_profile db c p = Inr db' \<Longrightarrow> user_refs_ok db'"
  "user_refs_ok db \<Longrightarrow> delete_user_role db c r = Inr db' \<Longrightarrow> user_refs_ok db'"
   apply (drule delete_profile_Inr, erule disjE, simp, simp add: user_refs_ok_iff)
  apply (drule delete_user_role_Inr, erule disjE, simp, simp add: user_refs_ok_iff)
  done

lemma exec_user_refs:
  "user_refs_ok db \<Longrightarrow> exec db c now op = Inr db' \<Longrightarrow> user_refs_ok db'"
  by (induction db c now op rule: exec.induct)
    (simp_all, (erule (1) insert_profile_user_refs update_profile_user_refs
       insert_user_role_user_refs update_user_role_user_refs delete_garage_user_refs
       other_user_refs delete_rows_user_refs)+)

lemma create_user_user_refs:
  assumes "user_refs_ok db" "create_user db now new pid rid = Inr db'"
  shows "user_refs_ok db'"
proof -
  from create_user_Inr [OF assms(2)]
  have db': "users db' = users db @ [new]"
    "profiles db' = profiles db @ [new_user_profile now new pid]"
    "user_roles db' = user_roles db @ [new_user_role now new rid]"
    by simp_all
  have "p_user_id (new_user_profile now new pid) = Some (u_id new)"
    "r_user_id (new_user_role now new rid) = Some (u_id new)"
    by (simp_all add: new_user_profile_def new_user_role_def)
  with assms(1) show ?thesis
    unfolding user_refs_ok_iff db' by auto
qed

lemma delete_user_user_refs:
  assumes "user_refs_ok db" "delete_user db uid = Inr db'"
  shows "user_refs_ok db'"
proof -
  from delete_user_Inr [OF assms(2)] show ?thesis
  proof
    assume "db' = db"
    with assms(1) show ?thesis by simp
  next
    assume "db' = db\<lparr>users := filter (\<lambda>u. u_id u \<noteq> uid) (users db),
              profiles := filter (\<lambda>p. \<not> sql_is (p_user_id p) (Some uid)) (profiles db),
              user_roles := filter (\<lambda>r. \<not> sql_is (r_user_id r) (Some uid)) (user_roles db)\<rparr>"
    then have db': "users db' = filter (\<lambda>u. u_id u \<noteq> uid) (users db)"
      "profiles db' = filter (\<lambda>p. \<not> sql_is (p_user_id p) (Some uid)) (profiles db)"
      "user_roles db' = filter (\<lambda>r. \<not> sql_is (r_user_id r) (Some uid)) (user_roles db)"
      by simp_all
    from assms(1) show ?thesis
      unfolding user_refs_ok_iff db' by auto
  qed
qed

lemma step_user_refs:
  "user_refs_ok db \<Longrightarrow> step db e = Inr db' \<Longrightarrow> user_refs_ok db'"
  by (cases e)
    (simp_all, (erule (1) exec_user_refs create_user_user_refs delete_user_user_refs)+)

lemma user_refs_run: "user_refs_ok (run empty_database es)"
proof (rule run_invariant [where P = user_refs_ok])
  show "user_refs_ok empty_database"
    by (simp add: user_refs_ok_def empty_database_def)
qed (rule step_user_refs)

section \<open>A user changes the garage of its own profile\<close>

lemma profiles_unique_others:
  assumes "profiles_wf db" "old \<in> set (profiles db)" "p_id new = p_id old"
    "p_user_id new = p_user_id old"
  shows "profiles_unique (removeAll old (profiles db)) new"
proof -
  have "inj_on p_id (set (profiles db))" "inj_on p_user_id (set (profiles db))"
    using assms(1) by (simp_all add: profiles_wf_def distinct_map)
  then have "\<forall>y\<in>set (profiles db). y \<noteq> old \<longrightarrow> p_id y \<noteq> p_id old \<and> p_user_id y \<noteq> p_user_id old"
    using assms(2) by (auto dest: inj_onD)
  with assms(3,4) show ?thesis
    by (auto simp: profiles_unique_def list_all_iff sql_is_iff)
qed

lemma update_own_profile_garage:
  assumes wf: "profiles_wf db"
    and old: "old \<in> set (profiles db)" "p_user_id old = Some uid"
    and u: "uid \<in> set (map u_id (users db))"
    and g: "Some g \<in> set (map g_id (garages db))"
  shows "exec db (Authenticated uid) now
           (Update (Profile old) (Profile (old\<lparr>p_garage_id := Some g\<rparr>)))
         = Inr (db\<lparr>profiles :=
             replace old (old\<lparr>p_garage_id := Some g, p_updated_at := Some now\<rparr>) (profiles db)\<rparr>)"
proof -
  let ?new = "update_profiles_updated_at now (old\<lparr>p_garage_id := Some g\<rparr>)"
  have new: "?new = old\<lparr>p_garage_id := Some g, p_updated_at := Some now\<rparr>"
    by (simp add: update_profiles_updated_at_eq)
  have nn: "profiles_not_null old"
    using wf old(1) by (simp add: profiles_wf_def list_all_iff)
  then have nn': "profiles_not_null ?new"
    by (simp add: new profiles_not_null_def)
  have uq: "profiles_unique (removeAll old (profiles db)) ?new"
    using wf old(1) by (rule profiles_unique_others) (simp_all add: new)
  have fk: "profiles_fk db ?new"
    using u g old(2) by (auto simp: new profiles_fk_def references_def)
  have key: "sql_is (p_id ?new) (p_id old)"
    using nn by (auto simp: new profiles_not_null_def sql_is_iff)
  have us: "caller_using db (Authenticated uid) FOR_UPDATE (Profile old)"
    using old(2) by (simp add: profiles_using)
  have ck: "caller_check db (Authenticated uid) FOR_UPDATE (Profile ?new)"
    using old(2) by (simp add: new profiles_check)
  from old(1) us ck nn' uq fk key show ?thesis
    by (simp add: update_profile_def Let_def new)
qed

lemma get_user_garage_replace:
  assumes "profiles_wf db" "old \<in> set (profiles db)" "p_user_id old = Some uid"
    "p_user_id new = Some uid"
  shows "get_user_garage (db\<lparr>profiles := replace old new (profiles db)\<rparr>) uid = p_garage_id new"
proof -
  have "distinct (map p_user_id (profiles db))"
    using assms(1) by (simp add: profiles_wf_def)
  from filter_replace_unique [OF this assms(2,3,4)] show ?thesis
    by (simp add: get_user_garage_def)
qed

text \<open>
  Claim C3.  The policy ``Users can update their own profile'' tests \<^verbatim>\<open>user_id = auth.uid()\<close>
  on the old and on the new row and nothing else: an update of one's own profile is
  permitted whatever it does to \<^verbatim>\<open>garage_id\<close>.  So an identity that has a profile can set
  its garage to any stored garage \<open>g\<close>: the statement succeeds, the identity's garage then
  resolves to \<open>g\<close>, and every vehicle, client and sale of \<open>g\<close> is readable by it.
  What is asked of the database, that the constraints on profiles hold and that the identity
  is stored, is true of every state reached from the empty database in which the identity
  has a profile.
\<close>

theorem own_profile_garage_reassignment:
  "(p_user_id old = Some uid \<and> p_user_id new = Some uid \<longrightarrow>
      permitted db uid (Update (Profile old) (Profile new)))
   \<and> (profiles_wf db \<and> old \<in> set (profiles db) \<and> p_user_id old = Some uid
      \<and> uid \<in> set (map u_id (users db)) \<and> Some g \<in> set (map g_id (garages db)) \<longrightarrow>
        (\<exists>db'. exec db (Authenticated uid) now
                  (Update (Profile old) (Profile (old\<lparr>p_garage_id := Some g\<rparr>))) = Inr db'
           \<and> get_user_garage db' uid = Some g
           \<and> (\<forall>r. garage_scoped r \<and> row_garage r = Some g \<longrightarrow> permitted db' uid (Select r))))
   \<and> (old \<in> set (profiles (run empty_database es)) \<and> p_user_id old = Some uid \<longrightarrow>
        profiles_wf (run empty_database es)
        \<and> uid \<in> set (map u_id (users (run empty_database es))))"
proof (intro conjI impI, goal_cases)
  case 1
  then show ?case by (simp add: profiles_using profiles_check)
next
  case 2
  let ?db' = "db\<lparr>profiles :=
             replace old (old\<lparr>p_garage_id := Some g, p_updated_at := Some now\<rparr>) (profiles db)\<rparr>"
  from 2 have ex: "exec db (Authenticated uid) now
           (Update (Profile old) (Profile (old\<lparr>p_garage_id := Some g\<rparr>))) = Inr ?db'"
    by (intro update_own_profile_garage) simp_all
  from 2 have gg: "get_user_garage ?db' uid = Some g"
    by (subst get_user_garage_replace) simp_all
  have "permitted ?db' uid (Select r)" if "garage_scoped r \<and> row_garage r = Some g" for r
    using that gg by (cases r) (simp_all add: rls_iff sql_is_iff)
  with ex gg show ?case by blast
next
  case 3
  show ?case by (rule profiles_wf_run)
next
  case 4
  then obtain u where "u \<in> set (users (run empty_database es))" "p_user_id old = Some (u_id u)"
    using user_refs_run [of es] unfolding user_refs_ok_iff by blast
  with 4 show ?case by auto
qed

theorem own_profile_garage_reassignment_witness:
  "\<not> has_role demo_db 12 admin \<and> get_user_garage demo_db 12 = Some 1
   \<and> \<not> permitted demo_db 12 (Select (Voiture (mk_voiture 41 (Some 2))))
   \<and> permitted demo_db 12
       (Update (Profile (mk_profile 22 12 (Some 1))) (Profile (mk_profile 22 12 (Some 2))))
   \<and> (\<exists>db'. exec demo_db (Authenticated 12) 200
         (Update (Profile (mk_profile 22 12 (Some 1)))
                 (Profile ((mk_profile 22 12 (Some 1))\<lparr>p_garage_id := Some 2\<rparr>))) = Inr db'
         \<and> get_user_garage db' 12 = Some 2
         \<and> permitted db' 12 (Select (Voiture (mk_voiture 41 (Some 2))))
         \<and> permitted db' 12 (Select (Client (mk_client 51 (Some 2))))
         \<and> permitted db' 12 (Select (Vente (mk_vente 61 41 51 20 (Some 2)))))
   \<and> mk_profile 22 12 (Some 1) \<in> set (profiles (run empty_database demo_history))
   \<and> profiles_wf (run empty_database demo_history)
   \<and> 12 \<in> set (map u_id (users (run empty_database demo_history)))"
proof -
  have wf: "profiles_wf demo_db"
    by (simp add: profiles_wf_def demo_db_def mk_profile_def profiles_not_null_def)
  have pre: "mk_profile 22 12 (Some 1) \<in> set (profiles demo_db)"
    "p_user_id (mk_profile 22 12 (Some 1)) = Some 12"
    "p_user_id (mk_profile 22 12 (Some 2)) = Some 12"
    "12 \<in> set (map u_id (users demo_db))" "Some 2 \<in> set (map g_id (garages demo_db))"
    by (simp_all add: demo_db_def mk_profile_def mk_user_def garage_a_def garage_b_def)
  have sel: "\<not> permitted demo_db 12 (Select (Voiture (mk_voiture 41 (Some 2))))"
    by (simp add: rls_iff demo_has_role demo_get_user_garage mk_voiture_def sql_is_iff)
  have rows: "garage_scoped (Voiture (mk_voiture 41 (Some 2))) \<and> row_garage (Voiture (mk_voiture 41 (Some 2))) = Some 2"
    "garage_scoped (Client (mk_client 51 (Some 2))) \<and> row_garage (Client (mk_client 51 (Some 2))) = Some 2"
    "garage_scoped (Vente (mk_vente 61 41 51 20 (Some 2))) \<and> row_garage (Vente (mk_vente 61 41 51 20 (Some 2))) = Some 2"
    by (simp_all add: mk_voiture_def mk_client_def mk_vente_def)
  note inst = own_profile_garage_reassignment
    [of "mk_profile 22 12 (Some 1)" 12 "mk_profile 22 12 (Some 2)" demo_db 2 200 demo_history]
  have reach: "mk_profile 22 12 (Some 1) \<in> set (profiles (run empty_database demo_history))"
    using pre(1) by (simp only: demo_history_run)
  from inst reach pre(2) have inv: "profiles_wf (run empty_database demo_history)"
    "12 \<in> set (map u_id (users (run empty_database demo_history)))"
    by blast+
  from inst pre have upd: "permitted demo_db 12
       (Update (Profile (mk_profile 22 12 (Some 1))) (Profile (mk_profile 22 12 (Some 2))))"
    by blast
  from inst wf pre obtain db' where db': "exec demo_db (Authenticated 12) 200
         (Update (Profile (mk_profile 22 12 (Some 1)))
                 (Profile ((mk_profile 22 12 (Some 1))\<lparr>p_garage_id := Some 2\<rparr>))) = Inr db'"
      "get_user_garage db' 12 = Some 2"
      "\<forall>r. garage_scoped r \<and> row_garage r = Some 2 \<longrightarrow> permitted db' 12 (Select r)"
    by blast
  from db'(3) rows have "permitted db' 12 (Select (Voiture (mk_voiture 41 (Some 2))))"
    "permitted db' 12 (Select (Client (mk_client 51 (Some 2))))"
    "permitted db' 12 (Select (Vente (mk_vente 61 41 51 20 (Some 2))))"
    by blast+
  with db'(1,2) upd sel demo_has_role(3) [of admin] demo_get_user_garage(3) reach inv
  show ?thesis
    by blast
qed

section \<open>New identities\<close>

lemma create_user_rows:
  assumes "create_user db now new pid rid = Inr db'"
  shows "users db' = users db @ [new]"
    and "filter (\<lambda>p. p_user_id p = Some (u_id new)) (profiles db')
         = [new_user_profile now new pid]"
    and "filter (\<lambda>r. r_user_id r = Some (u_id new) \<and> r_role r = Some employe) (user_roles db')
         = [new_user_role now new rid]"
proof -
  from create_user_Inr [OF assms]
  have db': "users db' = users db @ [new]"
    "profiles db' = profiles db @ [new_user_profile now new pid]"
    "user_roles db' = user_roles db @ [new_user_role now new rid]"
    and pu: "profiles_unique (profiles db) (new_user_profile now new pid)"
    and ru: "user_roles_unique (user_roles db) (new_user_role now new rid)"
    by simp_all
  show "users db' = users db @ [new]" by (fact db')
  from pu have "\<forall>p\<in>set (profiles db). p_user_id p \<noteq> Some (u_id new)"
    by (simp add: profiles_unique_def list_all_iff new_user_profile_def)
  then have "filter (\<lambda>p. p_user_id p = Some (u_id new)) (profiles db) = []"
    by (simp add: filter_empty_conv)
  then show "filter (\<lambda>p. p_user_id p = Some (u_id new)) (profiles db')
         = [new_user_profile now new pid]"
    by (simp add: db' new_user_profile_def)
  from ru have "\<forall>r\<in>set (user_roles db).
      \<not> (r_user_id r = Some (u_id new) \<and> r_role r = Some employe)"
    by (simp add: user_roles_unique_def list_all_iff new_user_role_def)
  then have "filter (\<lambda>r. r_user_id r = Some (u_id new) \<and> r_role r = Some employe)
      (user_roles db) = []"
    by (simp add: filter_empty_conv)
  then show "filter (\<lambda>r. r_user_id r = Some (u_id new) \<and> r_role r = Some employe)
      (user_roles db') = [new_user_role now new rid]"
    by (simp add: db' new_user_role_def)
qed

lemma second_profile_rejected:
  assumes "q \<in> set (profiles db)" "sql_is (p_user_id q) (p_user_id p)"
  shows "exec db c t (Insert (Profile p)) =
     (if \<not> caller_check db c FOR_INSERT (Profile p) then Inl Rls_violation
      else if \<not> profiles_not_null p then Inl Not_null_violation
      else Inl Unique_violation)"
proof -
  from assms have "\<not> profiles_unique (profiles db) p"
    by (auto simp: profiles_unique_def list_all_iff)
  then show ?thesis
    by (simp add: insert_profile_def)
qed

lemma create_user_succeeds:
  assumes ok: "user_refs_ok db"
    and u: "u_id new \<notin> set (map u_id (users db))"
    and p: "Some pid \<notin> set (map p_id (profiles db))"
    and r: "Some rid \<notin> set (map r_id (user_roles db))"
  shows "create_user db now new pid rid =
     Inr (db\<lparr>users := users db @ [new],
             profiles := profiles db @ [new_user_profile now new pid],
             user_roles := user_roles db @ [new_user_role now new rid]\<rparr>)"
proof -
  let ?np = "new_user_profile now new pid" and ?nr = "new_user_role now new rid"
  let ?db1 = "db\<lparr>users := users db @ [new]\<rparr>"
  let ?db2 = "?db1\<lparr>profiles := profiles ?db1 @ [?np]\<rparr>"
  from u have fresh: "\<forall>x\<in>set (users db). u_id x \<noteq> u_id new"
    by (auto dest: notin_imageD)
  have nop: "\<forall>q\<in>set (profiles db). p_user_id q \<noteq> Some (u_id new)"
  proof
    fix q assume "q \<in> set (profiles db)"
    with ok obtain x where "x \<in> set (users db)" "p_user_id q = Some (u_id x)"
      unfolding user_refs_ok_iff by blast
    with fresh show "p_user_id q \<noteq> Some (u_id new)" by simp
  qed
  have nor: "\<forall>q\<in>set (user_roles db). r_user_id q \<noteq> Some (u_id new)"
  proof
    fix q assume "q \<in> set (user_roles db)"
    with ok obtain x where "x \<in> set (users db)" "r_user_id q = Some (u_id x)"
      unfolding user_refs_ok_iff by blast
    with fresh show "r_user_id q \<noteq> Some (u_id new)" by simp
  qed
  from p have pf: "\<forall>q\<in>set (profiles db). p_id q \<noteq> Some pid"
    by (auto dest: notin_imageD)
  from r have rf: "\<forall>q\<in>set (user_roles db). r_id q \<noteq> Some rid"
    by (auto dest: notin_imageD)
  have nn: "profiles_not_null ?np"
    by (simp add: profiles_not_null_def new_user_profile_def coalesce_def split: option.splits)
  have uq: "profiles_unique (profiles ?db1) ?np"
    using pf nop by (simp add: profiles_unique_def list_all_iff new_user_profile_def)
  have fk: "profiles_fk ?db1 ?np"
    by (simp add: profiles_fk_def references_def new_user_profile_def)
  have 1: "insert_profile ?db1 Owner ?np = Inr ?db2"
    using nn uq fk by (simp add: insert_profile_def)
  have nn2: "user_roles_not_null ?nr"
    by (simp add: user_roles_not_null_def new_user_role_def)
  have uq2: "user_roles_unique (user_roles ?db2) ?nr"
    using rf nor by (simp add: user_roles_unique_def list_all_iff new_user_role_def)
  have fk2: "user_roles_fk ?db2 ?nr"
    by (simp add: user_roles_fk_def references_def new_user_role_def)
  have 2: "insert_user_role ?db2 Owner ?nr = Inr (?db2\<lparr>user_roles := user_roles ?db2 @ [?nr]\<rparr>)"
    using nn2 uq2 fk2 by (simp add: insert_user_role_def)
  from u 1 2 show ?thesis
    by (simp add: create_user_def handle_new_user_def)
qed

text \<open>
  Claim C9, as the code has it.  When the creation of an identity succeeds, the identity
  is stored together with exactly one profile of that identity, the one the trigger makes
  (\<^verbatim>\<open>nom\<close> and \<^verbatim>\<open>prenom\<close> from the metadata, or \<^verbatim>\<open>Nouveau\<close> and \<^verbatim>\<open>Utilisateur\<close>;
  \<^verbatim>\<open>email\<close> copied), and exactly one employee role assignment; when it fails nothing is
  stored.  From then on every insert of a profile with that \<^verbatim>\<open>user_id\<close> fails (for a
  caller who passes the policies and fills the NOT NULL columns, with the unique
  violation).  In a state reached from the empty database the creation succeeds whenever
  the identity's id and the two generated ids are new.  In every such state an identity has
  at most one profile.
\<close>

theorem new_identity_profile_and_role:
  "(create_user db now new pid rid = Inr db' \<longrightarrow>
      users db' = users db @ [new]
      \<and> filter (\<lambda>p. p_user_id p = Some (u_id new)) (profiles db')
          = [new_user_profile now new pid]
      \<and> filter (\<lambda>r. r_user_id r = Some (u_id new) \<and> r_role r = Some employe) (user_roles db')
          = [new_user_role now new rid]
      \<and> p_nom (new_user_profile now new pid)
          = Some (case map_of (u_raw_user_meta_data new) ''nom'' of
                    None \<Rightarrow> ''Nouveau'' | Some x \<Rightarrow> x)
      \<and> p_prenom (new_user_profile now new pid)
          = Some (case map_of (u_raw_user_meta_data new) ''prenom'' of
                    None \<Rightarrow> ''Utilisateur'' | Some x \<Rightarrow> x)
      \<and> p_email (new_user_profile now new pid) = u_email new
      \<and> (\<forall>c t p. p_user_id p = Some (u_id new) \<longrightarrow>
            exec db' c t (Insert (Profile p)) =
              (if \<not> caller_check db' c FOR_INSERT (Profile p) then Inl Rls_violation
               else if \<not> profiles_not_null p then Inl Not_null_violation
               else Inl Unique_violation)))
   \<and> (u_id new \<notin> set (map u_id (users (run empty_database es)))
      \<and> Some pid \<notin> set (map p_id (profiles (run empty_database es)))
      \<and> Some rid \<notin> set (map r_id (user_roles (run empty_database es))) \<longrightarrow>
        (\<exists>db'. create_user (run empty_database es) now new pid rid = Inr db'))
   \<and> length (filter (\<lambda>p. p_user_id p = Some uid) (profiles (run empty_database es))) \<le> 1"
proof (intro conjI)
  show "create_user db now new pid rid = Inr db' \<longrightarrow>
      users db' = users db @ [new]
      \<and> filter (\<lambda>p. p_user_id p = Some (u_id new)) (profiles db')
          = [new_user_profile now new pid]
      \<and> filter (\<lambda>r. r_user_id r = Some (u_id new) \<and> r_role r = Some employe) (user_roles db')
          = [new_user_role now new rid]
      \<and> p_nom (new_user_profile now new pid)
          = Some (case map_of (u_raw_user_meta_data new) ''nom'' of
                    None \<Rightarrow> ''Nouveau'' | Some x \<Rightarrow> x)
      \<and> p_prenom (new_user_profile now new pid)
          = Some (case map_of (u_raw_user_meta_data new) ''prenom'' of
                    None \<Rightarrow> ''Utilisateur'' | Some x \<Rightarrow> x)
      \<and> p_email (new_user_profile now new pid) = u_email new
      \<and> (\<forall>c t p. p_user_id p = Some (u_id new) \<longrightarrow>
            exec db' c t (Insert (Profile p)) =
              (if \<not> caller_check db' c FOR_INSERT (Profile p) then Inl Rls_violation
               else if \<not> profiles_not_null p then Inl Not_null_violation
               else Inl Unique_violation))"
  proof
    assume cr: "create_user db now new pid rid = Inr db'"
    note rows = create_user_rows [OF cr]
    have "new_user_profile now new pid \<in> set (profiles db')"
      using create_user_Inr [OF cr] by simp
    moreover have "p_user_id (new_user_profile now new pid) = Some (u_id new)"
      by (simp add: new_user_profile_def)
    ultimately have rej: "exec db' c t (Insert (Profile p)) =
              (if \<not> caller_check db' c FOR_INSERT (Profile p) then Inl Rls_violation
               else if \<not> profiles_not_null p then Inl Not_null_violation
               else Inl Unique_violation)" if "p_user_id p = Some (u_id new)" for c t p
      using that by (intro second_profile_rejected) (simp_all add: sql_is_iff)
    have f: "p_nom (new_user_profile now new pid)
          = Some (case map_of (u_raw_user_meta_data new) ''nom'' of
                    None \<Rightarrow> ''Nouveau'' | Some x \<Rightarrow> x)"
      "p_prenom (new_user_profile now new pid)
          = Some (case map_of (u_raw_user_meta_data new) ''prenom'' of
                    None \<Rightarrow> ''Utilisateur'' | Some x \<Rightarrow> x)"
      "p_email (new_user_profile now new pid) = u_email new"
      by (simp_all add: new_user_profile_def coalesce_def split: option.splits)
    from rows f rej show "users db' = users db @ [new]
      \<and> filter (\<lambda>p. p_user_id p = Some (u_id new)) (profiles db')
          = [new_user_profile now new pid]
      \<and> filter (\<lambda>r. r_user_id r = Some (u_id new) \<and> r_role r = Some employe) (user_roles db')
          = [new_user_role now new rid]
      \<and> p_nom (new_user_profile now new pid)
          = Some (case map_of (u_raw_user_meta_data new) ''nom'' of
                    None \<Rightarrow> ''Nouveau'' | Some x \<Rightarrow> x)
      \<and> p_prenom (new_user_profile now new pid)
          = Some (case map_of (u_raw_user_meta_data new) ''prenom'' of
                    None \<Rightarrow> ''Utilisateur'' | Some x \<Rightarrow> x)
      \<and> p_email (new_user_profile now new pid) = u_email new
      \<and> (\<forall>c t p. p_user_id p = Some (u_id new) \<longrightarrow>
            exec db' c t (Insert (Profile p)) =
              (if \<not> caller_check db' c FOR_INSERT (Profile p) then Inl Rls_violation
               else if \<not> profiles_not_null p then Inl Not_null_violation
               else Inl Unique_violation))"
      by (intro conjI allI impI)
  qed
  show "u_id new \<notin> set (map u_id (users (run empty_database es)))
      \<and> Some pid \<notin> set (map p_id (profiles (run empty_database es)))
      \<and> Some rid \<notin> set (map r_id (user_roles (run empty_database es))) \<longrightarrow>
        (\<exists>db'. create_user (run empty_database es) now new pid rid = Inr db')"
    using create_user_succeeds [OF user_refs_run, of new es pid rid now] by blast
  show "length (filter (\<lambda>p. p_user_id p = Some uid) (profiles (run empty_database es))) \<le> 1"
    using profiles_wf_run [of es] by (intro length_filter_distinct) (simp add: profiles_wf_def)
qed

lemma demo_create_lea: "create_user demo_db 400 lea 24 36 = Inr lea_db"
  by code_simp

theorem new_identity_profile_and_role_witness:
  "create_user demo_db 400 lea 24 36 = Inr lea_db
   \<and> users lea_db = users demo_db @ [lea]
   \<and> filter (\<lambda>p. p_user_id p = Some 15) (profiles lea_db) = [new_user_profile 400 lea 24]
   \<and> filter (\<lambda>r. r_user_id r = Some 15 \<and> r_role r = Some employe) (user_roles lea_db)
       = [new_user_role 400 lea 36]
   \<and> p_nom (new_user_profile 400 lea 24) = Some ''Durand''
   \<and> p_prenom (new_user_profile 400 lea 24) = Some ''Utilisateur''
   \<and> p_email (new_user_profile 400 lea 24) = Some ''lea@example.org''
   \<and> exec lea_db Owner 500 (Insert (Profile (mk_profile 25 15 None))) = Inl Unique_violation
   \<and> 15 \<notin> set (map u_id (users (run empty_database demo_history)))
   \<and> Some 24 \<notin> set (map p_id (profiles (run empty_database demo_history)))
   \<and> Some 36 \<notin> set (map r_id (user_roles (run empty_database demo_history)))
   \<and> (\<exists>db'. create_user (run empty_database demo_history) 400 lea 24 36 = Inr db')
   \<and> length (filter (\<lambda>p. p_user_id p = Some 12) (profiles (run empty_database demo_history))) \<le> 1"
proof -
  note inst = new_identity_profile_and_role [where db = demo_db and now = 400 and new = lea
      and pid = 24 and rid = 36 and db' = lea_db and es = demo_history and uid = 12]
  have u: "u_id lea = 15" "u_email lea = Some ''lea@example.org''"
    "map_of (u_raw_user_meta_data lea) ''nom'' = Some ''Durand''"
    "map_of (u_raw_user_meta_data lea) ''prenom'' = None"
    by (simp_all add: lea_def)
  have fresh: "15 \<notin> set (map u_id (users (run empty_database demo_history)))"
    "Some 24 \<notin> set (map p_id (profiles (run empty_database demo_history)))"
    "Some 36 \<notin> set (map r_id (user_roles (run empty_database demo_history)))"
    by (simp_all add: demo_history_run demo_db_def mk_user_def mk_profile_def mk_role_def)
  have p: "p_user_id (mk_profile 25 15 None) = Some 15"
    "profiles_not_null (mk_profile 25 15 None)"
    "caller_check lea_db Owner FOR_INSERT (Profile (mk_profile 25 15 None))"
    by (simp_all add: mk_profile_def profiles_not_null_def)
  note c2 = conjunct2
  note A = inst [THEN conjunct1, THEN mp, OF demo_create_lea, unfolded u]
  note a = A [THEN conjunct1] A [THEN c2, THEN conjunct1] A [THEN c2, THEN c2, THEN conjunct1]
    A [THEN c2, THEN c2, THEN c2, THEN conjunct1, unfolded option.case]
    A [THEN c2, THEN c2, THEN c2, THEN c2, THEN conjunct1, unfolded option.case]
    A [THEN c2, THEN c2, THEN c2, THEN c2, THEN c2, THEN conjunct1]
  note rej = A [THEN c2, THEN c2, THEN c2, THEN c2, THEN c2, THEN c2, rule_format,
      of "mk_profile 25 15 None" Owner 500, OF p(1)]
  from rej p(2,3) have b: "exec lea_db Owner 500 (Insert (Profile (mk_profile 25 15 None)))
      = Inl Unique_violation"
    by (simp only: not_True_eq_False if_False)
  note c = inst [THEN c2, THEN conjunct1, unfolded u, THEN mp, OF conjI, OF fresh(1) conjI,
      OF fresh(2) fresh(3)]
  note d = inst [THEN c2, THEN c2]
  from demo_create_lea a b fresh c d show ?thesis by (intro conjI)
qed

text \<open>
  The claim C9 as it is written fails in its last part: an identity can be left without a
  profile.  After the history of the example database the admin 10 deletes the profile of
  identity 13, which no sale refers to; identity 13 is still stored and has no profile.
\<close>

theorem one_profile_counterexample:
  "13 \<in> set (map u_id (users (run empty_database orphan_history)))
   \<and> filter (\<lambda>p. p_user_id p = Some 13) (profiles (run empty_database orphan_history)) = []"
  by code_simp

section \<open>Garage references and referential actions\<close>

lemma cross_db_run:
  "run demo_db [Statement (Authenticated 12) 300 (Insert (Vente (mk_vente 61 41 50 22 (Some 1))))]
   = cross_db"
  by code_simp

lemma demo_delete_garage_a:
  "exec demo_db (Authenticated 10) 300 (Delete (Garage garage_a)) = Inr without_garage_a"
  by code_simp

lemma demo_cross: "\<not> cross_garage_sale demo_db garage_a" "cross_garage_sale cross_db garage_b"
  by code_simp+

text \<open>
  Claim C10, as the code has it.  In every state reached from the empty database, every
  vehicle, client and sale has a \<^verbatim>\<open>garage_id\<close> that is not NULL and is the id of a
  stored garage.  Deleting a stored garage \<open>g\<close>, by a caller the policies let delete it:
  when a sale of another garage refers to a vehicle or client of \<open>g\<close> the statement is
  rejected with the foreign-key violation and nothing is deleted; otherwise the statement
  succeeds, \<open>g\<close> is gone, the vehicles, clients and sales left are exactly those that did
  not refer to \<open>g\<close>, and the profiles are all still there, those that referred to \<open>g\<close>
  with \<^verbatim>\<open>garage_id\<close> NULL.  Deleting a vehicle, a client or a profile that a stored sale
  refers to is rejected with the foreign-key violation; for a caller the policies do not
  let delete the row, the statement deletes nothing.
\<close>

theorem garage_references:
  "(\<forall>v\<in>set (voitures (run empty_database es)).
      v_garage_id v \<noteq> None
      \<and> v_garage_id v \<in> set (map g_id (garages (run empty_database es))))
   \<and> (\<forall>k\<in>set (clients (run empty_database es)).
      c_garage_id k \<noteq> None
      \<and> c_garage_id k \<in> set (map g_id (garages (run empty_database es))))
   \<and> (\<forall>s\<in>set (ventes (run empty_database es)).
      s_garage_id s \<noteq> None
      \<and> s_garage_id s \<in> set (map g_id (garages (run empty_database es))))
   \<and> (g \<in> set (garages db) \<and> caller_using db c FOR_DELETE (Garage g) \<longrightarrow>
       (if cross_garage_sale db g
        then exec db c now (Delete (Garage g)) = Inl Foreign_key_violation
        else \<exists>db'. exec db c now (Delete (Garage g)) = Inr db'
          \<and> g \<notin> set (garages db')
          \<and> (\<forall>v. v \<in> set (voitures db') \<longleftrightarrow>
                v \<in> set (voitures db) \<and> \<not> sql_is (v_garage_id v) (g_id g))
          \<and> (\<forall>k. k \<in> set (clients db') \<longleftrightarrow>
                k \<in> set (clients db) \<and> \<not> sql_is (c_garage_id k) (g_id g))
          \<and> (\<forall>s. s \<in> set (ventes db') \<longleftrightarrow>
                s \<in> set (ventes db) \<and> \<not> sql_is (s_garage_id s) (g_id g))
          \<and> map p_id (profiles db') = map p_id (profiles db)
          \<and> map p_user_id (profiles db') = map p_user_id (profiles db)
          \<and> (\<forall>p\<in>set (profiles db'). \<not> sql_is (p_garage_id p) (g_id g))
          \<and> (\<forall>p\<in>set (profiles db). \<not> sql_is (p_garage_id p) (g_id g) \<longrightarrow>
                p \<in> set (profiles db'))
          \<and> (\<forall>p\<in>set (profiles db). sql_is (p_garage_id p) (g_id g) \<longrightarrow>
                p\<lparr>p_garage_id := None, p_updated_at := Some now\<rparr> \<in> set (profiles db'))))
   \<and> (s \<in> set (ventes db) \<and> v \<in> set (voitures db) \<and> sql_is (s_voiture_id s) (v_id v) \<longrightarrow>
        exec db c now (Delete (Voiture v)) =
          (if caller_using db c FOR_DELETE (Voiture v) then Inl Foreign_key_violation
           else Inr db))
   \<and> (s \<in> set (ventes db) \<and> k \<in> set (clients db) \<and> sql_is (s_client_id s) (c_id k) \<longrightarrow>
        exec db c now (Delete (Client k)) =
          (if caller_using db c FOR_DELETE (Client k) then Inl Foreign_key_violation
           else Inr db))
   \<and> (s \<in> set (ventes db) \<and> p \<in> set (profiles db) \<and> sql_is (s_employe_id s) (p_id p) \<longrightarrow>
        exec db c now (Delete (Profile p)) =
          (if caller_using db c FOR_DELETE (Profile p) then Inl Foreign_key_violation
           else Inr db))"
proof -
  have ref: "k \<noteq> None \<and> k \<in> set (map g_id gs)" if "\<exists>g\<in>set gs. sql_is k (g_id g)"
    for k :: "uuid option" and gs
    using that by (auto simp: sql_is_iff intro: rev_image_eqI)
  note inv = garage_refs_run [of es, unfolded garage_refs_ok_iff]
  have 1: "\<forall>v\<in>set (voitures (run empty_database es)).
      v_garage_id v \<noteq> None
      \<and> v_garage_id v \<in> set (map g_id (garages (run empty_database es)))"
    using inv by (intro ballI ref) blast
  have 2: "\<forall>k\<in>set (clients (run empty_database es)).
      c_garage_id k \<noteq> None
      \<and> c_garage_id k \<in> set (map g_id (garages (run empty_database es)))"
    using inv by (intro ballI ref) blast
  have 3: "\<forall>s\<in>set (ventes (run empty_database es)).
      s_garage_id s \<noteq> None
      \<and> s_garage_id s \<in> set (map g_id (garages (run empty_database es)))"
    using inv by (intro ballI ref) blast
  show ?thesis
    apply (intro conjI impI)
          apply (rule 1)
         apply (rule 2)
        apply (rule 3)
       apply (rule delete_garage_cascade; blast)
      apply (rule restrict_deletes(1); blast)
     apply (rule restrict_deletes(2); blast)
    apply (rule restrict_deletes(3); blast)
    done
qed

theorem garage_references_witness:
  "list_all (\<lambda>v. v_garage_id v \<noteq> None \<and> v_garage_id v \<in> set (map g_id (garages demo_db)))
      (voitures demo_db)
   \<and> list_all (\<lambda>k. c_garage_id k \<noteq> None \<and> c_garage_id k \<in> set (map g_id (garages demo_db)))
      (clients demo_db)
   \<and> list_all (\<lambda>s. s_garage_id s \<noteq> None \<and> s_garage_id s \<in> set (map g_id (garages demo_db)))
      (ventes demo_db)
   \<and> garage_a \<in> set (garages demo_db)
   \<and> caller_using demo_db (Authenticated 10) FOR_DELETE (Garage garage_a)
   \<and> \<not> cross_garage_sale demo_db garage_a
   \<and> exec demo_db (Authenticated 10) 300 (Delete (Garage garage_a)) = Inr without_garage_a
   \<and> (\<forall>v. v \<in> set (voitures without_garage_a) \<longleftrightarrow>
         v \<in> set (voitures demo_db) \<and> \<not> sql_is (v_garage_id v) (g_id garage_a))
   \<and> (\<forall>s. s \<in> set (ventes without_garage_a) \<longleftrightarrow>
         s \<in> set (ventes demo_db) \<and> \<not> sql_is (s_garage_id s) (g_id garage_a))
   \<and> map p_id (profiles without_garage_a) = map p_id (profiles demo_db)
   \<and> list_all (\<lambda>p. \<not> sql_is (p_garage_id p) (g_id garage_a)) (profiles without_garage_a)
   \<and> cross_garage_sale cross_db garage_b
   \<and> exec cross_db (Authenticated 10) 300 (Delete (Garage garage_b)) = Inl Foreign_key_violation
   \<and> exec demo_db (Authenticated 10) 300 (Delete (Voiture (mk_voiture 40 (Some 1))))
       = Inl Foreign_key_violation
   \<and> exec demo_db (Authenticated 10) 300 (Delete (Client (mk_client 50 (Some 1))))
       = Inl Foreign_key_violation
   \<and> exec demo_db (Authenticated 10) 300 (Delete (Profile (mk_profile 22 12 (Some 1))))
       = Inl Foreign_key_violation
   \<and> exec demo_db (Authenticated 12) 300 (Delete (Voiture (mk_voiture 40 (Some 1)))) = Inr demo_db"
proof -
  note inst = garage_references [where es = demo_history and db = demo_db and now = 300
      and s = sale_60 and v = "mk_voiture 40 (Some 1)" and k = "mk_client 50 (Some 1)"
      and p = "mk_profile 22 12 (Some 1)", unfolded demo_history_run]
  note admin = inst [where c = "Authenticated 10" and g = garage_a]
  note emp = inst [where c = "Authenticated 12" and g = garage_a]
  note cross = garage_references [where db = cross_db and now = 300 and g = garage_b
      and c = "Authenticated 10"]
  have mem: "garage_a \<in> set (garages demo_db)" "sale_60 \<in> set (ventes demo_db)"
    "mk_voiture 40 (Some 1) \<in> set (voitures demo_db)"
    "mk_client 50 (Some 1) \<in> set (clients demo_db)"
    "mk_profile 22 12 (Some 1) \<in> set (profiles demo_db)"
    "garage_b \<in> set (garages cross_db)"
    by (simp_all add: demo_db_def cross_db_def sale_60_def)
  have refs: "sql_is (s_voiture_id sale_60) (v_id (mk_voiture 40 (Some 1)))"
    "sql_is (s_client_id sale_60) (c_id (mk_client 50 (Some 1)))"
    "sql_is (s_employe_id sale_60) (p_id (mk_profile 22 12 (Some 1)))"
    by (simp_all add: sale_60_def mk_vente_def mk_voiture_def mk_client_def mk_profile_def
        sql_is_iff)
  have "has_role cross_db 10 admin"
    by (simp add: has_role_def cross_db_def demo_db_def mk_role_def sql_is_iff)
  then have may: "caller_using demo_db (Authenticated 10) FOR_DELETE (Garage garage_a)"
    "caller_using cross_db (Authenticated 10) FOR_DELETE (Garage garage_b)"
    "caller_using demo_db (Authenticated 10) FOR_DELETE (Voiture (mk_voiture 40 (Some 1)))"
    "caller_using demo_db (Authenticated 10) FOR_DELETE (Client (mk_client 50 (Some 1)))"
    "caller_using demo_db (Authenticated 10) FOR_DELETE (Profile (mk_profile 22 12 (Some 1)))"
    "\<not> caller_using demo_db (Authenticated 12) FOR_DELETE (Voiture (mk_voiture 40 (Some 1)))"
    by (simp_all add: rls_iff demo_has_role)
  note c2 = conjunct2
  from admin have 1: "\<forall>v\<in>set (voitures demo_db).
      v_garage_id v \<noteq> None \<and> v_garage_id v \<in> set (map g_id (garages demo_db))"
    by (rule conjunct1)
  note D = admin [THEN c2, THEN c2, THEN c2, THEN conjunct1, THEN mp, OF conjI, OF mem(1) may(1)]
  from D demo_cross(1) have "\<exists>db'. exec demo_db (Authenticated 10) 300 (Delete (Garage garage_a)) = Inr db'
          \<and> garage_a \<notin> set (garages db')
          \<and> (\<forall>v. v \<in> set (voitures db') \<longleftrightarrow>
                v \<in> set (voitures demo_db) \<and> \<not> sql_is (v_garage_id v) (g_id garage_a))
          \<and> (\<forall>k. k \<in> set (clients db') \<longleftrightarrow>
                k \<in> set (clients demo_db) \<and> \<not> sql_is (c_garage_id k) (g_id garage_a))
          \<and> (\<forall>s. s \<in> set (ventes db') \<longleftrightarrow>
                s \<in> set (ventes demo_db) \<and> \<not> sql_is (s_garage_id s) (g_id garage_a))
          \<and> map p_id (profiles db') = map p_id (profiles demo_db)
          \<and> map p_user_id (profiles db') = map p_user_id (profiles demo_db)
          \<and> (\<forall>p\<in>set (profiles db'). \<not> sql_is (p_garage_id p) (g_id garage_a))
          \<and> (\<forall>p\<in>set (profiles demo_db). \<not> sql_is (p_garage_id p) (g_id garage_a) \<longrightarrow>
                p \<in> set (profiles db'))
          \<and> (\<forall>p\<in>set (profiles demo_db). sql_is (p_garage_id p) (g_id garage_a) \<longrightarrow>
                p\<lparr>p_garage_id := None, p_updated_at := Some 300\<rparr> \<in> set (profiles db'))"
    by (simp only: if_False)
  then obtain db' where db': "exec demo_db (Authenticated 10) 300 (Delete (Garage garage_a)) = Inr db'"
    "\<forall>v. v \<in> set (voitures db') \<longleftrightarrow>
         v \<in> set (voitures demo_db) \<and> \<not> sql_is (v_garage_id v) (g_id garage_a)"
    "\<forall>s. s \<in> set (ventes db') \<longleftrightarrow>
         s \<in> set (ventes demo_db) \<and> \<not> sql_is (s_garage_id s) (g_id garage_a)"
    "map p_id (profiles db') = map p_id (profiles demo_db)"
    "\<forall>p\<in>set (profiles db'). \<not> sql_is (p_garage_id p) (g_id garage_a)"
    by (elim exE conjE)
  from db'(1) demo_delete_garage_a have eq: "db' = without_garage_a" by simp
  note X = cross [THEN c2, THEN c2, THEN c2, THEN conjunct1, THEN mp, OF conjI, OF mem(6) may(2)]
  from X demo_cross(2)
  have 3: "exec cross_db (Authenticated 10) 300 (Delete (Garage garage_b))
      = Inl Foreign_key_violation"
    by (simp only: if_True)
  note E1 = admin [THEN c2, THEN c2, THEN c2, THEN c2, THEN conjunct1, THEN mp, OF conjI,
      OF mem(2) conjI, OF mem(3) refs(1)]
  note E2 = admin [THEN c2, THEN c2, THEN c2, THEN c2, THEN c2, THEN conjunct1, THEN mp,
      OF conjI, OF mem(2) conjI, OF mem(4) refs(2)]
  note E3 = admin [THEN c2, THEN c2, THEN c2, THEN c2, THEN c2, THEN c2, THEN mp,
      OF conjI, OF mem(2) conjI, OF mem(5) refs(3)]
  note E4 = emp [THEN c2, THEN c2, THEN c2, THEN c2, THEN conjunct1, THEN mp, OF conjI,
      OF mem(2) conjI, OF mem(3) refs(1)]
  from E1 E2 E3 may(3-5) have 4:
    "exec demo_db (Authenticated 10) 300 (Delete (Voiture (mk_voiture 40 (Some 1))))
       = Inl Foreign_key_violation"
    "exec demo_db (Authenticated 10) 300 (Delete (Client (mk_client 50 (Some 1))))
       = Inl Foreign_key_violation"
    "exec demo_db (Authenticated 10) 300 (Delete (Profile (mk_profile 22 12 (Some 1))))
       = Inl Foreign_key_violation"
    by (simp_all only: if_True)
  from E4 may(6) have 5:
    "exec demo_db (Authenticated 12) 300 (Delete (Voiture (mk_voiture 40 (Some 1)))) = Inr demo_db"
    by (simp only: if_False)
  note r = db'(2-5) [unfolded eq]
  from 1 have v1: "list_all
      (\<lambda>v. v_garage_id v \<noteq> None \<and> v_garage_id v \<in> set (map g_id (garages demo_db)))
      (voitures demo_db)"
    by (simp only: list_all_iff)
  from admin [THEN c2, THEN conjunct1] have v2: "list_all
      (\<lambda>k. c_garage_id k \<noteq> None \<and> c_garage_id k \<in> set (map g_id (garages demo_db)))
      (clients demo_db)"
    by (simp only: list_all_iff)
  from admin [THEN c2, THEN c2, THEN conjunct1] have v3: "list_all
      (\<lambda>s. s_garage_id s \<noteq> None \<and> s_garage_id s \<in> set (map g_id (garages demo_db)))
      (ventes demo_db)"
    by (simp only: list_all_iff)
  from r(4) have r4: "list_all (\<lambda>p. \<not> sql_is (p_garage_id p) (g_id garage_a))
      (profiles without_garage_a)"
    by (simp only: list_all_iff)
  from v1 v2 v3 mem(1) may(1) demo_cross demo_delete_garage_a r(1-3) r4 3 4 5
  show ?thesis by (intro conjI)
qed

text \<open>
  The claim C10 as it is written fails: deleting a garage does not always cascade.  The
  insert policy of \<^verbatim>\<open>ventes\<close> compares the garage of the sale with the garage of the
  caller and the foreign keys only ask that the vehicle and the client be stored, so a sale
  of garage 1 can refer to the vehicle 41 of garage 2.  The admin 10 is permitted to delete
  garage 2; the cascade reaches vehicle 41, the sale of garage 1 is left and refers to it,
  and \<^verbatim>\<open>ON DELETE RESTRICT\<close> rejects the statement: garage 2, its vehicle and its client
  are all still stored.
\<close>

theorem garage_cascade_counterexample:
  "run empty_database cross_history = cross_db
   \<and> garage_b \<in> set (garages cross_db)
   \<and> permitted cross_db 10 (Delete (Garage garage_b))
   \<and> exec cross_db (Authenticated 10) 300 (Delete (Garage garage_b))
       = Inl Foreign_key_violation
   \<and> run cross_db [Statement (Authenticated 10) 300 (Delete (Garage garage_b))] = cross_db
   \<and> mk_voiture 41 (Some 2) \<in> set (voitures cross_db)
   \<and> mk_client 51 (Some 2) \<in> set (clients cross_db)"
  by code_simp

end
